(* ===== verification/Domain.thy ===== *)
theory Domain
  imports Belt_Prelude
begin

text \<open>
  The crate \<open>filebelt-domain\<close> (\<open>source/crates/filebelt-domain/src/lib.rs\<close>): typed
  identifiers, the action vocabulary, generations and byte counts, normalized names, logical
  paths and the lifecycle state machines.

  Two third-party libraries are parameters. The \<open>uuid\<close> crate enters as a record of the
  operations the code calls; NFC normalization (\<open>unicode_normalization\<close>) and default case
  folding (\<open>caseless\<close>) enter as functions on strings.
\<close>

section \<open>Identifiers\<close>

datatype IdError = InvalidSyntax | NonCanonical | UnsupportedVariant | UnsupportedVersion

primrec id_error_code :: "IdError \<Rightarrow> string" where
  "id_error_code InvalidSyntax = ''id.invalid_syntax''"
| "id_error_code NonCanonical = ''id.non_canonical''"
| "id_error_code UnsupportedVariant = ''id.unsupported_variant''"
| "id_error_code UnsupportedVersion = ''id.unsupported_version''"

text \<open>The operations of the \<open>uuid\<close> crate that the code calls.\<close>

datatype uuid_variant = NCS | RFC4122 | Microsoft | Future

record uuid_lib =
  uuid_parse_str :: "string \<Rightarrow> uuid option"
  uuid_hyphenated :: "uuid \<Rightarrow> string"
  uuid_get_variant :: "uuid \<Rightarrow> uuid_variant"
  uuid_get_version_num :: "uuid \<Rightarrow> nat"

definition validate_uuid_v4 :: "uuid_lib \<Rightarrow> uuid \<Rightarrow> (uuid, IdError) result" where
  "validate_uuid_v4 L value =
     (if uuid_get_variant L value \<noteq> RFC4122 then Err UnsupportedVariant
      else if uuid_get_version_num L value \<noteq> 4 then Err UnsupportedVersion
      else Ok value)"

definition parse_uuid_v4 :: "uuid_lib \<Rightarrow> string \<Rightarrow> (uuid, IdError) result" where
  "parse_uuid_v4 L value =
     and_then (ok_or (uuid_parse_str L value) InvalidSyntax) (\<lambda>parsed.
       if uuid_hyphenated L parsed \<noteq> value then Err NonCanonical
       else validate_uuid_v4 L parsed)"

text \<open>
  The macro \<open>define_id!\<close> makes one newtype over \<open>Uuid\<close> per kind of identifier. The
  newtypes carry the derived order of \<open>Uuid\<close>, which is the order of the 128-bit value in
  network byte order, so each is the type \<open>uuid\<close> here.
\<close>

type_synonym TenantId = uuid
type_synonym PrincipalId = uuid
type_synonym GroupId = uuid
type_synonym DriveId = uuid
type_synonym NodeId = uuid
type_synonym FileVersionId = uuid
type_synonym UploadSessionId = uuid
type_synonym ShareLinkId = uuid
type_synonym AclEntryId = uuid

definition id_from_uuid :: "uuid_lib \<Rightarrow> uuid \<Rightarrow> (uuid, IdError) result" where
  "id_from_uuid L value = validate_uuid_v4 L value"

definition id_to_string :: "uuid_lib \<Rightarrow> uuid \<Rightarrow> string" where
  "id_to_string L i = uuid_hyphenated L i"

definition id_from_str :: "uuid_lib \<Rightarrow> string \<Rightarrow> (uuid, IdError) result" where
  "id_from_str L value = parse_uuid_v4 L value"

lemma validate_uuid_v4_Ok:
  "validate_uuid_v4 L u = Ok v \<longleftrightarrow>
     v = u \<and> uuid_get_variant L u = RFC4122 \<and> uuid_get_version_num L u = 4"
  by (auto simp: validate_uuid_v4_def)

lemma id_from_str_Ok:
  "id_from_str L s = Ok u \<longleftrightarrow>
     uuid_parse_str L s = Some u \<and> id_to_string L u = s \<and> id_from_uuid L u = Ok u"
  by (auto simp: id_from_str_def parse_uuid_v4_def id_to_string_def id_from_uuid_def
      validate_uuid_v4_def result_simps split: if_splits)

section \<open>Actions, principals and resources\<close>

datatype Action =
    ReadMetadata
  | ListChildren
  | ReadContent
  | CreateChild
  | WriteContent
  | CreateVersion
  | Rename
  | Move
  | Delete
  | Restore
  | SetAttributes
  | Share
  | ManageAcl
  | ManageDrive
  | Transcode
  | UseExternalEditor
  | Comment
  | Review
  | UseMcp
  | Mount
  | Export
  | Traverse
  | ReadRepository
  | WriteRepository
  | ManageRepository
  | BypassRepositoryRules

definition ALL_ACTIONS :: "Action list" where
  "ALL_ACTIONS =
    [ReadMetadata, ListChildren, ReadContent, CreateChild, WriteContent, CreateVersion, Rename,
     Move, Delete, Restore, SetAttributes, Share, ManageAcl, ManageDrive, Transcode,
     UseExternalEditor, Comment, Review, UseMcp, Mount, Export, Traverse, ReadRepository,
     WriteRepository, ManageRepository, BypassRepositoryRules]"

primrec as_str :: "Action \<Rightarrow> string" where
  "as_str ReadMetadata = ''READ_METADATA''"
| "as_str ListChildren = ''LIST_CHILDREN''"
| "as_str ReadContent = ''READ_CONTENT''"
| "as_str CreateChild = ''CREATE_CHILD''"
| "as_str WriteContent = ''WRITE_CONTENT''"
| "as_str CreateVersion = ''CREATE_VERSION''"
| "as_str Rename = ''RENAME''"
| "as_str Move = ''MOVE''"
| "as_str Delete = ''DELETE''"
| "as_str Restore = ''RESTORE''"
| "as_str SetAttributes = ''SET_ATTRIBUTES''"
| "as_str Share = ''SHARE''"
| "as_str ManageAcl = ''MANAGE_ACL''"
| "as_str ManageDrive = ''MANAGE_DRIVE''"
| "as_str Transcode = ''TRANSCODE''"
| "as_str UseExternalEditor = ''USE_EXTERNAL_EDITOR''"
| "as_str Comment = ''COMMENT''"
| "as_str Review = ''REVIEW''"
| "as_str UseMcp = ''USE_MCP''"
| "as_str Mount = ''MOUNT''"
| "as_str Export = ''EXPORT''"
| "as_str Traverse = ''TRAVERSE''"
| "as_str ReadRepository = ''READ_REPOSITORY''"
| "as_str WriteRepository = ''WRITE_REPOSITORY''"
| "as_str ManageRepository = ''MANAGE_REPOSITORY''"
| "as_str BypassRepositoryRules = ''BYPASS_REPOSITORY_RULES''"

text \<open>The derived order: the order of declaration, read off as a position.\<close>

primrec action_index :: "Action \<Rightarrow> nat" where
  "action_index ReadMetadata = 0"
| "action_index ListChildren = 1"
| "action_index ReadContent = 2"
| "action_index CreateChild = 3"
| "action_index WriteContent = 4"
| "action_index CreateVersion = 5"
| "action_index Rename = 6"
| "action_index Move = 7"
| "action_index Delete = 8"
| "action_index Restore = 9"
| "action_index SetAttributes = 10"
| "action_index Share = 11"
| "action_index ManageAcl = 12"
| "action_index ManageDrive = 13"
| "action_index Transcode = 14"
| "action_index UseExternalEditor = 15"
| "action_index Comment = 16"
| "action_index Review = 17"
| "action_index UseMcp = 18"
| "action_index Mount = 19"
| "action_index Export = 20"
| "action_index Traverse = 21"
| "action_index ReadRepository = 22"
| "action_index WriteRepository = 23"
| "action_index ManageRepository = 24"
| "action_index BypassRepositoryRules = 25"

lemma nth_ALL_ACTIONS: "ALL_ACTIONS ! action_index a = a"
  by (cases a) (simp_all add: ALL_ACTIONS_def)

lemma action_index_inj: "action_index a = action_index b \<Longrightarrow> a = b"
  by (metis nth_ALL_ACTIONS)

instantiation Action :: linorder
begin

definition less_eq_Action :: "Action \<Rightarrow> Action \<Rightarrow> bool" where
  "less_eq_Action a b \<longleftrightarrow> action_index a \<le> action_index b"

definition less_Action :: "Action \<Rightarrow> Action \<Rightarrow> bool" where
  "less_Action a b \<longleftrightarrow> action_index a < action_index b"

instance
  by standard (auto simp: less_eq_Action_def less_Action_def intro: action_index_inj)

end

lemma action_in_ALL_ACTIONS: "a \<in> set ALL_ACTIONS"
  by (cases a) (simp_all add: ALL_ACTIONS_def)

instance Action :: finite
  by standard (rule finite_subset [of _ "set ALL_ACTIONS"], use action_in_ALL_ACTIONS in auto)

datatype PrincipalKind =
    UserPrincipal | GroupPrincipal | OrganizationPrincipal | ServicePrincipal
  | ShareLinkPrincipal | MountSession | McpSession | DocumentSession

primrec may_own_drive :: "PrincipalKind \<Rightarrow> bool" where
  "may_own_drive UserPrincipal = True"
| "may_own_drive GroupPrincipal = True"
| "may_own_drive OrganizationPrincipal = True"
| "may_own_drive ServicePrincipal = True"
| "may_own_drive ShareLinkPrincipal = False"
| "may_own_drive MountSession = False"
| "may_own_drive McpSession = False"
| "may_own_drive DocumentSession = False"

datatype ResourceId =
    Tenant TenantId
  | ResourceGroup GroupId
  | Drive DriveId
  | Node NodeId
  | FileVersion FileVersionId
  | UploadSession UploadSessionId
  | ShareLink ShareLinkId

datatype DriveOwner =
    User PrincipalId
  | Group GroupId
  | Organization PrincipalId
  | Service PrincipalId

datatype GroupRole = Member | Manager

section \<open>Generations and byte counts\<close>

type_synonym Generation = u64
type_synonym ByteCount = u64

definition INITIAL :: Generation where
  "INITIAL = 0"

definition checked_next :: "Generation \<Rightarrow> Generation option" where
  "checked_next g = checked_add g 1"

definition byte_count_checked_add :: "ByteCount \<Rightarrow> ByteCount \<Rightarrow> ByteCount option" where
  "byte_count_checked_add a b = checked_add a b"

record GenerationSnapshot =
  resource_acl :: Generation
  membership :: Generation
  namespace :: Generation

section \<open>Properties\<close>

text \<open>A concrete instance of the parameter, with the layout of RFC 4122: the hyphenated form in
  lower case, the version in bits 76 to 79 and the variant in bits 61 to 63 (nibbles 19 and 15).\<close>

definition hex_digit :: "nat \<Rightarrow> char" where
  "hex_digit n = ''0123456789abcdef'' ! n"

definition hex_value :: "char \<Rightarrow> nat option" where
  "hex_value c =
     (if 48 \<le> byte c \<and> byte c \<le> 57 then Some (byte c - 48)
      else if 97 \<le> byte c \<and> byte c \<le> 102 then Some (byte c - 87)
      else if 65 \<le> byte c \<and> byte c \<le> 70 then Some (byte c - 55)
      else None)"

definition nibble :: "nat \<Rightarrow> uuid \<Rightarrow> nat" where
  "nibble k u = unat (take_bit 4 (drop_bit (4 * k) u))"

definition hex_digits :: "uuid \<Rightarrow> string" where
  "hex_digits u = map (\<lambda>k. hex_digit (nibble k u)) (rev [0..<32])"

fun hex_number :: "uuid \<Rightarrow> string \<Rightarrow> uuid option" where
  "hex_number acc [] = Some acc"
| "hex_number acc (c # cs) =
     (case hex_value c of None \<Rightarrow> None | Some d \<Rightarrow> hex_number (16 * acc + of_nat d) cs)"

definition rfc4122_text :: "uuid \<Rightarrow> string" where
  "rfc4122_text u =
     (let h = hex_digits u in
      join_with (CHR ''-'') [take 8 h, take 4 (drop 8 h), take 4 (drop 12 h), take 4 (drop 16 h), drop 20 h])"

definition rfc4122_parse :: "string \<Rightarrow> uuid option" where
  "rfc4122_parse s =
     (let parts = split_on (CHR ''-'') s in
      if map length parts = [8, 4, 4, 4, 12]
      then hex_number 0 (concat parts) else None)"

definition rfc4122 :: uuid_lib where
  "rfc4122 =
     \<lparr>uuid_parse_str = rfc4122_parse, uuid_hyphenated = rfc4122_text,
      uuid_get_variant = (\<lambda>u. let v = nibble 15 u in
        if v < 8 then NCS else if v < 12 then RFC4122 else if v < 14 then Microsoft else Future),
      uuid_get_version_num = nibble 19\<rparr>"

definition sample_id :: "uuid \<Rightarrow> uuid" where
  "sample_id n = 0x40008000000000000000 + n"

text \<open>C33: A typed identifier survives its text form, and the text form is unique: where the uuid
  library reads back what it prints, parsing the text of an accepted identifier gives the
  identifier, and any accepted text is the canonical form of a version-4 identifier of the RFC
  variant, so that two texts never denote the same identifier.\<close>

theorem id_text_canonical:
  assumes "id_from_uuid L u = Ok i"
    and "uuid_parse_str L (uuid_hyphenated L u) = Some u"
  shows "id_from_str L (id_to_string L i) = Ok i
    \<and> (\<forall>s j. id_from_str L s = Ok j \<longrightarrow>
         s = id_to_string L j \<and> uuid_get_variant L j = RFC4122 \<and> uuid_get_version_num L j = 4
         \<and> (\<forall>t. id_from_str L t = Ok j \<longrightarrow> t = s))"
proof -
  have "i = u"
    using assms(1) by (simp add: id_from_uuid_def validate_uuid_v4_Ok)
  with assms show ?thesis
    by (auto simp: id_from_str_Ok) (auto simp: id_to_string_def id_from_uuid_def validate_uuid_v4_Ok)
qed

theorem id_text_canonical_witness:
  "id_from_str rfc4122 ''00000000-0000-4000-8000-00000000002a'' = Ok (sample_id 42)
   \<and> id_from_str rfc4122 ''00000000-0000-4000-8000-00000000002A'' \<noteq> Ok (sample_id 42)"
proof -
  have ok: "id_from_uuid rfc4122 (sample_id 42) = Ok (sample_id 42)"
    by code_simp
  have parse: "uuid_parse_str rfc4122 (uuid_hyphenated rfc4122 (sample_id 42)) = Some (sample_id 42)"
    by code_simp
  have printed: "id_to_string rfc4122 (sample_id 42) = ''00000000-0000-4000-8000-00000000002a''"
    by code_simp
  have upper: "''00000000-0000-4000-8000-00000000002A'' \<noteq> ''00000000-0000-4000-8000-00000000002a''"
    by simp
  show ?thesis
    using id_text_canonical [OF ok parse] printed upper by metis
qed

end
