(* ===== verification/Logical_Path.thy ===== *)
theory Logical_Path
  imports Domain
begin

text \<open>
  Normalized namespace components and absolute logical paths
  (\<open>source/crates/filebelt-domain/src/lib.rs\<close>, from \<open>NameError\<close> to
  \<open>absolute_path_len\<close>): validation, parsing, printing, joining and the aggregate limits.

  NFC normalization \<open>nfc\<close> and default case folding \<open>cf\<close> are parameters.
\<close>

section \<open>Names\<close>

definition MAX_NAME_BYTES :: nat where
  "MAX_NAME_BYTES = 255"

definition MAX_PATH_BYTES :: nat where
  "MAX_PATH_BYTES = 4096"

definition MAX_PATH_COMPONENTS :: nat where
  "MAX_PATH_COMPONENTS = 128"

datatype NameError =
    Empty | DotComponent | ForbiddenCharacter | TrailingSpaceOrDot | ReservedDeviceName | TooLong

primrec name_error_code :: "NameError \<Rightarrow> string" where
  "name_error_code Empty = ''name.empty''"
| "name_error_code DotComponent = ''name.dot_component''"
| "name_error_code ForbiddenCharacter = ''name.forbidden_character''"
| "name_error_code TrailingSpaceOrDot = ''name.trailing_space_or_dot''"
| "name_error_code ReservedDeviceName = ''name.reserved_device''"
| "name_error_code TooLong = ''name.too_long''"

record NormalizedName =
  display :: string
  comparison_key :: string

definition is_forbidden_name_character :: "char \<Rightarrow> bool" where
  "is_forbidden_name_character c \<longleftrightarrow>
     is_ascii_control c \<or>
     c \<in> {CHR ''/'', CHR 0x5C, CHR ''<'', CHR ''>'', CHR '':'', CHR 0x22, CHR ''|'', CHR ''?'',
          CHR ''*''}"

definition is_windows_device_name :: "string \<Rightarrow> bool" where
  "is_windows_device_name value =
     (let basename = (case split_on (CHR ''.'') value of [] \<Rightarrow> value | p # _ \<Rightarrow> p) in
      if \<exists>reserved \<in> set [''CON'', ''PRN'', ''AUX'', ''NUL''].
           eq_ignore_ascii_case basename reserved
      then True
      else length basename = 4
        \<and> to_ascii_uppercase (basename ! 0) \<in> {CHR ''C'', CHR ''L''}
        \<and> (if to_ascii_uppercase (basename ! 0) = CHR ''C''
           then eq_ignore_ascii_case (take 2 (drop 1 basename)) ''OM''
           else if to_ascii_uppercase (basename ! 0) = CHR ''L''
           then eq_ignore_ascii_case (take 2 (drop 1 basename)) ''PT''
           else False)
        \<and> 49 \<le> byte (basename ! 3) \<and> byte (basename ! 3) \<le> 57)"

definition ends_with_space_or_dot :: "string \<Rightarrow> bool" where
  "ends_with_space_or_dot value \<longleftrightarrow>
     (case rev value of [] \<Rightarrow> False | c # _ \<Rightarrow> c = CHR '' '' \<or> c = CHR ''.'')"

definition validate_display_name :: "string \<Rightarrow> (unit, NameError) result" where
  "validate_display_name value =
     (if value = [] then Err Empty
      else if value = ''.'' \<or> value = ''..'' then Err DotComponent
      else if ends_with_space_or_dot value then Err TrailingSpaceOrDot
      else if list_ex is_forbidden_name_character value then Err ForbiddenCharacter
      else if length value > MAX_NAME_BYTES then Err TooLong
      else if is_windows_device_name value then Err ReservedDeviceName
      else Ok ())"

definition normalized_name_new ::
  "(string \<Rightarrow> string) \<Rightarrow> (string \<Rightarrow> string) \<Rightarrow> string \<Rightarrow> (NormalizedName, NameError) result" where
  "normalized_name_new nfc cf value =
     (let d = nfc value in
      and_then (validate_display_name d) (\<lambda>_.
        Ok \<lparr>display = d, comparison_key = cf d\<rparr>))"

section \<open>Paths\<close>

datatype PathError =
    NotAbsolute
  | EmptyComponent
  | TooManyComponents
  | TooLong
  | InvalidComponent nat NameError

primrec path_error_code :: "PathError \<Rightarrow> string" where
  "path_error_code NotAbsolute = ''path.not_absolute''"
| "path_error_code EmptyComponent = ''path.empty_component''"
| "path_error_code TooManyComponents = ''path.too_many_components''"
| "path_error_code PathError.TooLong = ''path.too_long''"
| "path_error_code (InvalidComponent i e) = ''path.invalid_component''"

record LogicalPath =
  components :: "NormalizedName list"

definition absolute_path_len :: "NormalizedName list \<Rightarrow> nat" where
  "absolute_path_len cs = 1 + sum_list (map (\<lambda>c. length (display c)) cs) + (length cs - 1)"

definition validate_path_limits :: "NormalizedName list \<Rightarrow> (unit, PathError) result" where
  "validate_path_limits cs =
     (if length cs > MAX_PATH_COMPONENTS then Err TooManyComponents
      else if absolute_path_len cs > MAX_PATH_BYTES then Err PathError.TooLong
      else Ok ())"

definition root :: LogicalPath where
  "root = \<lparr>components = []\<rparr>"

definition from_components :: "NormalizedName list \<Rightarrow> (LogicalPath, PathError) result" where
  "from_components cs = and_then (validate_path_limits cs) (\<lambda>_. Ok \<lparr>components = cs\<rparr>)"

definition is_root :: "LogicalPath \<Rightarrow> bool" where
  "is_root p \<longleftrightarrow> components p = []"

definition file_name :: "LogicalPath \<Rightarrow> NormalizedName option" where
  "file_name p = (case rev (components p) of [] \<Rightarrow> None | c # _ \<Rightarrow> Some c)"

definition parent :: "LogicalPath \<Rightarrow> LogicalPath option" where
  "parent p =
     (case rev (components p) of
        [] \<Rightarrow> None
      | _ # rest \<Rightarrow> Some \<lparr>components = rev rest\<rparr>)"

definition join :: "LogicalPath \<Rightarrow> NormalizedName \<Rightarrow> (LogicalPath, PathError) result" where
  "join p component = from_components (components p @ [component])"

definition display_len_bytes :: "LogicalPath \<Rightarrow> nat" where
  "display_len_bytes p = absolute_path_len (components p)"

fun fmt_components :: "nat \<Rightarrow> NormalizedName list \<Rightarrow> string" where
  "fmt_components index [] = []"
| "fmt_components index (c # cs) =
     (if index > 0 then ''/'' else []) @ display c @ fmt_components (Suc index) cs"

definition path_to_string :: "LogicalPath \<Rightarrow> string" where
  "path_to_string p = ''/'' @ fmt_components 0 (components p)"

definition path_from_str ::
  "(string \<Rightarrow> string) \<Rightarrow> (string \<Rightarrow> string) \<Rightarrow> string \<Rightarrow> (LogicalPath, PathError) result" where
  "path_from_str nfc cf value =
     (case strip_prefix ''/'' value of
        None \<Rightarrow> Err NotAbsolute
      | Some remainder \<Rightarrow>
          if remainder = [] then Ok root
          else if list_ex (\<lambda>s. s = []) (split_on (CHR ''/'') remainder) then Err EmptyComponent
          else and_then
            (collect_ok
              (\<lambda>(index, v). map_err (InvalidComponent index) (normalized_name_new nfc cf v))
              (enumerate 0 (split_on (CHR ''/'') remainder)))
            from_components)"

section \<open>Facts about names\<close>

lemma slash_forbidden: "is_forbidden_name_character (CHR ''/'')"
  by (simp add: is_forbidden_name_character_def)

lemma validate_display_name_Ok:
  "validate_display_name s = Ok u \<longleftrightarrow>
     s \<noteq> [] \<and> s \<noteq> ''.'' \<and> s \<noteq> ''..'' \<and> \<not> ends_with_space_or_dot s
     \<and> \<not> list_ex is_forbidden_name_character s \<and> length s \<le> MAX_NAME_BYTES
     \<and> \<not> is_windows_device_name s"
  by (simp add: validate_display_name_def)

lemma validate_display_name_no_slash:
  "validate_display_name s = Ok u \<Longrightarrow> CHR ''/'' \<notin> set s"
  using slash_forbidden by (auto simp: validate_display_name_Ok list_ex_iff)

lemma normalized_name_new_Ok:
  "normalized_name_new nfc cf v = Ok n \<longleftrightarrow>
     validate_display_name (nfc v) = Ok () \<and>
     n = \<lparr>display = nfc v, comparison_key = cf (nfc v)\<rparr>"
  by (auto simp: normalized_name_new_def Let_def result_simps)

text \<open>
  The invariant of a component: exactly what \<open>NormalizedName::new\<close> establishes.
\<close>

definition name_ok :: "(string \<Rightarrow> string) \<Rightarrow> (string \<Rightarrow> string) \<Rightarrow> NormalizedName \<Rightarrow> bool" where
  "name_ok nfc cf n \<longleftrightarrow>
     nfc (display n) = display n \<and> comparison_key n = cf (display n)
     \<and> validate_display_name (display n) = Ok ()"

lemma name_ok_new: "name_ok nfc cf n \<Longrightarrow> normalized_name_new nfc cf (display n) = Ok n"
  by (simp add: name_ok_def normalized_name_new_Ok)

lemma new_name_ok:
  "\<lbrakk>normalized_name_new nfc cf v = Ok n; nfc (nfc v) = nfc v\<rbrakk> \<Longrightarrow> name_ok nfc cf n"
  by (auto simp: name_ok_def normalized_name_new_Ok)

lemma name_ok_no_slash: "name_ok nfc cf n \<Longrightarrow> CHR ''/'' \<notin> set (display n) \<and> display n \<noteq> []"
  using validate_display_name_no_slash [of "display n" "()"]
  by (auto simp: name_ok_def validate_display_name_Ok)

text \<open>The reserved device names, as a table.\<close>

definition device_names :: "string list" where
  "device_names =
     [''CON'', ''PRN'', ''AUX'', ''NUL'',
      ''COM1'', ''COM2'', ''COM3'', ''COM4'', ''COM5'', ''COM6'', ''COM7'', ''COM8'', ''COM9'',
      ''LPT1'', ''LPT2'', ''LPT3'', ''LPT4'', ''LPT5'', ''LPT6'', ''LPT7'', ''LPT8'', ''LPT9'']"

lemma split_on_takeWhile:
  "(case split_on c xs of [] \<Rightarrow> d | p # _ \<Rightarrow> p) = takeWhile (\<lambda>x. x \<noteq> c) xs"
  by (induction xs) (auto split: list.splits)

lemma nonzero_digit_iff: "49 \<le> byte d \<and> byte d \<le> 57 \<longleftrightarrow> d \<in> set ''123456789''"
proof
  assume "49 \<le> byte d \<and> byte d \<le> 57"
  then have "byte d \<in> {49, 50, 51, 52, 53, 54, 55, 56, 57}"
    by auto
  then have "byte d \<in> byte ` set ''123456789''"
    by (simp add: byte_def)
  then show "d \<in> set ''123456789''"
    by (rule imageE) (simp only: byte_def of_char_eq_iff)
qed (auto simp: byte_def)

lemma byte_less: "byte c < 256"
  by (simp add: byte_def)

lemma uppercase_nonzero_digit_iff:
  "to_ascii_uppercase d \<in> set ''123456789'' \<longleftrightarrow> d \<in> set ''123456789''"
proof (cases "97 \<le> byte d \<and> byte d \<le> 122")
  case True
  then have "byte (to_ascii_uppercase d) = (byte d - 32) mod 256"
    by (simp add: to_ascii_uppercase_def byte_def)
  then have "byte (to_ascii_uppercase d) = byte d - 32"
    using byte_less [of d] by simp
  with True show ?thesis
    using nonzero_digit_iff [of d] nonzero_digit_iff [of "to_ascii_uppercase d"] by linarith
next
  case False
  then have "to_ascii_uppercase d = d"
    unfolding to_ascii_uppercase_def by (rule if_not_P)
  then show ?thesis by (simp only:)
qed

lemma length_4_cases: "length xs = 4 \<longleftrightarrow> (\<exists>a b c d. xs = [a, b, c, d])"
  by (auto simp: numeral_eq_Suc length_Suc_conv)

lemma uppercase_device_names:
  "map to_ascii_uppercase xs \<in> set device_names \<longleftrightarrow>
     (\<exists>r \<in> set [''CON'', ''PRN'', ''AUX'', ''NUL'']. map to_ascii_uppercase xs = r)
     \<or> (\<exists>a b c d. xs = [a, b, c, d]
          \<and> (to_ascii_uppercase a = CHR ''C'' \<and> map to_ascii_uppercase [b, c] = ''OM''
             \<or> to_ascii_uppercase a = CHR ''L'' \<and> map to_ascii_uppercase [b, c] = ''PT'')
          \<and> to_ascii_uppercase d \<in> set ''123456789'')"
  by (auto simp: device_names_def map_eq_Cons_conv)

lemma uppercase_reserved:
  "r \<in> set [''CON'', ''PRN'', ''AUX'', ''NUL''] \<Longrightarrow> map to_ascii_uppercase r = r"
  by (auto simp: to_ascii_uppercase_def byte_def)

lemma uppercase_ports:
  "map to_ascii_uppercase ''OM'' = ''OM''" "map to_ascii_uppercase ''PT'' = ''PT''"
  by (simp_all add: to_ascii_uppercase_def byte_def)

lemma device_port_iff:
  "length xs = 4 \<and> to_ascii_uppercase (xs ! 0) \<in> {CHR ''C'', CHR ''L''}
     \<and> (if to_ascii_uppercase (xs ! 0) = CHR ''C''
        then eq_ignore_ascii_case (take 2 (drop 1 xs)) ''OM''
        else if to_ascii_uppercase (xs ! 0) = CHR ''L''
        then eq_ignore_ascii_case (take 2 (drop 1 xs)) ''PT''
        else False)
     \<and> 49 \<le> byte (xs ! 3) \<and> byte (xs ! 3) \<le> 57 \<longleftrightarrow>
   (\<exists>a b c d. xs = [a, b, c, d]
      \<and> (to_ascii_uppercase a = CHR ''C'' \<and> map to_ascii_uppercase [b, c] = ''OM''
         \<or> to_ascii_uppercase a = CHR ''L'' \<and> map to_ascii_uppercase [b, c] = ''PT'')
      \<and> to_ascii_uppercase d \<in> set ''123456789'')"
  (is "?L \<longleftrightarrow> ?R")
proof (cases "length xs = 4")
  case True
  then obtain a b c d where xs: "xs = [a, b, c, d]"
    by (auto simp: length_4_cases)
  show ?thesis
    unfolding nonzero_digit_iff uppercase_nonzero_digit_iff eq_ignore_ascii_case_def
      uppercase_ports xs
    by simp
next
  case False
  then show ?thesis by auto
qed

lemma is_windows_device_name_iff:
  "is_windows_device_name v \<longleftrightarrow>
     map to_ascii_uppercase (takeWhile (\<lambda>c. c \<noteq> CHR ''.'') v) \<in> set device_names"
proof -
  let ?b = "takeWhile (\<lambda>c. c \<noteq> CHR ''.'') v"
  have reserved: "(\<exists>r \<in> set [''CON'', ''PRN'', ''AUX'', ''NUL'']. eq_ignore_ascii_case ?b r)
      \<longleftrightarrow> (\<exists>r \<in> set [''CON'', ''PRN'', ''AUX'', ''NUL'']. map to_ascii_uppercase ?b = r)"
  proof (rule bex_cong [OF refl])
    fix r assume "r \<in> set [''CON'', ''PRN'', ''AUX'', ''NUL'']"
    from uppercase_reserved [OF this]
    show "eq_ignore_ascii_case ?b r \<longleftrightarrow> map to_ascii_uppercase ?b = r"
      unfolding eq_ignore_ascii_case_def by simp
  qed
  show ?thesis
    unfolding is_windows_device_name_def split_on_takeWhile Let_def reserved device_port_iff
      uppercase_device_names [of ?b]
    by simp
qed

section \<open>Facts about paths\<close>

definition path_ok :: "(string \<Rightarrow> string) \<Rightarrow> (string \<Rightarrow> string) \<Rightarrow> LogicalPath \<Rightarrow> bool" where
  "path_ok nfc cf p \<longleftrightarrow>
     (\<forall>c \<in> set (components p). name_ok nfc cf c)
     \<and> validate_path_limits (components p) = Ok ()"

lemma validate_path_limits_Ok:
  "validate_path_limits cs = Ok u \<longleftrightarrow>
     length cs \<le> MAX_PATH_COMPONENTS \<and> absolute_path_len cs \<le> MAX_PATH_BYTES"
  by (simp add: validate_path_limits_def)

lemma from_components_Ok:
  "from_components cs = Ok p \<longleftrightarrow> p = \<lparr>components = cs\<rparr> \<and> validate_path_limits cs = Ok ()"
  by (auto simp: from_components_def result_simps)

lemma fmt_components_Suc:
  "fmt_components (Suc i) cs =
     (if cs = [] then [] else CHR ''/'' # join_with (CHR ''/'') (map display cs))"
proof (induction cs arbitrary: i)
  case (Cons c cs)
  then show ?case by (cases cs) auto
qed simp

lemma fmt_components_join: "fmt_components 0 cs = join_with (CHR ''/'') (map display cs)"
  by (cases cs) (auto simp: fmt_components_Suc neq_Nil_conv)

lemma path_to_string_eq:
  "path_to_string p = CHR ''/'' # join_with (CHR ''/'') (map display (components p))"
  by (simp add: path_to_string_def fmt_components_join)

lemma length_path_to_string: "length (path_to_string p) = display_len_bytes p"
  by (simp add: path_to_string_eq length_join_with display_len_bytes_def absolute_path_len_def
      comp_def)

lemma path_components_no_slash:
  "path_ok nfc cf p \<Longrightarrow> \<forall>d \<in> set (map display (components p)). CHR ''/'' \<notin> set d \<and> d \<noteq> []"
  using name_ok_no_slash by (auto simp: path_ok_def)

lemma collect_enumerate_ok:
  assumes "\<forall>c \<in> set cs. name_ok nfc cf c"
  shows "collect_ok (\<lambda>(index, v). map_err (InvalidComponent index) (normalized_name_new nfc cf v))
           (enumerate n (map display cs)) = Ok cs"
  using assms by (induction cs arbitrary: n) (auto simp: name_ok_new)

lemma collect_enumerate_Ok:
  assumes "collect_ok (\<lambda>(index, v). map_err (InvalidComponent index) (normalized_name_new nfc cf v))
             (enumerate n vs) = Ok cs"
  shows "list_all2 (\<lambda>v c. normalized_name_new nfc cf v = Ok c) vs cs"
  using assms
proof (induction vs arbitrary: n cs)
  case (Cons v vs)
  then obtain c cs' where "cs = c # cs'" "normalized_name_new nfc cf v = Ok c"
    "list_all2 (\<lambda>v c. normalized_name_new nfc cf v = Ok c) vs cs'"
    by (auto simp: and_then_Ok_iff map_ok_Ok_iff map_err_Ok_iff)
  then show ?case by simp
qed (simp add: result_simps)

lemma parent_eq: "parent p = Some q \<longleftrightarrow> components p \<noteq> [] \<and> components q = butlast (components p)"
  by (cases "components p" rule: rev_cases; cases q) (auto simp: parent_def)

lemma absolute_path_len_butlast: "absolute_path_len (butlast cs) \<le> absolute_path_len cs"
  by (cases cs rule: rev_cases) (auto simp: absolute_path_len_def)

lemma path_from_str_root: "path_from_str nfc cf ''/'' = Ok root"
  by (simp add: path_from_str_def strip_prefix_def)

section \<open>Properties\<close>

text \<open>C35: Printing a well-formed logical path and parsing the text back gives the same path:
  the display form with its slashes determines the components, and every component is accepted
  again by \<open>NormalizedName::new\<close>.\<close>

theorem path_print_parse_roundtrip:
  assumes "path_ok nfc cf p"
  shows "path_from_str nfc cf (path_to_string p) = Ok p"
proof (cases "components p = []")
  case True
  then show ?thesis
    by (cases p) (simp add: path_to_string_def path_from_str_root root_def)
next
  case False
  let ?ds = "map display (components p)"
  let ?j = "join_with (CHR ''/'') ?ds"
  have pieces: "split_on (CHR ''/'') ?j = ?ds"
    using path_components_no_slash [OF assms] False by (intro split_join_with) auto
  have "?j \<noteq> []"
    using path_components_no_slash [OF assms] pieces False
    by (metis list.map_disc_iff list.set_intros(1) neq_Nil_conv split_on.simps(1) list.inject)
  moreover have "\<not> list_ex (\<lambda>s. s = []) ?ds"
    using path_components_no_slash [OF assms] by (auto simp: list_ex_iff)
  moreover have "from_components (components p) = Ok p"
    using assms by (cases p) (simp add: from_components_Ok path_ok_def)
  ultimately show ?thesis
    using assms pieces collect_enumerate_ok [of "components p" nfc cf 0]
    by (simp add: path_from_str_def path_to_string_eq strip_prefix_def path_ok_def)
qed

definition sample_path :: LogicalPath where
  "sample_path = \<lparr>components =
     [\<lparr>display = ''docs'', comparison_key = ''DOCS''\<rparr>,
      \<lparr>display = ''a.txt'', comparison_key = ''A.TXT''\<rparr>]\<rparr>"

lemma sample_path_ok: "path_ok id (map to_ascii_uppercase) sample_path"
  by code_simp

theorem path_print_parse_roundtrip_witness:
  "path_from_str id (map to_ascii_uppercase) (path_to_string sample_path) = Ok sample_path"
  by (rule path_print_parse_roundtrip [OF sample_path_ok])

text \<open>C36: Whatever text is parsed, an accepted path is well-formed (every component passed
  validation, at most 128 components) and its canonical display form is at most 4096 bytes long;
  the length is the one \<open>display_len_bytes\<close> computes without building the text. NFC is
  assumed idempotent, as Unicode Standard Annex 15 states.\<close>

theorem path_parse_well_formed:
  assumes "\<forall>s. nfc (nfc s) = nfc s"
    and "path_from_str nfc cf value = Ok p"
  shows "path_ok nfc cf p \<and> length (components p) \<le> 128
    \<and> length (path_to_string p) = display_len_bytes p \<and> display_len_bytes p \<le> 4096"
proof -
  have "path_ok nfc cf p"
  proof (cases "strip_prefix ''/'' value")
    case (Some r)
    show ?thesis
    proof (cases "r = []")
      case True
      with Some assms(2) show ?thesis
        by (auto simp: path_from_str_def root_def path_ok_def validate_path_limits_def
            MAX_PATH_COMPONENTS_def MAX_PATH_BYTES_def absolute_path_len_def)
    next
      case False
      with Some assms(2) obtain cs where cs:
        "collect_ok (\<lambda>(index, v). map_err (InvalidComponent index) (normalized_name_new nfc cf v))
           (enumerate 0 (split_on (CHR ''/'') r)) = Ok cs"
        "from_components cs = Ok p"
        by (auto simp: path_from_str_def and_then_Ok_iff split: if_splits)
      have "\<forall>c \<in> set cs. name_ok nfc cf c"
        using collect_enumerate_Ok [OF cs(1)] assms(1)
        by (fastforce simp: list_all2_conv_all_nth in_set_conv_nth intro: new_name_ok)
      with cs(2) show ?thesis
        by (auto simp: path_ok_def from_components_Ok)
    qed
  qed (use assms(2) in \<open>simp add: path_from_str_def\<close>)
  then show ?thesis
    by (auto simp: length_path_to_string path_ok_def validate_path_limits_Ok display_len_bytes_def
        MAX_PATH_COMPONENTS_def MAX_PATH_BYTES_def)
qed

theorem path_parse_well_formed_witness:
  "path_ok id (map to_ascii_uppercase) sample_path \<and> length (components sample_path) \<le> 128
   \<and> length (path_to_string sample_path) = display_len_bytes sample_path
   \<and> display_len_bytes sample_path \<le> 4096"
proof (rule path_parse_well_formed)
  show "\<forall>s. id (id s) = (id s :: string)"
    by simp
  show "path_from_str id (map to_ascii_uppercase) ''/docs/a.txt'' = Ok sample_path"
    by code_simp
qed

text \<open>C37: Appending a component to a well-formed path either fails on the aggregate limits or
  gives a well-formed path whose parent is the original path and whose file name is the
  component; taking the parent of a well-formed path never leaves the well-formed paths.\<close>

theorem path_join_parent:
  assumes "path_ok nfc cf p" and "name_ok nfc cf c"
  shows "(case join p c of
            Ok q \<Rightarrow> path_ok nfc cf q \<and> parent q = Some p \<and> file_name q = Some c
          | Err e \<Rightarrow> (e = TooManyComponents \<and> length (components p) = MAX_PATH_COMPONENTS)
              \<or> (e = PathError.TooLong \<and> absolute_path_len (components p @ [c]) > MAX_PATH_BYTES))
         \<and> (case parent p of None \<Rightarrow> is_root p | Some q \<Rightarrow> path_ok nfc cf q)"
proof
  show "case join p c of
            Ok q \<Rightarrow> path_ok nfc cf q \<and> parent q = Some p \<and> file_name q = Some c
          | Err e \<Rightarrow> (e = TooManyComponents \<and> length (components p) = MAX_PATH_COMPONENTS)
              \<or> (e = PathError.TooLong \<and> absolute_path_len (components p @ [c]) > MAX_PATH_BYTES)"
    using assms
    by (cases p)
      (auto simp: join_def from_components_def path_ok_def parent_def file_name_def
        validate_path_limits_def split: result.splits if_splits)
  show "case parent p of None \<Rightarrow> is_root p | Some q \<Rightarrow> path_ok nfc cf q"
  proof (cases "parent p")
    case None
    then show ?thesis
      by (auto simp: parent_def is_root_def split: list.splits)
  next
    case (Some q)
    then have "components q = butlast (components p)"
      by (simp add: parent_eq)
    with Some assms(1) absolute_path_len_butlast [of "components p"] show ?thesis
      by (auto simp: path_ok_def validate_path_limits_Ok dest: in_set_butlastD)
  qed
qed

theorem path_join_parent_witness:
  "join sample_path \<lparr>display = ''b'', comparison_key = ''B''\<rparr> =
     Ok \<lparr>components = components sample_path @ [\<lparr>display = ''b'', comparison_key = ''B''\<rparr>]\<rparr>
   \<and> parent \<lparr>components = components sample_path @ [\<lparr>display = ''b'', comparison_key = ''B''\<rparr>]\<rparr>
       = Some sample_path"
proof -
  have name: "name_ok id (map to_ascii_uppercase) \<lparr>display = ''b'', comparison_key = ''B''\<rparr>"
    by code_simp
  have joined: "join sample_path \<lparr>display = ''b'', comparison_key = ''B''\<rparr> =
     Ok \<lparr>components = components sample_path @ [\<lparr>display = ''b'', comparison_key = ''B''\<rparr>]\<rparr>"
    by code_simp
  show ?thesis
    using path_join_parent [OF sample_path_ok name] joined by simp
qed

text \<open>C38: An accepted name is safe to use as one path component everywhere it is stored or
  mounted: it is not empty, not \<open>.\<close> or \<open>..\<close>, has no separator, no control
  byte and none of the characters Windows reserves, does not end in a space or a dot, fits 255
  bytes, and normalizing it again changes neither its display form nor its collision key.\<close>

theorem normalized_name_safe:
  assumes "\<forall>s. nfc (nfc s) = nfc s"
    and "normalized_name_new nfc cf value = Ok n"
  shows "display n \<notin> {[], ''.'', ''..''}
    \<and> (\<forall>c \<in> set (display n). c \<notin> set ''/<>:|?*'' \<and> c \<noteq> CHR 0x5C \<and> c \<noteq> CHR 0x22
         \<and> 32 \<le> byte c \<and> byte c \<noteq> 127)
    \<and> last (display n) \<notin> set '' .'' \<and> length (display n) \<le> 255
    \<and> normalized_name_new nfc cf (display n) = Ok n"
proof -
  have ok: "name_ok nfc cf n"
    using assms by (auto intro: new_name_ok)
  then have valid: "validate_display_name (display n) = Ok ()"
    by (simp add: name_ok_def)
  have "last (display n) \<notin> set '' .''"
    using valid
    by (cases "display n" rule: rev_cases)
      (auto simp: validate_display_name_Ok ends_with_space_or_dot_def)
  moreover have "\<forall>c \<in> set (display n). \<not> is_forbidden_name_character c"
    using valid by (simp add: validate_display_name_Ok list_ex_iff)
  ultimately show ?thesis
    using valid name_ok_new [OF ok]
    by (auto simp: validate_display_name_Ok MAX_NAME_BYTES_def is_forbidden_name_character_def
        is_ascii_control_def not_less)
qed

theorem normalized_name_safe_witness:
  "''report.txt'' \<notin> {[], ''.'', ''..''}
   \<and> normalized_name_new id (map to_ascii_uppercase) ''report.txt''
       = Ok \<lparr>display = ''report.txt'', comparison_key = ''REPORT.TXT''\<rparr>"
proof -
  have "\<forall>s. id (id s) = (id s :: string)"
    by simp
  moreover have "normalized_name_new id (map to_ascii_uppercase) ''report.txt''
       = Ok \<lparr>display = ''report.txt'', comparison_key = ''REPORT.TXT''\<rparr>"
    by code_simp
  ultimately show ?thesis
    using normalized_name_safe [of id "map to_ascii_uppercase" "''report.txt''"] by auto
qed

text \<open>The reserved-device check decides exactly membership in the table of the 22 Windows
  device names, whatever the ASCII case of the name and whatever extension follows the first
  dot.\<close>

theorem windows_device_name_table:
  "is_windows_device_name v \<longleftrightarrow>
     map to_ascii_uppercase (takeWhile (\<lambda>c. c \<noteq> CHR ''.'') v) \<in> set device_names"
  by (rule is_windows_device_name_iff)

end
