(* ===== verification/Lifecycle.thy ===== *)
theory Lifecycle
  imports Belt_Prelude
begin

text \<open>
  The lifecycle state machines of \<open>filebelt-domain\<close> (the macro \<open>define_state!\<close> and
  its five uses): the states of nodes, uploads, payloads, file versions and jobs, with the
  transitions the authoritative state permits. The locale \<open>lifecycle\<close> states the contract of
  such a machine with a region it never leaves; \<open>ranked_lifecycle\<close> the contract of one that
  runs out of transitions. Both are interpreted on the machines of the code.
\<close>

section \<open>Contracts\<close>

locale lifecycle =
  fixes can_transition :: "'s \<Rightarrow> 's \<Rightarrow> bool"
    and sealed :: "'s \<Rightarrow> bool"
  assumes sealed_step: "sealed s \<Longrightarrow> can_transition s t \<Longrightarrow> sealed t"
begin

lemma sealed_reachable: "can_transition\<^sup>*\<^sup>* s t \<Longrightarrow> sealed s \<Longrightarrow> sealed t"
  by (induction rule: rtranclp_induct) (auto intro: sealed_step)

end

locale ranked_lifecycle =
  fixes can_transition :: "'s \<Rightarrow> 's \<Rightarrow> bool"
    and rank :: "'s \<Rightarrow> nat"
    and top :: nat
  assumes rank_step: "can_transition s t \<Longrightarrow> rank s < rank t"
    and rank_top: "rank s \<le> top"
begin

lemma rank_relpowp: "(can_transition ^^ n) s t \<Longrightarrow> rank s + n \<le> rank t"
proof (induction n arbitrary: t)
  case (Suc n)
  then obtain u where "(can_transition ^^ n) s u" "can_transition u t"
    by auto
  with Suc.IH [of u] rank_step [of u t] show ?case
    by linarith
qed auto

lemma run_bounded: "(can_transition ^^ n) s t \<Longrightarrow> n \<le> top - rank s"
  using rank_relpowp rank_top [of t] by fastforce

lemma no_cycle: "\<not> can_transition\<^sup>+\<^sup>+ s s"
proof
  assume "can_transition\<^sup>+\<^sup>+ s s"
  then obtain n where "n > 0" "(can_transition ^^ n) s s"
    by (auto simp: tranclp_power)
  with rank_relpowp [of n s s] show False by simp
qed

end

section \<open>The machines\<close>

datatype NodeState = Active | Trashed | PurgePending | Purged

fun node_can_transition_to :: "NodeState \<Rightarrow> NodeState \<Rightarrow> bool" where
  "node_can_transition_to Active target \<longleftrightarrow> target = Trashed"
| "node_can_transition_to Trashed target \<longleftrightarrow> target = Active \<or> target = PurgePending"
| "node_can_transition_to PurgePending target \<longleftrightarrow> target = Purged"
| "node_can_transition_to Purged target \<longleftrightarrow> False"

datatype UploadState =
  Created | Receiving | Finalizing | Finalized | Committed | Aborted | Expired

fun upload_can_transition_to :: "UploadState \<Rightarrow> UploadState \<Rightarrow> bool" where
  "upload_can_transition_to Created target \<longleftrightarrow>
     target = Receiving \<or> target = Aborted \<or> target = Expired"
| "upload_can_transition_to Receiving target \<longleftrightarrow>
     target = Finalizing \<or> target = Aborted \<or> target = Expired"
| "upload_can_transition_to Finalizing target \<longleftrightarrow> target = Finalized \<or> target = Aborted"
| "upload_can_transition_to Finalized target \<longleftrightarrow> target = Committed \<or> target = Aborted"
| "upload_can_transition_to Committed target \<longleftrightarrow> False"
| "upload_can_transition_to Aborted target \<longleftrightarrow> False"
| "upload_can_transition_to Expired target \<longleftrightarrow> False"

datatype PayloadState =
  Staged | Finalized | Referenced | DeletionPending | Quarantined | Deleted

fun payload_can_transition_to :: "PayloadState \<Rightarrow> PayloadState \<Rightarrow> bool" where
  "payload_can_transition_to Staged target \<longleftrightarrow>
     target = PayloadState.Finalized \<or> target = DeletionPending \<or> target = Quarantined"
| "payload_can_transition_to PayloadState.Finalized target \<longleftrightarrow>
     target = Referenced \<or> target = DeletionPending \<or> target = Quarantined"
| "payload_can_transition_to Referenced target \<longleftrightarrow>
     target = DeletionPending \<or> target = Quarantined"
| "payload_can_transition_to DeletionPending target \<longleftrightarrow>
     target = Deleted \<or> target = Quarantined"
| "payload_can_transition_to Quarantined target \<longleftrightarrow> target = DeletionPending"
| "payload_can_transition_to Deleted target \<longleftrightarrow> False"

datatype FileVersionState = Staging | Committed | Aborted

fun file_version_can_transition_to :: "FileVersionState \<Rightarrow> FileVersionState \<Rightarrow> bool" where
  "file_version_can_transition_to Staging target \<longleftrightarrow>
     target = FileVersionState.Committed \<or> target = FileVersionState.Aborted"
| "file_version_can_transition_to FileVersionState.Committed target \<longleftrightarrow> False"
| "file_version_can_transition_to FileVersionState.Aborted target \<longleftrightarrow> False"

datatype JobState = Pending | Running | Retryable | OperatorBlocked | Succeeded

fun job_can_transition_to :: "JobState \<Rightarrow> JobState \<Rightarrow> bool" where
  "job_can_transition_to Pending target \<longleftrightarrow> target = Running"
| "job_can_transition_to Running target \<longleftrightarrow>
     target = Succeeded \<or> target = Retryable \<or> target = OperatorBlocked"
| "job_can_transition_to Retryable target \<longleftrightarrow> target = Running \<or> target = OperatorBlocked"
| "job_can_transition_to OperatorBlocked target \<longleftrightarrow> target = Pending"
| "job_can_transition_to Succeeded target \<longleftrightarrow> False"

section \<open>The contracts hold\<close>

definition purge_begun :: "NodeState \<Rightarrow> bool" where
  "purge_begun s \<longleftrightarrow> s = PurgePending \<or> s = Purged"

definition payload_retiring :: "PayloadState \<Rightarrow> bool" where
  "payload_retiring s \<longleftrightarrow> s = DeletionPending \<or> s = Quarantined \<or> s = Deleted"

interpretation node_purge: lifecycle node_can_transition_to purge_begun
proof
  fix s t show "purge_begun s \<Longrightarrow> node_can_transition_to s t \<Longrightarrow> purge_begun t"
    by (cases s) (auto simp: purge_begun_def)
qed

interpretation payload_retire: lifecycle payload_can_transition_to payload_retiring
proof
  fix s t show "payload_retiring s \<Longrightarrow> payload_can_transition_to s t \<Longrightarrow> payload_retiring t"
    by (cases s) (auto simp: payload_retiring_def)
qed

interpretation job_done: lifecycle job_can_transition_to "\<lambda>s. s = Succeeded"
  by unfold_locales auto

primrec upload_rank :: "UploadState \<Rightarrow> nat" where
  "upload_rank Created = 0"
| "upload_rank Receiving = 1"
| "upload_rank Finalizing = 2"
| "upload_rank UploadState.Finalized = 3"
| "upload_rank UploadState.Committed = 4"
| "upload_rank UploadState.Aborted = 4"
| "upload_rank Expired = 4"

primrec file_version_rank :: "FileVersionState \<Rightarrow> nat" where
  "file_version_rank Staging = 0"
| "file_version_rank FileVersionState.Committed = 1"
| "file_version_rank FileVersionState.Aborted = 1"

interpretation upload: ranked_lifecycle upload_can_transition_to upload_rank 4
proof
  fix s t show "upload_can_transition_to s t \<Longrightarrow> upload_rank s < upload_rank t"
    by (cases s) auto
next
  fix s show "upload_rank s \<le> 4"
    by (cases s) auto
qed

interpretation file_version: ranked_lifecycle file_version_can_transition_to file_version_rank 1
proof
  fix s t show "file_version_can_transition_to s t \<Longrightarrow> file_version_rank s < file_version_rank t"
    by (cases s) auto
next
  fix s show "file_version_rank s \<le> 1"
    by (cases s) auto
qed

lemma upload_progress_step:
  "upload_can_transition_to s t \<Longrightarrow> t \<noteq> UploadState.Aborted \<Longrightarrow> t \<noteq> Expired \<Longrightarrow>
     upload_rank t = Suc (upload_rank s) \<and> s \<noteq> UploadState.Aborted \<and> s \<noteq> Expired"
  by (cases s) auto

lemma upload_progress:
  "(upload_can_transition_to ^^ n) s t \<Longrightarrow> t \<noteq> UploadState.Aborted \<Longrightarrow> t \<noteq> Expired \<Longrightarrow>
     upload_rank t = upload_rank s + n"
proof (induction n arbitrary: t)
  case (Suc n)
  then obtain u where "(upload_can_transition_to ^^ n) s u" "upload_can_transition_to u t"
    by auto
  with Suc upload_progress_step [of u t] show ?case
    by auto
qed simp

lemma upload_commit_run: "(upload_can_transition_to ^^ 4) Created UploadState.Committed"
proof -
  have "upload_can_transition_to Created Receiving" "upload_can_transition_to Receiving Finalizing"
    "upload_can_transition_to Finalizing UploadState.Finalized"
    "upload_can_transition_to UploadState.Finalized UploadState.Committed"
    by simp_all
  then show ?thesis
    by (auto simp: numeral_eq_Suc relcompp_apply simp del: upload_can_transition_to.simps)
qed

section \<open>Properties\<close>

text \<open>Once the purge of a node has begun, no sequence of permitted transitions makes the
  node active or restorable again.\<close>

theorem node_purge_irreversible:
  assumes "node_can_transition_to\<^sup>*\<^sup>* PurgePending t"
  shows "t \<noteq> Active \<and> t \<noteq> Trashed"
  using node_purge.sealed_reachable [OF assms] by (auto simp: purge_begun_def)

theorem node_purge_irreversible_witness:
  "node_can_transition_to\<^sup>*\<^sup>* PurgePending Purged \<and> Purged \<noteq> Active \<and> Purged \<noteq> Trashed"
proof -
  have "node_can_transition_to\<^sup>*\<^sup>* PurgePending Purged"
    by (rule r_into_rtranclp) simp
  then show ?thesis
    using node_purge_irreversible by blast
qed

text \<open>A payload whose deletion is pending, or which is quarantined or deleted, is never
  served again: no sequence of transitions makes it staged, finalized or referenced, and only a
  payload whose deletion is pending becomes deleted.\<close>

theorem payload_retirement_irreversible:
  assumes "payload_retiring s" and "payload_can_transition_to\<^sup>*\<^sup>* s t"
  shows "t \<notin> {Staged, PayloadState.Finalized, Referenced}
    \<and> (payload_can_transition_to t Deleted \<longleftrightarrow> t = DeletionPending)"
  using payload_retire.sealed_reachable [OF assms(2,1)]
  by (cases t) (auto simp: payload_retiring_def)

theorem payload_retirement_irreversible_witness:
  "payload_retiring DeletionPending \<and> payload_can_transition_to\<^sup>*\<^sup>* DeletionPending Quarantined
   \<and> \<not> payload_can_transition_to Quarantined Deleted"
proof -
  have 1: "payload_retiring DeletionPending"
    by (simp add: payload_retiring_def)
  have 2: "payload_can_transition_to\<^sup>*\<^sup>* DeletionPending Quarantined"
    by (rule r_into_rtranclp) simp
  show ?thesis
    using 1 2 payload_retirement_irreversible [OF 1 2] by simp
qed



end
