(* ===== verification/Repository_Rules.thy ===== *)
theory Repository_Rules
  imports Belt_Prelude "HOL-Library.FSet"
begin

text \<open>
  Layered protection of directory-repository refs
  (\<open>source/crates/filebelt-authz/src/repository.rs\<close>): the requirements of rulesets, their
  combination, and the evaluation of the evidence for one proposed ref mutation into the sorted
  list of failures. A \<open>BTreeSet\<close> is a finite set iterated in ascending order.
\<close>

section \<open>Requirements and evidence\<close>

datatype RefMutation = Create | Update | Delete

datatype VerifiedSigner = AuthenticatedActor | FileBeltService | OtherRegistered

datatype RequiredSigner =
  AnyVerified | RequiredSigner_AuthenticatedActor | RequiredSigner_FileBeltService

primrec required_signer_index :: "RequiredSigner \<Rightarrow> nat" where
  "required_signer_index AnyVerified = 0"
| "required_signer_index RequiredSigner_AuthenticatedActor = 1"
| "required_signer_index RequiredSigner_FileBeltService = 2"

lemma required_signer_index_inject [simp]:
  "required_signer_index a = required_signer_index b \<longleftrightarrow> a = b"
  by (cases a; cases b) simp_all

instantiation RequiredSigner :: linorder
begin

definition less_eq_RequiredSigner :: "RequiredSigner \<Rightarrow> RequiredSigner \<Rightarrow> bool" where
  "a \<le> b \<longleftrightarrow> required_signer_index a \<le> required_signer_index b"

definition less_RequiredSigner :: "RequiredSigner \<Rightarrow> RequiredSigner \<Rightarrow> bool" where
  "a < b \<longleftrightarrow> required_signer_index a < required_signer_index b"

instance
  by standard (auto simp: less_eq_RequiredSigner_def less_RequiredSigner_def)

end

record RepositoryRuleRequirements =
  deny_create :: bool
  deny_update :: bool
  deny_delete :: bool
  require_fast_forward :: bool
  require_linear_history :: bool
  require_pull_request :: bool
  minimum_approvals :: u16
  require_last_push_approval :: bool
  required_signers :: "RequiredSigner fset"
  required_status_checks :: "string fset"
  required_deployments :: "string fset"

definition default_requirements :: RepositoryRuleRequirements where
  "default_requirements =
     \<lparr>deny_create = False, deny_update = False, deny_delete = False,
      require_fast_forward = False, require_linear_history = False,
      require_pull_request = False, minimum_approvals = 0,
      require_last_push_approval = False, required_signers = {||},
      required_status_checks = {||}, required_deployments = {||}\<rparr>"

definition safe_writable_main :: RepositoryRuleRequirements where
  "safe_writable_main =
     default_requirements\<lparr>deny_delete := True, require_fast_forward := True,
       required_signers := {|AnyVerified|}\<rparr>"

definition require_rules ::
  "RepositoryRuleRequirements \<Rightarrow> RepositoryRuleRequirements \<Rightarrow> RepositoryRuleRequirements" where
  "require_rules self other =
     \<lparr>deny_create = (deny_create self \<or> deny_create other),
      deny_update = (deny_update self \<or> deny_update other),
      deny_delete = (deny_delete self \<or> deny_delete other),
      require_fast_forward = (require_fast_forward self \<or> require_fast_forward other),
      require_linear_history = (require_linear_history self \<or> require_linear_history other),
      require_pull_request = (require_pull_request self \<or> require_pull_request other),
      minimum_approvals = max (minimum_approvals self) (minimum_approvals other),
      require_last_push_approval =
        (require_last_push_approval self \<or> require_last_push_approval other),
      required_signers = required_signers self |\<union>| required_signers other,
      required_status_checks = required_status_checks self |\<union>| required_status_checks other,
      required_deployments = required_deployments self |\<union>| required_deployments other\<rparr>"

record RepositoryAdmissionEvidence =
  mutation :: RefMutation
  fast_forward :: bool
  linear_history :: bool
  signer :: "VerifiedSigner option"
  pull_request :: bool
  approvals :: u16
  last_push_approved :: bool
  successful_status_checks :: "string fset"
  successful_deployments :: "string fset"
  validated_bypass :: bool

section \<open>Failures\<close>

datatype RepositoryAdmissionFailure =
    CreationDenied
  | UpdateDenied
  | DeletionDenied
  | NonFastForward
  | NonLinearHistory
  | PullRequestRequired
  | ApprovalsRequired u16 u16
  | LastPushApprovalRequired
  | VerifiedSignatureRequired
  | AuthenticatedActorSignatureRequired
  | FileBeltServiceSignatureRequired
  | StatusCheckRequired string
  | DeploymentRequired string

text \<open>The derived order compares the variants first, then their fields.\<close>

primrec failure_key :: "RepositoryAdmissionFailure \<Rightarrow> nat \<times> u16 \<times> u16 \<times> string" where
  "failure_key CreationDenied = (0, 0, 0, [])"
| "failure_key UpdateDenied = (1, 0, 0, [])"
| "failure_key DeletionDenied = (2, 0, 0, [])"
| "failure_key NonFastForward = (3, 0, 0, [])"
| "failure_key NonLinearHistory = (4, 0, 0, [])"
| "failure_key PullRequestRequired = (5, 0, 0, [])"
| "failure_key (ApprovalsRequired required actual) = (6, required, actual, [])"
| "failure_key LastPushApprovalRequired = (7, 0, 0, [])"
| "failure_key VerifiedSignatureRequired = (8, 0, 0, [])"
| "failure_key AuthenticatedActorSignatureRequired = (9, 0, 0, [])"
| "failure_key FileBeltServiceSignatureRequired = (10, 0, 0, [])"
| "failure_key (StatusCheckRequired context) = (11, 0, 0, context)"
| "failure_key (DeploymentRequired environment) = (12, 0, 0, environment)"

lemma failure_key_inject [simp]: "failure_key a = failure_key b \<longleftrightarrow> a = b"
  by (cases a; cases b) simp_all

instantiation RepositoryAdmissionFailure :: linorder
begin

definition less_eq_RepositoryAdmissionFailure ::
  "RepositoryAdmissionFailure \<Rightarrow> RepositoryAdmissionFailure \<Rightarrow> bool" where
  "a \<le> b \<longleftrightarrow> failure_key a \<le> failure_key b"

definition less_RepositoryAdmissionFailure ::
  "RepositoryAdmissionFailure \<Rightarrow> RepositoryAdmissionFailure \<Rightarrow> bool" where
  "a < b \<longleftrightarrow> failure_key a < failure_key b"

instance
proof
  fix a b :: RepositoryAdmissionFailure
  show "a < b \<longleftrightarrow> a \<le> b \<and> \<not> b \<le> a"
    unfolding less_eq_RepositoryAdmissionFailure_def less_RepositoryAdmissionFailure_def
    by (rule less_le_not_le)
  show "a \<le> b \<Longrightarrow> b \<le> a \<Longrightarrow> a = b"
    unfolding less_eq_RepositoryAdmissionFailure_def by (drule (1) order_antisym) simp
qed (auto simp: less_eq_RepositoryAdmissionFailure_def)

end

section \<open>Evaluation\<close>

definition for_each :: "('a::linorder \<Rightarrow> 's \<Rightarrow> 's) \<Rightarrow> 'a fset \<Rightarrow> 's \<Rightarrow> 's" where
  "for_each f S = fold f (sorted_list_of_fset S)"

definition insert_if :: "bool \<Rightarrow> 'a \<Rightarrow> 'a fset \<Rightarrow> 'a fset" where
  "insert_if c x S = (if c then finsert x S else S)"

definition mutation_failures ::
  "RepositoryRuleRequirements \<Rightarrow> RefMutation \<Rightarrow> RepositoryAdmissionFailure fset" where
  "mutation_failures requirements m =
     (case m of
        Create \<Rightarrow> if deny_create requirements then {|CreationDenied|} else {||}
      | Update \<Rightarrow> if deny_update requirements then {|UpdateDenied|} else {||}
      | Delete \<Rightarrow> if deny_delete requirements then {|DeletionDenied|} else {||})"

primrec signer_satisfied :: "VerifiedSigner option \<Rightarrow> RequiredSigner \<Rightarrow> bool" where
  "signer_satisfied s AnyVerified \<longleftrightarrow> s \<noteq> None"
| "signer_satisfied s RequiredSigner_AuthenticatedActor \<longleftrightarrow> s = Some AuthenticatedActor"
| "signer_satisfied s RequiredSigner_FileBeltService \<longleftrightarrow> s = Some FileBeltService"

primrec signer_failure :: "RequiredSigner \<Rightarrow> RepositoryAdmissionFailure" where
  "signer_failure AnyVerified = VerifiedSignatureRequired"
| "signer_failure RequiredSigner_AuthenticatedActor = AuthenticatedActorSignatureRequired"
| "signer_failure RequiredSigner_FileBeltService = FileBeltServiceSignatureRequired"

definition evaluate_repository_admission ::
  "RepositoryRuleRequirements \<Rightarrow> RepositoryAdmissionEvidence \<Rightarrow> RepositoryAdmissionFailure list"
  where
  "evaluate_repository_admission requirements evidence =
     (if validated_bypass evidence then []
      else
        let failures = mutation_failures requirements (mutation evidence);
            failures = insert_if
              (require_fast_forward requirements \<and> mutation evidence = Update
                 \<and> \<not> fast_forward evidence) NonFastForward failures;
            failures = insert_if
              (require_linear_history requirements \<and> \<not> linear_history evidence)
              NonLinearHistory failures;
            failures = insert_if
              (require_pull_request requirements \<and> \<not> pull_request evidence)
              PullRequestRequired failures;
            failures = insert_if
              (approvals evidence < minimum_approvals requirements)
              (ApprovalsRequired (minimum_approvals requirements) (approvals evidence)) failures;
            failures = insert_if
              (require_last_push_approval requirements \<and> \<not> last_push_approved evidence)
              LastPushApprovalRequired failures;
            failures = for_each
              (\<lambda>required. insert_if (\<not> signer_satisfied (signer evidence) required)
                 (signer_failure required)) (required_signers requirements) failures;
            failures = for_each (\<lambda>context. finsert (StatusCheckRequired context))
              (required_status_checks requirements |-| successful_status_checks evidence) failures;
            failures = for_each (\<lambda>environment. finsert (DeploymentRequired environment))
              (required_deployments requirements |-| successful_deployments evidence) failures in
        sorted_list_of_fset failures)"

section \<open>What is required\<close>

fun violates ::
  "RepositoryRuleRequirements \<Rightarrow> RepositoryAdmissionEvidence \<Rightarrow> RepositoryAdmissionFailure \<Rightarrow> bool"
  where
  "violates r e CreationDenied \<longleftrightarrow> deny_create r \<and> mutation e = Create"
| "violates r e UpdateDenied \<longleftrightarrow> deny_update r \<and> mutation e = Update"
| "violates r e DeletionDenied \<longleftrightarrow> deny_delete r \<and> mutation e = Delete"
| "violates r e NonFastForward \<longleftrightarrow>
     require_fast_forward r \<and> mutation e = Update \<and> \<not> fast_forward e"
| "violates r e NonLinearHistory \<longleftrightarrow> require_linear_history r \<and> \<not> linear_history e"
| "violates r e PullRequestRequired \<longleftrightarrow> require_pull_request r \<and> \<not> pull_request e"
| "violates r e (ApprovalsRequired required actual) \<longleftrightarrow>
     required = minimum_approvals r \<and> actual = approvals e \<and> actual < required"
| "violates r e LastPushApprovalRequired \<longleftrightarrow>
     require_last_push_approval r \<and> \<not> last_push_approved e"
| "violates r e VerifiedSignatureRequired \<longleftrightarrow>
     AnyVerified |\<in>| required_signers r \<and> signer e = None"
| "violates r e AuthenticatedActorSignatureRequired \<longleftrightarrow>
     RequiredSigner_AuthenticatedActor |\<in>| required_signers r
     \<and> signer e \<noteq> Some AuthenticatedActor"
| "violates r e FileBeltServiceSignatureRequired \<longleftrightarrow>
     RequiredSigner_FileBeltService |\<in>| required_signers r \<and> signer e \<noteq> Some FileBeltService"
| "violates r e (StatusCheckRequired context) \<longleftrightarrow>
     context |\<in>| required_status_checks r \<and> context |\<notin>| successful_status_checks e"
| "violates r e (DeploymentRequired environment) \<longleftrightarrow>
     environment |\<in>| required_deployments r \<and> environment |\<notin>| successful_deployments e"

lemma insert_if_iff [simp]: "x |\<in>| insert_if c y S \<longleftrightarrow> c \<and> x = y \<or> x |\<in>| S"
  by (simp add: insert_if_def)

lemma insert_if_True: "insert_if True = finsert"
  by (intro ext) (simp add: insert_if_def)

lemma signer_failure_iff [simp]:
  "VerifiedSignatureRequired = signer_failure a \<longleftrightarrow> a = AnyVerified"
  "AuthenticatedActorSignatureRequired = signer_failure a \<longleftrightarrow> a = RequiredSigner_AuthenticatedActor"
  "FileBeltServiceSignatureRequired = signer_failure a \<longleftrightarrow> a = RequiredSigner_FileBeltService"
  "CreationDenied \<noteq> signer_failure a"
  "UpdateDenied \<noteq> signer_failure a"
  "DeletionDenied \<noteq> signer_failure a"
  "NonFastForward \<noteq> signer_failure a"
  "NonLinearHistory \<noteq> signer_failure a"
  "PullRequestRequired \<noteq> signer_failure a"
  "ApprovalsRequired x y \<noteq> signer_failure a"
  "LastPushApprovalRequired \<noteq> signer_failure a"
  "StatusCheckRequired s \<noteq> signer_failure a"
  "DeploymentRequired s \<noteq> signer_failure a"
  by (cases a; simp)+

lemma fold_insert_if:
  "x |\<in>| fold (\<lambda>a. insert_if (P a) (f a)) as S \<longleftrightarrow> (\<exists>a \<in> set as. P a \<and> x = f a) \<or> x |\<in>| S"
  by (induction as arbitrary: S) auto

lemma for_each_insert_if [simp]:
  "x |\<in>| for_each (\<lambda>a. insert_if (P a) (f a)) A S \<longleftrightarrow> (\<exists>a. a |\<in>| A \<and> P a \<and> x = f a) \<or> x |\<in>| S"
  by (auto simp: for_each_def fold_insert_if sorted_list_of_fset.rep_eq)

lemma for_each_finsert [simp]:
  "x |\<in>| for_each (\<lambda>a. finsert (f a)) A S \<longleftrightarrow> (\<exists>a. a |\<in>| A \<and> x = f a) \<or> x |\<in>| S"
  using for_each_insert_if [of x "\<lambda>_. True" f A S] by (simp add: insert_if_True)

lemma evaluate_repository_admission_set:
  "f \<in> set (evaluate_repository_admission r e) \<longleftrightarrow> \<not> validated_bypass e \<and> violates r e f"
  by (cases f; cases "mutation e")
    (auto simp: evaluate_repository_admission_def Let_def mutation_failures_def
      sorted_list_of_fset.rep_eq)

lemma evaluate_repository_admission_eq:
  "evaluate_repository_admission r e =
     (if validated_bypass e then [] else sorted_list_of_set {f. violates r e f})"
proof (cases "validated_bypass e")
  case False
  let ?xs = "evaluate_repository_admission r e"
  have "sorted ?xs" "distinct ?xs"
    using False
    by (simp_all add: evaluate_repository_admission_def Let_def sorted_list_of_fset.rep_eq)
  then have "?xs = sorted_list_of_set (set ?xs)"
    by (simp add: sorted_list_of_set.idem_if_sorted_distinct)
  moreover have "set ?xs = {f. violates r e f}"
    using False by (auto simp: evaluate_repository_admission_set)
  ultimately show ?thesis using False by simp
qed (simp add: evaluate_repository_admission_def)

definition admits :: "RepositoryRuleRequirements \<Rightarrow> RepositoryAdmissionEvidence \<Rightarrow> bool" where
  "admits r e \<longleftrightarrow> evaluate_repository_admission r e = []"

lemma admits_iff: "admits r e \<longleftrightarrow> validated_bypass e \<or> (\<forall>f. \<not> violates r e f)"
proof -
  have "admits r e \<longleftrightarrow> (\<forall>f. f \<notin> set (evaluate_repository_admission r e))"
    by (auto simp: admits_def)
  then show ?thesis
    unfolding evaluate_repository_admission_set by blast
qed

section \<open>Layers\<close>

text \<open>The contract of most-restrictive-wins layering: combining admits what both layers admit, and
  the combination is a semilattice with the unrestricted ruleset as its neutral element.\<close>

locale layered_rules =
  fixes combine :: "'r \<Rightarrow> 'r \<Rightarrow> 'r" and neutral :: 'r and admitted :: "'r \<Rightarrow> 'e \<Rightarrow> bool"
  assumes combine_assoc: "combine (combine a b) c = combine a (combine b c)"
    and combine_commute: "combine a b = combine b a"
    and combine_idem: "combine a a = a"
    and combine_neutral: "combine neutral a = a"
    and admitted_combine: "admitted (combine a b) e \<longleftrightarrow> admitted a e \<and> admitted b e"
begin

definition layers :: "'r list \<Rightarrow> 'r" where
  "layers rs = fold (\<lambda>r acc. combine acc r) rs neutral"

lemma fold_combine: "fold (\<lambda>r acc. combine acc r) rs a = combine a (layers rs)"
proof (induction rs arbitrary: a)
  case Nil
  show ?case by (simp add: layers_def combine_neutral combine_commute [of a])
next
  case (Cons r rs)
  have "layers (r # rs) = combine r (layers rs)"
    using Cons.IH [of "combine neutral r"] by (simp add: layers_def combine_neutral)
  then show ?case using Cons.IH [of "combine a r"] by (simp add: combine_assoc)
qed

lemma layers_Cons: "layers (r # rs) = combine r (layers rs)"
  using fold_combine [of rs r] by (simp add: layers_def combine_neutral)

lemma layers_member: "r \<in> set rs \<Longrightarrow> combine r (layers rs) = layers rs"
proof (induction rs)
  case (Cons x rs)
  then consider "r = x" | "combine r (layers rs) = layers rs"
    by auto
  then show ?case
  proof cases
    case 1
    then show ?thesis by (simp add: layers_Cons combine_assoc [symmetric] combine_idem)
  next
    case 2
    then show ?thesis by (metis layers_Cons combine_assoc combine_commute)
  qed
qed simp

lemma layers_subset: "set rs \<subseteq> set rs' \<Longrightarrow> combine (layers rs) (layers rs') = layers rs'"
proof (induction rs)
  case Nil
  show ?case by (simp add: layers_def combine_neutral)
next
  case (Cons r rs)
  then show ?case by (simp add: layers_Cons combine_assoc layers_member)
qed

lemma layers_set_eq: "set rs = set rs' \<Longrightarrow> layers rs = layers rs'"
  using layers_subset [of rs rs'] layers_subset [of rs' rs] combine_commute by simp

lemma admitted_layers: "admitted (layers rs) e \<longleftrightarrow> admitted neutral e \<and> (\<forall>r \<in> set rs. admitted r e)"
proof (induction rs)
  case Nil
  show ?case by (simp add: layers_def)
next
  case (Cons r rs)
  then show ?case by (auto simp: layers_Cons admitted_combine)
qed

end

definition satisfies :: "RepositoryRuleRequirements \<Rightarrow> RepositoryAdmissionEvidence \<Rightarrow> bool" where
  "satisfies r e \<longleftrightarrow>
     (deny_create r \<longrightarrow> mutation e \<noteq> Create) \<and> (deny_update r \<longrightarrow> mutation e \<noteq> Update)
     \<and> (deny_delete r \<longrightarrow> mutation e \<noteq> Delete)
     \<and> (require_fast_forward r \<and> mutation e = Update \<longrightarrow> fast_forward e)
     \<and> (require_linear_history r \<longrightarrow> linear_history e)
     \<and> (require_pull_request r \<longrightarrow> pull_request e)
     \<and> minimum_approvals r \<le> approvals e
     \<and> (require_last_push_approval r \<longrightarrow> last_push_approved e)
     \<and> (\<forall>s. s |\<in>| required_signers r \<longrightarrow> signer_satisfied (signer e) s)
     \<and> required_status_checks r |\<subseteq>| successful_status_checks e
     \<and> required_deployments r |\<subseteq>| successful_deployments e"

lemma signer_cases:
  "(\<forall>s. P s) \<longleftrightarrow> P AnyVerified \<and> P RequiredSigner_AuthenticatedActor \<and> P RequiredSigner_FileBeltService"
  by (metis RequiredSigner.exhaust)

lemma failure_cases:
  "(\<forall>f. P f) \<longleftrightarrow>
     P CreationDenied \<and> P UpdateDenied \<and> P DeletionDenied \<and> P NonFastForward \<and> P NonLinearHistory
     \<and> P PullRequestRequired \<and> (\<forall>required actual. P (ApprovalsRequired required actual))
     \<and> P LastPushApprovalRequired
     \<and> (P VerifiedSignatureRequired \<and> P AuthenticatedActorSignatureRequired
        \<and> P FileBeltServiceSignatureRequired)
     \<and> (\<forall>c. P (StatusCheckRequired c)) \<and> (\<forall>c. P (DeploymentRequired c))"
  (is "?l \<longleftrightarrow> ?r")
proof
  assume ?r
  then show ?l
    by (intro allI) (rule RepositoryAdmissionFailure.induct; blast)
qed blast

lemma violates_none_iff: "(\<forall>f. \<not> violates r e f) \<longleftrightarrow> satisfies r e"
proof -
  have approvals: "(\<forall>required actual. \<not> (required = m \<and> actual = n \<and> actual < required)) \<longleftrightarrow> m \<le> n"
    for m n :: u16
    by (auto simp: not_less)
  have subset: "(\<forall>c. \<not> (c |\<in>| A \<and> c |\<notin>| B)) \<longleftrightarrow> A |\<subseteq>| B" for A B :: "string fset"
    by auto
  show ?thesis
    unfolding failure_cases violates.simps satisfies_def signer_cases signer_satisfied.simps
      approvals subset
    by argo
qed

lemma satisfies_require: "satisfies (require_rules a b) e \<longleftrightarrow> satisfies a e \<and> satisfies b e"
proof -
  let ?r = "require_rules a b"
  have fields: "deny_create ?r \<longleftrightarrow> deny_create a \<or> deny_create b"
    "deny_update ?r \<longleftrightarrow> deny_update a \<or> deny_update b"
    "deny_delete ?r \<longleftrightarrow> deny_delete a \<or> deny_delete b"
    "require_fast_forward ?r \<longleftrightarrow> require_fast_forward a \<or> require_fast_forward b"
    "require_linear_history ?r \<longleftrightarrow> require_linear_history a \<or> require_linear_history b"
    "require_pull_request ?r \<longleftrightarrow> require_pull_request a \<or> require_pull_request b"
    "require_last_push_approval ?r \<longleftrightarrow> require_last_push_approval a \<or> require_last_push_approval b"
    "s |\<in>| required_signers ?r \<longleftrightarrow> s |\<in>| required_signers a \<or> s |\<in>| required_signers b"
    "minimum_approvals ?r \<le> n \<longleftrightarrow> minimum_approvals a \<le> n \<and> minimum_approvals b \<le> n"
    "required_status_checks ?r |\<subseteq>| X \<longleftrightarrow>
       required_status_checks a |\<subseteq>| X \<and> required_status_checks b |\<subseteq>| X"
    "required_deployments ?r |\<subseteq>| X \<longleftrightarrow>
       required_deployments a |\<subseteq>| X \<and> required_deployments b |\<subseteq>| X" for s n X
    by (simp_all add: require_rules_def)
  show ?thesis
    unfolding satisfies_def fields signer_cases by argo
qed

lemma admits_satisfies: "admits r e \<longleftrightarrow> validated_bypass e \<or> satisfies r e"
  by (simp add: admits_iff violates_none_iff)

interpretation rules: layered_rules require_rules default_requirements admits
proof
  fix a b c :: RepositoryRuleRequirements and e
  show "require_rules (require_rules a b) c = require_rules a (require_rules b c)"
    by (simp add: require_rules_def disj_assoc max.assoc funion_assoc)
  show "require_rules a b = require_rules b a"
    by (simp add: require_rules_def disj_commute max.commute funion_commute)
  show "require_rules a a = a"
    by (simp add: require_rules_def)
  show "require_rules default_requirements a = a"
    by (simp add: require_rules_def default_requirements_def max_def)
  show "admits (require_rules a b) e \<longleftrightarrow> admits a e \<and> admits b e"
    by (auto simp: admits_satisfies satisfies_require)
qed

section \<open>Properties\<close>

text \<open>C30: The evaluation reports exactly the violated requirements: without a validated bypass the
  result is the sorted list, without repetition, of all failures whose condition the evidence
  meets, and a bypass skips every rule.\<close>

theorem admission_failures_exact:
  "evaluate_repository_admission r e =
     (if validated_bypass e then [] else sorted_list_of_set {f. violates r e f})"
  by (rule evaluate_repository_admission_eq)

text \<open>C31: Layering never weakens a ruleset: the combination of any list of matching rulesets admits
  an operation iff every single ruleset admits it, and neither the order of the rulesets nor
  repeated rulesets change the combined requirements.\<close>

theorem layered_rules_most_restrictive:
  "(evaluate_repository_admission (fold (\<lambda>r acc. require_rules acc r) rs default_requirements) e = []
      \<longleftrightarrow> (\<forall>r \<in> set rs. evaluate_repository_admission r e = []))
   \<and> (set rs = set rs' \<longrightarrow> fold (\<lambda>r acc. require_rules acc r) rs default_requirements =
        fold (\<lambda>r acc. require_rules acc r) rs' default_requirements)"
proof -
  have "admits default_requirements e"
    by (simp add: admits_satisfies satisfies_def default_requirements_def)
  then show ?thesis
    using rules.admitted_layers [of rs e] rules.layers_set_eq [of rs rs']
    by (auto simp: admits_def rules.layers_def)
qed

definition sample_evidence :: RepositoryAdmissionEvidence where
  "sample_evidence =
     \<lparr>mutation = Update, fast_forward = True, linear_history = True,
      signer = Some AuthenticatedActor, pull_request = False, approvals = 1,
      last_push_approved = False, successful_status_checks = {|''build''|},
      successful_deployments = {||}, validated_bypass = False\<rparr>"

theorem layered_rules_most_restrictive_witness:
  "evaluate_repository_admission (fold (\<lambda>r acc. require_rules acc r)
      [safe_writable_main, default_requirements\<lparr>required_status_checks := {|''build''|}\<rparr>]
      default_requirements) sample_evidence = []
   \<and> fold (\<lambda>r acc. require_rules acc r) [safe_writable_main, safe_writable_main] default_requirements =
     fold (\<lambda>r acc. require_rules acc r) [safe_writable_main] default_requirements"
proof -
  have "evaluate_repository_admission safe_writable_main sample_evidence = []"
    "evaluate_repository_admission (default_requirements\<lparr>required_status_checks := {|''build''|}\<rparr>)
       sample_evidence = []"
    by code_simp+
  then show ?thesis
    using layered_rules_most_restrictive [of
        "[safe_writable_main, default_requirements\<lparr>required_status_checks := {|''build''|}\<rparr>]"]
      layered_rules_most_restrictive [of "[safe_writable_main, safe_writable_main]" _
        "[safe_writable_main]"]
    by simp
qed

text \<open>C32: The default protection of \<open>main\<close> lets an authorized writer create the ref or
  fast-forward it with any verified signature, and fails closed on deletion, on history
  replacement and on unsigned updates; layering both identity-bound signer requirements on top
  admits nothing but a validated bypass, because no operation has two signers.\<close>

theorem safe_main_fails_closed:
  "(evaluate_repository_admission safe_writable_main e = [] \<longleftrightarrow>
      validated_bypass e
      \<or> mutation e \<noteq> Delete \<and> (mutation e = Update \<longrightarrow> fast_forward e) \<and> signer e \<noteq> None)
   \<and> (evaluate_repository_admission (require_rules safe_writable_main
        (r\<lparr>required_signers := {|RequiredSigner_AuthenticatedActor, RequiredSigner_FileBeltService|}\<rparr>)) e = []
      \<longleftrightarrow> validated_bypass e)"
proof -
  have "admits safe_writable_main e \<longleftrightarrow> validated_bypass e
      \<or> mutation e \<noteq> Delete \<and> (mutation e = Update \<longrightarrow> fast_forward e) \<and> signer e \<noteq> None"
    by (auto simp: admits_satisfies satisfies_def safe_writable_main_def default_requirements_def)
  moreover have "\<not> satisfies
      (r\<lparr>required_signers := {|RequiredSigner_AuthenticatedActor, RequiredSigner_FileBeltService|}\<rparr>) e"
    unfolding satisfies_def signer_cases by simp
  then have "admits (require_rules safe_writable_main
      (r\<lparr>required_signers := {|RequiredSigner_AuthenticatedActor, RequiredSigner_FileBeltService|}\<rparr>)) e
    \<longleftrightarrow> validated_bypass e"
    by (simp add: admits_satisfies satisfies_require)
  ultimately show ?thesis
    unfolding admits_def by blast
qed

theorem safe_main_fails_closed_witness:
  "evaluate_repository_admission safe_writable_main (sample_evidence\<lparr>mutation := Create\<rparr>) = []
   \<and> evaluate_repository_admission safe_writable_main (sample_evidence\<lparr>signer := None\<rparr>) \<noteq> []"
  using safe_main_fails_closed [of "sample_evidence\<lparr>mutation := Create\<rparr>"]
    safe_main_fails_closed [of "sample_evidence\<lparr>signer := None\<rparr>"]
  by (simp add: sample_evidence_def)

end
