(* ===== verification/Virtual_Acl.thy ===== *)
theory Virtual_Acl
  imports Domain "HOL-Library.FSet"
begin

text \<open>
  The crate \<open>filebelt-authz\<close> (\<open>source/crates/filebelt-authz/src/lib.rs\<close>) without the
  recursive-share graph: ACL entries, principal contexts, the evaluation of one action
  (\<open>evaluate\<close>), permission presets and strict attenuation of delegations
  (\<open>validate_delegation\<close>). Structs are records; a struct whose derived order the code uses
  for sorting is a datatype with that order.
\<close>

section \<open>Entries\<close>

datatype Effect = Allow | Deny

datatype Inheritance = ThisResource | Children | Descendants

definition applies_at :: "Inheritance \<Rightarrow> u32 \<Rightarrow> bool" where
  "applies_at inh dist \<longleftrightarrow>
     dist = 0 \<or>
     (case inh of ThisResource \<Rightarrow> False | Children \<Rightarrow> dist = 1 | Descendants \<Rightarrow> True)"

record AclEntry =
  acl_id :: AclEntryId
  acl_resource :: ResourceId
  acl_principal :: PrincipalId
  acl_action :: Action
  acl_effect :: Effect
  acl_inheritance :: Inheritance
  acl_generation :: Generation
  acl_created_by :: PrincipalId

record ResolvedAclEntry =
  entry :: AclEntry
  distance :: u32

definition direct :: "AclEntry \<Rightarrow> ResolvedAclEntry" where
  "direct e = \<lparr>entry = e, distance = 0\<rparr>"

definition inherited :: "AclEntry \<Rightarrow> u32 \<Rightarrow> ResolvedAclEntry option" where
  "inherited e d = (if d = 0 then None else Some \<lparr>entry = e, distance = d\<rparr>)"

definition is_direct :: "ResolvedAclEntry \<Rightarrow> bool" where
  "is_direct r \<longleftrightarrow> distance r = 0"

definition applies :: "ResolvedAclEntry \<Rightarrow> bool" where
  "applies r \<longleftrightarrow> applies_at (acl_inheritance (entry r)) (distance r)"

section \<open>Principals\<close>

primrec role_index :: "GroupRole \<Rightarrow> nat" where
  "role_index Member = 0"
| "role_index Manager = 1"

datatype GroupMembership =
  GroupMembership (group_id: GroupId) (group_principal_id: PrincipalId) (role: GroupRole)

definition membership_key :: "GroupMembership \<Rightarrow> uuid \<times> uuid \<times> nat" where
  "membership_key m = (group_id m, group_principal_id m, role_index (role m))"

lemma membership_key_inj: "membership_key m = membership_key n \<Longrightarrow> m = n"
  by (cases m; cases n; cases "role m"; cases "role n") (auto simp: membership_key_def)

instantiation GroupMembership :: linorder
begin

definition less_eq_GroupMembership :: "GroupMembership \<Rightarrow> GroupMembership \<Rightarrow> bool" where
  "less_eq_GroupMembership m n \<longleftrightarrow> membership_key m \<le> membership_key n"

definition less_GroupMembership :: "GroupMembership \<Rightarrow> GroupMembership \<Rightarrow> bool" where
  "less_GroupMembership m n \<longleftrightarrow> membership_key m < membership_key n"

instance
  by standard
    (auto simp: less_eq_GroupMembership_def less_GroupMembership_def intro: membership_key_inj)

end

record PrincipalContext =
  principal_id :: PrincipalId
  memberships :: "GroupMembership list"

definition principal_context_new ::
  "PrincipalId \<Rightarrow> GroupMembership list \<Rightarrow> PrincipalContext" where
  "principal_context_new p ms = \<lparr>principal_id = p, memberships = sort_dedup ms\<rparr>"

definition includes_principal :: "PrincipalContext \<Rightarrow> PrincipalId \<Rightarrow> bool" where
  "includes_principal ctx candidate \<longleftrightarrow>
     candidate = principal_id ctx \<or>
     list_ex (\<lambda>m. group_principal_id m = candidate) (memberships ctx)"

definition manages_group :: "PrincipalContext \<Rightarrow> GroupId \<Rightarrow> bool" where
  "manages_group ctx g \<longleftrightarrow>
     list_ex (\<lambda>m. group_id m = g \<and> role m = Manager) (memberships ctx)"

section \<open>Decisions\<close>

datatype DecisionReason =
    Owner
  | GroupOwnerManager
  | ExplicitAllow
  | InheritedAllow
  | ExplicitDeny
  | InheritedDeny
  | NoMatchingGrant

primrec decision_reason_code :: "DecisionReason \<Rightarrow> string" where
  "decision_reason_code Owner = ''authz.allow.owner''"
| "decision_reason_code GroupOwnerManager = ''authz.allow.group_owner_manager''"
| "decision_reason_code ExplicitAllow = ''authz.allow.explicit''"
| "decision_reason_code InheritedAllow = ''authz.allow.inherited''"
| "decision_reason_code ExplicitDeny = ''authz.deny.explicit''"
| "decision_reason_code InheritedDeny = ''authz.deny.inherited''"
| "decision_reason_code NoMatchingGrant = ''authz.deny.no_matching_grant''"

record AuthorizationDecision =
  allowed :: bool
  reason :: DecisionReason
  source_entries :: "AclEntryId list"
  generations :: GenerationSnapshot

definition remains_valid_at :: "AuthorizationDecision \<Rightarrow> GenerationSnapshot \<Rightarrow> bool" where
  "remains_valid_at d current \<longleftrightarrow>
     resource_acl (generations d) = resource_acl current
     \<and> membership (generations d) = membership current
     \<and> namespace (generations d) = namespace current"

record AuthorizationRequest =
  req_principal :: PrincipalContext
  req_resource :: ResourceId
  req_drive_owner :: DriveOwner
  req_action :: Action
  req_entries :: "ResolvedAclEntry list"
  req_generations :: GenerationSnapshot

definition canonicalize_ids :: "AclEntryId list \<Rightarrow> AclEntryId list" where
  "canonicalize_ids ids = sort_dedup ids"

definition implicit_owner_reason ::
  "PrincipalContext \<Rightarrow> DriveOwner \<Rightarrow> Action \<Rightarrow> DecisionReason option" where
  "implicit_owner_reason ctx drive_owner act =
     (if act = BypassRepositoryRules then None
      else case drive_owner of
        User owner \<Rightarrow> if owner = principal_id ctx then Some Owner else None
      | Organization owner \<Rightarrow> if owner = principal_id ctx then Some Owner else None
      | Service owner \<Rightarrow> if owner = principal_id ctx then Some Owner else None
      | Group g \<Rightarrow> if manages_group ctx g then Some GroupOwnerManager else None)"

text \<open>The four vectors that the loop of \<open>evaluate\<close> fills.\<close>

record id_buckets =
  direct_denies :: "AclEntryId list"
  inherited_denies :: "AclEntryId list"
  direct_allows :: "AclEntryId list"
  inherited_allows :: "AclEntryId list"

definition no_ids :: id_buckets where
  "no_ids = \<lparr>direct_denies = [], inherited_denies = [], direct_allows = [], inherited_allows = []\<rparr>"

definition evaluate_step :: "AuthorizationRequest \<Rightarrow> ResolvedAclEntry \<Rightarrow> id_buckets \<Rightarrow> id_buckets"
  where
  "evaluate_step request resolved b =
     (let e = entry resolved in
      if acl_action e \<noteq> req_action request
         \<or> \<not> includes_principal (req_principal request) (acl_principal e)
         \<or> \<not> applies resolved
         \<or> is_direct resolved \<noteq> (acl_resource e = req_resource request)
      then b
      else case (acl_effect e, is_direct resolved) of
        (Deny, True) \<Rightarrow> b\<lparr>direct_denies := direct_denies b @ [acl_id e]\<rparr>
      | (Deny, False) \<Rightarrow> b\<lparr>inherited_denies := inherited_denies b @ [acl_id e]\<rparr>
      | (Allow, True) \<Rightarrow> b\<lparr>direct_allows := direct_allows b @ [acl_id e]\<rparr>
      | (Allow, False) \<Rightarrow> b\<lparr>inherited_allows := inherited_allows b @ [acl_id e]\<rparr>)"

definition evaluate :: "AuthorizationRequest \<Rightarrow> AuthorizationDecision" where
  "evaluate request =
     (case implicit_owner_reason (req_principal request) (req_drive_owner request)
             (req_action request) of
        Some r \<Rightarrow>
          \<lparr>allowed = True, reason = r, source_entries = [], generations = req_generations request\<rparr>
      | None \<Rightarrow>
          (let b = fold (evaluate_step request) (req_entries request) no_ids;
               dd = canonicalize_ids (direct_denies b);
               ind = canonicalize_ids (inherited_denies b);
               da = canonicalize_ids (direct_allows b);
               ia = canonicalize_ids (inherited_allows b) in
           if dd \<noteq> [] \<or> ind \<noteq> [] then
             \<lparr>allowed = False,
              reason = (if dd = [] then InheritedDeny else ExplicitDeny),
              source_entries = canonicalize_ids (dd @ ind),
              generations = req_generations request\<rparr>
           else if da \<noteq> [] \<or> ia \<noteq> [] then
             \<lparr>allowed = True,
              reason = (if da = [] then InheritedAllow else ExplicitAllow),
              source_entries = canonicalize_ids (da @ ia),
              generations = req_generations request\<rparr>
           else
             \<lparr>allowed = False, reason = NoMatchingGrant, source_entries = [],
              generations = req_generations request\<rparr>))"

section \<open>Presets and delegation\<close>

datatype PermissionPreset = Viewer | Contributor | PresetManager

definition VIEWER_ACTIONS :: "Action list" where
  "VIEWER_ACTIONS = [ReadMetadata, ListChildren, ReadContent, UseExternalEditor]"

definition CONTRIBUTOR_ACTIONS :: "Action list" where
  "CONTRIBUTOR_ACTIONS =
     [ReadMetadata, ListChildren, ReadContent, CreateChild, WriteContent, CreateVersion, Rename,
      Move, Delete, Restore, SetAttributes, UseExternalEditor, Comment, Review]"

definition MANAGER_ACTIONS :: "Action list" where
  "MANAGER_ACTIONS =
     [ReadMetadata, ListChildren, ReadContent, CreateChild, WriteContent, CreateVersion, Rename,
      Move, Delete, Restore, SetAttributes, Share, ManageAcl, UseExternalEditor, Comment, Review]"

primrec preset_actions :: "PermissionPreset \<Rightarrow> Action list" where
  "preset_actions Viewer = VIEWER_ACTIONS"
| "preset_actions Contributor = CONTRIBUTOR_ACTIONS"
| "preset_actions PresetManager = MANAGER_ACTIONS"

definition action_set :: "PermissionPreset \<Rightarrow> Action fset" where
  "action_set p = fset_of_list (preset_actions p)"

datatype DelegationMode = ShareMode | ManageAclMode

primrec required_action :: "DelegationMode \<Rightarrow> Action" where
  "required_action ShareMode = Share"
| "required_action ManageAclMode = ManageAcl"

datatype DelegationError =
    MissingAuthority Action
  | ActionNotHeld Action
  | ShareRequiresContentPreset Action

primrec delegation_error_code :: "DelegationError \<Rightarrow> string" where
  "delegation_error_code (MissingAuthority a) = ''authz.delegation.missing_authority''"
| "delegation_error_code (ActionNotHeld a) = ''authz.delegation.action_not_held''"
| "delegation_error_code (ShareRequiresContentPreset a) =
     ''authz.delegation.share_action_not_permitted''"

text \<open>\<open>set.iter().find(p)\<close> on a \<open>BTreeSet\<close> visits the elements in increasing order.\<close>

definition btree_find :: "('a::linorder \<Rightarrow> bool) \<Rightarrow> 'a fset \<Rightarrow> 'a option" where
  "btree_find P A = find P (sorted_list_of_fset A)"

definition validate_delegation ::
  "Action fset \<Rightarrow> Action fset \<Rightarrow> DelegationMode \<Rightarrow> (unit, DelegationError) result" where
  "validate_delegation held_actions requested_actions mode =
     (let authority = required_action mode in
      if authority |\<notin>| held_actions then Err (MissingAuthority authority)
      else
        case (if mode = ShareMode
              then btree_find (\<lambda>a. a |\<notin>| fset_of_list CONTRIBUTOR_ACTIONS) requested_actions
              else None) of
          Some a \<Rightarrow> Err (ShareRequiresContentPreset a)
        | None \<Rightarrow>
            (case btree_find (\<lambda>a. a |\<notin>| held_actions) requested_actions of
               Some a \<Rightarrow> Err (ActionNotHeld a)
             | None \<Rightarrow> Ok ()))"

section \<open>Set-based specification of one evaluation\<close>

definition entry_matches ::
  "PrincipalContext \<Rightarrow> ResourceId \<Rightarrow> Action \<Rightarrow> ResolvedAclEntry \<Rightarrow> bool" where
  "entry_matches ctx res act r \<longleftrightarrow>
     acl_action (entry r) = act \<and> includes_principal ctx (acl_principal (entry r))
     \<and> applies r \<and> (is_direct r \<longleftrightarrow> acl_resource (entry r) = res)"

abbreviation req_matches :: "AuthorizationRequest \<Rightarrow> ResolvedAclEntry \<Rightarrow> bool" where
  "req_matches q \<equiv> entry_matches (req_principal q) (req_resource q) (req_action q)"

definition matched_ids ::
  "(ResolvedAclEntry \<Rightarrow> bool) \<Rightarrow> Effect \<Rightarrow> bool set \<Rightarrow> ResolvedAclEntry set \<Rightarrow> AclEntryId set" where
  "matched_ids M eff dirs R =
     {acl_id (entry r) | r. r \<in> R \<and> M r \<and> acl_effect (entry r) = eff \<and> is_direct r \<in> dirs}"

definition req_owner :: "AuthorizationRequest \<Rightarrow> DecisionReason option" where
  "req_owner q = implicit_owner_reason (req_principal q) (req_drive_owner q) (req_action q)"

definition acl_spec :: "AuthorizationRequest \<Rightarrow> AuthorizationDecision" where
  "acl_spec q =
     (let ids = (\<lambda>eff dirs. matched_ids (req_matches q) eff dirs (set (req_entries q)));
          decide = (\<lambda>a r S. \<lparr>allowed = a, reason = r, source_entries = sorted_list_of_set S,
                       generations = req_generations q\<rparr>) in
      case req_owner q of
        Some r \<Rightarrow> decide True r {}
      | None \<Rightarrow>
          if ids Deny UNIV \<noteq> {} then
            decide False (if ids Deny {True} = {} then InheritedDeny else ExplicitDeny)
              (ids Deny UNIV)
          else if ids Allow UNIV \<noteq> {} then
            decide True (if ids Allow {True} = {} then InheritedAllow else ExplicitAllow)
              (ids Allow UNIV)
          else decide False NoMatchingGrant {})"

definition bucket_ids ::
  "(ResolvedAclEntry \<Rightarrow> bool) \<Rightarrow> Effect \<Rightarrow> bool \<Rightarrow> ResolvedAclEntry list \<Rightarrow> AclEntryId list" where
  "bucket_ids M eff dir rs =
     map (\<lambda>r. acl_id (entry r))
       (filter (\<lambda>r. M r \<and> acl_effect (entry r) = eff \<and> is_direct r = dir) rs)"

lemma set_bucket_ids: "set (bucket_ids M eff dir rs) = matched_ids M eff {dir} (set rs)"
  by (auto simp: bucket_ids_def matched_ids_def)

lemma bucket_ids_simps [simp]:
  "bucket_ids M eff dir [] = []"
  "bucket_ids M eff dir (r # rs) =
     (if M r \<and> acl_effect (entry r) = eff \<and> is_direct r = dir
      then acl_id (entry r) # bucket_ids M eff dir rs else bucket_ids M eff dir rs)"
  by (auto simp: bucket_ids_def)

lemma bucket_ids_Nil_iff: "bucket_ids M eff dir rs = [] \<longleftrightarrow> matched_ids M eff {dir} (set rs) = {}"
  by (metis set_bucket_ids set_empty)

lemma matched_ids_UNIV:
  "matched_ids M eff UNIV R = matched_ids M eff {True} R \<union> matched_ids M eff {False} R"
  by (auto simp: matched_ids_def)

lemma matched_ids_empty_iff:
  "matched_ids M eff dirs R = {} \<longleftrightarrow>
     (\<forall>r \<in> R. M r \<longrightarrow> acl_effect (entry r) = eff \<longrightarrow> is_direct r \<notin> dirs)"
  by (auto simp: matched_ids_def)

lemma evaluate_step_eq:
  "evaluate_step q r b =
     (if \<not> req_matches q r then b
      else case acl_effect (entry r) of
        Deny \<Rightarrow> if is_direct r then b\<lparr>direct_denies := direct_denies b @ [acl_id (entry r)]\<rparr>
                else b\<lparr>inherited_denies := inherited_denies b @ [acl_id (entry r)]\<rparr>
      | Allow \<Rightarrow> if is_direct r then b\<lparr>direct_allows := direct_allows b @ [acl_id (entry r)]\<rparr>
                 else b\<lparr>inherited_allows := inherited_allows b @ [acl_id (entry r)]\<rparr>)"
  by (auto simp: evaluate_step_def entry_matches_def Let_def split: Effect.splits bool.splits)

lemma evaluate_loop:
  "fold (evaluate_step q) rs b =
     \<lparr>direct_denies = direct_denies b @ bucket_ids (req_matches q) Deny True rs,
      inherited_denies = inherited_denies b @ bucket_ids (req_matches q) Deny False rs,
      direct_allows = direct_allows b @ bucket_ids (req_matches q) Allow True rs,
      inherited_allows = inherited_allows b @ bucket_ids (req_matches q) Allow False rs\<rparr>"
proof (induction rs arbitrary: b)
  case (Cons r rs)
  show ?case
    by (cases "acl_effect (entry r)"; cases "is_direct r"; cases "req_matches q r")
      (simp_all add: Cons.IH evaluate_step_eq [of q r])
qed simp

lemma evaluate_eq_acl_spec: "evaluate q = acl_spec q"
  by (simp add: evaluate_def acl_spec_def req_owner_def evaluate_loop no_ids_def
      canonicalize_ids_def sort_dedup_eq set_bucket_ids matched_ids_UNIV Let_def
      bucket_ids_Nil_iff split: option.splits)

lemma evaluate_allowed_cases:
  "allowed (evaluate q) \<longleftrightarrow>
     req_owner q \<noteq> None
     \<or> (\<exists>r \<in> set (req_entries q). req_matches q r \<and> acl_effect (entry r) = Allow)
        \<and> \<not> (\<exists>r \<in> set (req_entries q). req_matches q r \<and> acl_effect (entry r) = Deny)"
  by (auto simp: evaluate_eq_acl_spec acl_spec_def Let_def matched_ids_empty_iff split: option.splits)

lemma btree_find_None: "btree_find P A = None \<longleftrightarrow> (\<forall>x. x |\<in>| A \<longrightarrow> \<not> P x)"
  by (simp add: btree_find_def find_None_iff sorted_list_of_fset.rep_eq)

lemma find_sorted_least:
  "sorted xs \<Longrightarrow> find P xs = Some x \<Longrightarrow> x \<in> set xs \<and> P x \<and> (\<forall>y \<in> set xs. P y \<longrightarrow> x \<le> y)"
  by (induction xs) (auto split: if_splits)

lemma btree_find_Some:
  "btree_find P A = Some x \<Longrightarrow> x |\<in>| A \<and> P x \<and> (\<forall>y. y |\<in>| A \<longrightarrow> P y \<longrightarrow> x \<le> y)"
  using find_sorted_least [of "sorted_list_of_fset A" P x]
  by (auto simp: btree_find_def sorted_list_of_fset.rep_eq)

lemma validate_delegation_Ok:
  "validate_delegation held req mode = Ok () \<longleftrightarrow>
     required_action mode |\<in>| held \<and> req |\<subseteq>| held
     \<and> (mode = ShareMode \<longrightarrow> req |\<subseteq>| fset_of_list CONTRIBUTOR_ACTIONS)"
proof -
  have find: "btree_find (\<lambda>a. a |\<notin>| S) req = None \<longleftrightarrow> req |\<subseteq>| S" for S
    by (auto simp: btree_find_None)
  show ?thesis
    using find [of held] find [of "fset_of_list CONTRIBUTOR_ACTIONS"]
    by (cases "btree_find (\<lambda>a. a |\<notin>| held) req";
        cases "btree_find (\<lambda>a. a |\<notin>| fset_of_list CONTRIBUTOR_ACTIONS) req")
      (simp_all add: validate_delegation_def Let_def)
qed

lemma validate_delegation_not_held:
  assumes "validate_delegation held req mode = Err (ActionNotHeld a)"
  shows "a |\<in>| req \<and> a |\<notin>| held \<and> (\<forall>b. b |\<in>| req \<longrightarrow> b |\<notin>| held \<longrightarrow> a \<le> b)"
proof -
  have "btree_find (\<lambda>a. a |\<notin>| held) req = Some a"
    using assms by (auto simp: validate_delegation_def Let_def split: if_splits option.splits)
  from btree_find_Some [OF this] show ?thesis
    by blast
qed

lemma validate_delegation_not_shareable:
  assumes "validate_delegation held req mode = Err (ShareRequiresContentPreset a)"
  shows "mode = ShareMode \<and> a |\<in>| req \<and> a \<notin> set CONTRIBUTOR_ACTIONS
    \<and> (\<forall>b. b |\<in>| req \<longrightarrow> b \<notin> set CONTRIBUTOR_ACTIONS \<longrightarrow> a \<le> b)"
proof -
  have mode: "mode = ShareMode"
    and find: "btree_find (\<lambda>a. a |\<notin>| fset_of_list CONTRIBUTOR_ACTIONS) req = Some a"
    using assms by (auto simp: validate_delegation_def Let_def split: if_splits option.splits)
  show ?thesis
    using mode btree_find_Some [OF find] by (simp add: fset_of_list_elem)
qed

section \<open>Properties\<close>

text \<open>C13: The loop of \<open>evaluate\<close> with its four vectors computes exactly the set-based
  policy: implicit ownership first, then any applicable deny, then any applicable allow, then
  the default deny; the reason tells whether the deciding entries include one attached to the
  resource itself, and the evidence is the sorted list of all deciding entries without
  repetition.\<close>

theorem evaluate_implements_policy: "evaluate q = acl_spec q"
  by (rule evaluate_eq_acl_spec)

text \<open>A principal without implicit ownership is allowed an action iff some applicable entry
  allows it and no applicable entry, direct or inherited, denies it; ownership cannot be removed
  by entries; and nobody, not even the owner, may bypass repository rules without such an
  entry.\<close>

theorem evaluate_deny_precedence:
  "(allowed (evaluate q) \<longleftrightarrow>
      req_owner q \<noteq> None
      \<or> (\<exists>r \<in> set (req_entries q). req_matches q r \<and> acl_effect (entry r) = Allow)
         \<and> \<not> (\<exists>r \<in> set (req_entries q). req_matches q r \<and> acl_effect (entry r) = Deny))
   \<and> (req_action q = BypassRepositoryRules \<longrightarrow> req_owner q = None)"
  using evaluate_allowed_cases [of q]
  by (simp add: req_owner_def [of q] implicit_owner_reason_def)

text \<open>A request by principal 7, a member of group principal 8, on node 1 of a drive owned by
  principal 5: an inherited allow for the group and a direct deny for the principal.\<close>

definition sample_entry :: "AclEntryId \<Rightarrow> NodeId \<Rightarrow> PrincipalId \<Rightarrow> Effect \<Rightarrow> AclEntry" where
  "sample_entry i res p eff =
     \<lparr>acl_id = i, acl_resource = Node res, acl_principal = p, acl_action = ReadContent,
      acl_effect = eff, acl_inheritance = Descendants, acl_generation = 1, acl_created_by = 5\<rparr>"

definition sample_request :: AuthorizationRequest where
  "sample_request =
     \<lparr>req_principal = principal_context_new 7 [GroupMembership 3 8 Member],
      req_resource = Node 1, req_drive_owner = User 5, req_action = ReadContent,
      req_entries = [\<lparr>entry = sample_entry 20 2 8 Allow, distance = 1\<rparr>,
                     direct (sample_entry 21 1 7 Deny)],
      req_generations = \<lparr>resource_acl = 1, membership = 1, namespace = 1\<rparr>\<rparr>"

lemma sample_request_decision:
  "allowed (evaluate sample_request) = False
   \<and> reason (evaluate sample_request) = ExplicitDeny
   \<and> source_entries (evaluate sample_request) = [21]"
  by code_simp

theorem evaluate_deny_precedence_witness:
  "req_owner sample_request = None \<and> \<not> allowed (evaluate sample_request)
   \<and> req_owner (sample_request\<lparr>req_action := BypassRepositoryRules, req_drive_owner := User 7\<rparr>) = None"
proof -
  have "req_owner sample_request = None"
    by code_simp
  moreover have "req_owner (sample_request\<lparr>req_action := BypassRepositoryRules,
      req_drive_owner := User 7\<rparr>) = None"
    using evaluate_deny_precedence [of "sample_request\<lparr>req_action := BypassRepositoryRules,
      req_drive_owner := User 7\<rparr>"] by simp
  ultimately show ?thesis
    using sample_request_decision by simp
qed

text \<open>The decision depends on the set of resolved entries only, not on their order or
  repetition, and any two requests with the same facts get the same reason and evidence.\<close>

theorem evaluate_order_independent:
  assumes "set es = set es'"
  shows "evaluate (q\<lparr>req_entries := es\<rparr>) = evaluate (q\<lparr>req_entries := es'\<rparr>)"
  using assms by (simp add: evaluate_eq_acl_spec acl_spec_def req_owner_def)

theorem evaluate_order_independent_witness:
  "evaluate (sample_request\<lparr>req_entries := rev (req_entries sample_request)\<rparr>) =
   evaluate (sample_request\<lparr>req_entries := req_entries sample_request @ req_entries sample_request\<rparr>)"
  by (rule evaluate_order_independent) simp



text \<open>Sharing does not propagate: whoever holds exactly what a share granted can neither
  share nor edit the ACL in turn, because no content preset contains these authorities.\<close>

theorem share_grants_cannot_be_redelegated:
  assumes "validate_delegation held req ShareMode = Ok ()"
  shows "validate_delegation req req' mode = Err (MissingAuthority (required_action mode))"
proof -
  have "req |\<subseteq>| fset_of_list CONTRIBUTOR_ACTIONS"
    using assms by (simp add: validate_delegation_Ok)
  moreover have "required_action mode \<notin> set CONTRIBUTOR_ACTIONS"
    by (cases mode) (simp_all add: CONTRIBUTOR_ACTIONS_def)
  ultimately have "required_action mode |\<notin>| req"
    by (auto simp: fset_of_list_elem)
  then show ?thesis
    by (simp add: validate_delegation_def Let_def)
qed

theorem share_grants_cannot_be_redelegated_witness:
  "validate_delegation {|Share, ReadContent|} {|ReadContent|} ShareMode = Ok ()
   \<and> validate_delegation {|ReadContent|} {|ReadContent|} ManageAclMode = Err (MissingAuthority ManageAcl)"
proof -
  have ok: "validate_delegation {|Share, ReadContent|} {|ReadContent|} ShareMode = Ok ()"
    by (simp add: validate_delegation_Ok CONTRIBUTOR_ACTIONS_def fset_of_list_elem)
  show ?thesis
    using ok share_grants_cannot_be_redelegated [OF ok, of "{|ReadContent|}" ManageAclMode] by simp
qed

end
