(* ===== verification/BTree_Map.thy ===== *)
theory BTree_Map
  imports Belt_Prelude
begin

text \<open>
  \<open>std::collections::BTreeMap\<close> as the code uses it: \<open>get\<close>, \<open>contains_key\<close>,
  \<open>insert\<close> and iteration in key order. The model is the list of entries in strictly
  increasing key order. The interface the clients rely on is the locale \<open>ordered_map\<close>,
  interpreted here on the model.
\<close>

section \<open>The interface\<close>

locale ordered_map =
  fixes empty :: "'m"
    and insert :: "'k::linorder \<Rightarrow> 'v \<Rightarrow> 'm \<Rightarrow> 'm"
    and get :: "'m \<Rightarrow> 'k \<Rightarrow> 'v option"
    and entries :: "'m \<Rightarrow> ('k \<times> 'v) list"
    and invar :: "'m \<Rightarrow> bool"
  assumes get_empty: "get empty k = None"
    and get_insert: "get (insert k v m) j = (if j = k then Some v else get m j)"
    and invar_empty: "invar empty"
    and invar_insert: "invar m \<Longrightarrow> invar (insert k v m)"
    and entries_sorted: "invar m \<Longrightarrow> sorted_wrt (<) (map fst (entries m))"
    and entries_get: "invar m \<Longrightarrow> (k, v) \<in> set (entries m) \<longleftrightarrow> get m k = Some v"
begin

definition contains_key :: "'m \<Rightarrow> 'k \<Rightarrow> bool" where
  "contains_key m k \<longleftrightarrow> get m k \<noteq> None"

lemma contains_key_empty: "\<not> contains_key empty k"
  by (simp add: contains_key_def get_empty)

lemma contains_key_insert: "contains_key (insert k v m) j \<longleftrightarrow> j = k \<or> contains_key m j"
  by (simp add: contains_key_def get_insert)

lemma keys_contains: "invar m \<Longrightarrow> k \<in> fst ` set (entries m) \<longleftrightarrow> contains_key m k"
proof -
  assume inv: "invar m"
  have "k \<in> fst ` set (entries m) \<longleftrightarrow> (\<exists>v. (k, v) \<in> set (entries m))"
    by force
  then show ?thesis
    by (simp add: contains_key_def entries_get [OF inv])
qed

lemma keys_canonical:
  "invar m \<Longrightarrow> map fst (entries m) = sorted_list_of_set {k. contains_key m k}"
proof -
  assume inv: "invar m"
  have "{k. contains_key m k} = set (map fst (entries m))"
    using keys_contains [OF inv] by auto
  moreover have "sorted (map fst (entries m))" "distinct (map fst (entries m))"
    using entries_sorted [OF inv] by (simp_all add: strict_sorted_iff)
  ultimately show ?thesis
    by (metis sorted_list_of_set.idem_if_sorted_distinct)
qed

lemma finite_keys: "invar m \<Longrightarrow> finite {k. contains_key m k}"
proof -
  assume inv: "invar m"
  have "{k. contains_key m k} = set (map fst (entries m))"
    using keys_contains [OF inv] by auto
  then show ?thesis by simp
qed

lemma insert_many_get:
  "get (fold (\<lambda>(k, v). insert k v) kvs m) j =
     (case map_of (rev kvs) j of Some v \<Rightarrow> Some v | None \<Rightarrow> get m j)"
  by (induction kvs arbitrary: m) (auto simp: get_insert map_add_Some_iff split: option.splits)

lemma insert_many_invar: "invar m \<Longrightarrow> invar (fold (\<lambda>(k, v). insert k v) kvs m)"
  by (induction kvs arbitrary: m) (auto simp: invar_insert)

end

section \<open>The model\<close>

type_synonym ('k, 'v) btree_map = "('k \<times> 'v) list"

definition bt_empty :: "('k, 'v) btree_map" where
  "bt_empty = []"

fun bt_insert :: "'k::linorder \<Rightarrow> 'v \<Rightarrow> ('k, 'v) btree_map \<Rightarrow> ('k, 'v) btree_map" where
  "bt_insert k v [] = [(k, v)]"
| "bt_insert k v ((k', v') # m) =
     (if k < k' then (k, v) # (k', v') # m
      else if k = k' then (k, v) # m
      else (k', v') # bt_insert k v m)"

definition bt_get :: "('k, 'v) btree_map \<Rightarrow> 'k \<Rightarrow> 'v option" where
  "bt_get m k = map_of m k"

definition bt_contains_key :: "('k, 'v) btree_map \<Rightarrow> 'k \<Rightarrow> bool" where
  "bt_contains_key m k \<longleftrightarrow> bt_get m k \<noteq> None"

definition bt_values :: "('k, 'v) btree_map \<Rightarrow> 'v list" where
  "bt_values m = map snd m"

definition bt_invar :: "('k::linorder, 'v) btree_map \<Rightarrow> bool" where
  "bt_invar m \<longleftrightarrow> sorted_wrt (<) (map fst m)"

lemma map_of_bt_insert: "map_of (bt_insert k v m) = (map_of m)(k \<mapsto> v)"
  by (induction k v m rule: bt_insert.induct) (auto simp: fun_eq_iff)

lemma keys_bt_insert: "fst ` set (bt_insert k v m) = insert k (fst ` set m)"
  by (induction k v m rule: bt_insert.induct) auto

lemma bt_insert_invar: "bt_invar m \<Longrightarrow> bt_invar (bt_insert k v m)"
proof (induction k v m rule: bt_insert.induct)
  case (2 k v k' v' m)
  have "fst x \<in> insert k (fst ` set m)" if "x \<in> set (bt_insert k v m)" for x
    using that keys_bt_insert [of k v m] by blast
  with 2 show ?case
    by (fastforce simp: bt_invar_def)
qed (simp add: bt_invar_def)

lemma bt_entries_get: "bt_invar m \<Longrightarrow> (k, v) \<in> set m \<longleftrightarrow> bt_get m k = Some v"
  by (auto simp: bt_get_def bt_invar_def strict_sorted_iff dest: map_of_SomeD)

interpretation btm: ordered_map bt_empty bt_insert bt_get "\<lambda>m. m" bt_invar
  rewrites "ordered_map.contains_key bt_get = bt_contains_key"
proof -
  show om: "ordered_map bt_empty bt_insert bt_get (\<lambda>m. m) bt_invar"
    by unfold_locales
      (auto simp: bt_empty_def bt_get_def map_of_bt_insert bt_invar_def [of "[]"] bt_insert_invar
        bt_entries_get [unfolded bt_get_def], simp add: bt_invar_def)
  show "ordered_map.contains_key bt_get = bt_contains_key"
    by (simp add: ordered_map.contains_key_def [OF om] fun_eq_iff bt_contains_key_def)
qed

lemmas bt_simps [simp] = btm.get_empty btm.get_insert btm.invar_empty btm.invar_insert
  btm.contains_key_empty btm.contains_key_insert

lemma bt_contains_key_iff: "bt_contains_key m k \<longleftrightarrow> k \<in> fst ` set m"
  by (simp add: bt_contains_key_def bt_get_def map_of_eq_None_iff)

lemma bt_get_Some_contains: "bt_get m k = Some v \<Longrightarrow> bt_contains_key m k"
  by (simp add: bt_contains_key_def)

end
