(* ===== verification/Recursive_Share.thy ===== *)
theory Recursive_Share
  imports Virtual_Acl BTree_Map
begin

text \<open>
  Recursive direct shares (\<open>source/crates/filebelt-authz/src/lib.rs\<close>, from
  \<open>RecursiveShareProvenance\<close> and \<open>evaluate_recursive_direct_shares\<close> to
  \<open>recursive_share_candidate_is_proven\<close>): a breadth-first collection of the delegation graph
  with its two limits, then a least fixed point over the collected nodes.

  Both loops are total functions: the collection spends edges or queue entries in every
  iteration, the fixed point adds a key in every round but the last. The two \<open>expect\<close>
  calls are the outcome \<open>Panicked\<close>, which is shown never to happen.
\<close>

section \<open>Facts and requests\<close>

datatype RecursiveShareProvenance = Independent | RecursiveDirectShare PrincipalId

record RecursiveShareResolvedAclEntry =
  resolved :: ResolvedAclEntry
  provenance :: RecursiveShareProvenance

definition independent_entry :: "ResolvedAclEntry \<Rightarrow> RecursiveShareResolvedAclEntry" where
  "independent_entry r = \<lparr>resolved = r, provenance = Independent\<rparr>"

definition recursive_direct_share ::
  "ResolvedAclEntry \<Rightarrow> PrincipalId \<Rightarrow> RecursiveShareResolvedAclEntry" where
  "recursive_direct_share r creator = \<lparr>resolved = r, provenance = RecursiveDirectShare creator\<rparr>"

record PrincipalAuthorizationFacts =
  facts_principal :: PrincipalContext
  facts_entries :: "RecursiveShareResolvedAclEntry list"

record RecursiveShareAuthorizationRequest =
  rs_principal :: PrincipalContext
  rs_resource :: ResourceId
  rs_drive_owner :: DriveOwner
  rs_action :: Action
  rs_entries :: "RecursiveShareResolvedAclEntry list"
  rs_creator_facts :: "PrincipalAuthorizationFacts list"
  rs_generations :: GenerationSnapshot

definition MAX_RECURSIVE_SHARE_DELEGATION_DEPTH :: nat where
  "MAX_RECURSIVE_SHARE_DELEGATION_DEPTH = 128"

definition MAX_RECURSIVE_SHARE_EDGES :: nat where
  "MAX_RECURSIVE_SHARE_EDGES = 4096"

datatype RecursiveShareEvaluationError = DelegationDepthExceeded | RecursiveEdgeLimitExceeded

datatype share_failure = EvaluationError RecursiveShareEvaluationError | Panicked

text \<open>
  The structs \<open>RecursiveShareNodeKey\<close> and \<open>RecursiveShareCandidate\<close> are pairs, whose
  lexicographic order is the derived one: (principal, action) and (entry id, creator).
\<close>

type_synonym RecursiveShareNodeKey = "PrincipalId \<times> Action"
type_synonym RecursiveShareCandidate = "AclEntryId \<times> PrincipalId"
type_synonym RecursiveShareSubject = "PrincipalContext \<times> RecursiveShareResolvedAclEntry list"

record RecursiveShareNode =
  denied :: "(DecisionReason \<times> AclEntryId list) option"
  independent :: "(DecisionReason \<times> AclEntryId list) option"
  candidates :: "RecursiveShareCandidate list"

definition default_node :: RecursiveShareNode where
  "default_node = \<lparr>denied = None, independent = None, candidates = []\<rparr>"

section \<open>Nodes\<close>

definition collect_creator_facts ::
  "PrincipalAuthorizationFacts list \<Rightarrow> (PrincipalId, PrincipalAuthorizationFacts option) btree_map"
  where
  "collect_creator_facts fs =
     fold (\<lambda>f m. let p = principal_id (facts_principal f) in
        case bt_get m p of
          None \<Rightarrow> bt_insert p (Some f) m
        | Some _ \<Rightarrow> bt_insert p None m) fs bt_empty"

definition recursive_share_subject ::
  "PrincipalId \<Rightarrow> RecursiveShareAuthorizationRequest
     \<Rightarrow> (PrincipalId, PrincipalAuthorizationFacts option) btree_map \<Rightarrow> RecursiveShareSubject option"
  where
  "recursive_share_subject p request creator_facts =
     (if p = principal_id (rs_principal request)
      then Some (rs_principal request, rs_entries request)
      else case bt_get creator_facts p of
        None \<Rightarrow> None
      | Some None \<Rightarrow> None
      | Some (Some f) \<Rightarrow> Some (facts_principal f, facts_entries f))"

record share_buckets = id_buckets +
  found :: "RecursiveShareCandidate list"

definition no_share_ids :: share_buckets where
  "no_share_ids =
     \<lparr>direct_denies = [], inherited_denies = [], direct_allows = [], inherited_allows = [],
      found = []\<rparr>"

definition recursive_share_step ::
  "RecursiveShareSubject \<Rightarrow> Action \<Rightarrow> RecursiveShareAuthorizationRequest
     \<Rightarrow> RecursiveShareResolvedAclEntry \<Rightarrow> share_buckets \<Rightarrow> share_buckets" where
  "recursive_share_step subject act request provenanced b =
     (let r = resolved provenanced; e = entry r in
      if acl_action e \<noteq> act
         \<or> \<not> includes_principal (fst subject) (acl_principal e)
         \<or> \<not> applies r
         \<or> is_direct r \<noteq> (acl_resource e = rs_resource request)
      then b
      else case acl_effect e of
        Deny \<Rightarrow>
          if is_direct r then b\<lparr>direct_denies := direct_denies b @ [acl_id e]\<rparr>
          else b\<lparr>inherited_denies := inherited_denies b @ [acl_id e]\<rparr>
      | Allow \<Rightarrow>
          (case provenance provenanced of
             Independent \<Rightarrow>
               if is_direct r then b\<lparr>direct_allows := direct_allows b @ [acl_id e]\<rparr>
               else b\<lparr>inherited_allows := inherited_allows b @ [acl_id e]\<rparr>
           | RecursiveDirectShare creator \<Rightarrow>
               if acl_created_by e = creator then b\<lparr>found := found b @ [(acl_id e, creator)]\<rparr>
               else b))"

definition recursive_share_node ::
  "RecursiveShareSubject \<Rightarrow> Action \<Rightarrow> RecursiveShareAuthorizationRequest \<Rightarrow> RecursiveShareNode" where
  "recursive_share_node subject act request =
     (case implicit_owner_reason (fst subject) (rs_drive_owner request) act of
        Some r \<Rightarrow> \<lparr>denied = None, independent = Some (r, []), candidates = []\<rparr>
      | None \<Rightarrow>
          (let b = fold (recursive_share_step subject act request) (snd subject) no_share_ids;
               dd = canonicalize_ids (direct_denies b);
               ind = canonicalize_ids (inherited_denies b);
               da = canonicalize_ids (direct_allows b);
               ia = canonicalize_ids (inherited_allows b);
               cs = sort_dedup (found b) in
           if dd \<noteq> [] \<or> ind \<noteq> [] then
             \<lparr>denied = Some (if dd = [] then InheritedDeny else ExplicitDeny,
                             canonicalize_ids (dd @ ind)),
              independent = None, candidates = []\<rparr>
           else if da \<noteq> [] \<or> ia \<noteq> [] then
             \<lparr>denied = None,
              independent = Some (if da = [] then InheritedAllow else ExplicitAllow,
                                  canonicalize_ids (da @ ia)),
              candidates = []\<rparr>
           else \<lparr>denied = None, independent = None, candidates = cs\<rparr>))"

section \<open>Collecting the graph\<close>

record share_graph =
  depths :: "(RecursiveShareNodeKey, nat) btree_map"
  pending :: "RecursiveShareNodeKey list"
  nodes :: "(RecursiveShareNodeKey, RecursiveShareNode) btree_map"
  recursive_edges :: nat

definition enqueue_recursive_share_node ::
  "RecursiveShareNodeKey \<Rightarrow> nat \<Rightarrow> share_graph \<Rightarrow> share_graph" where
  "enqueue_recursive_share_node key depth g =
     (if (case bt_get (depths g) key of Some current \<Rightarrow> depth < current | None \<Rightarrow> True)
      then g\<lparr>depths := bt_insert key depth (depths g), pending := pending g @ [key]\<rparr>
      else g)"

text \<open>The two calls of the loop body for one candidate.\<close>

definition follow_candidate :: "Action \<Rightarrow> nat \<Rightarrow> PrincipalId \<Rightarrow> share_graph \<Rightarrow> share_graph" where
  "follow_candidate act next_depth creator g =
     (let g1 = enqueue_recursive_share_node (creator, Share) next_depth g in
      if act \<noteq> Share then enqueue_recursive_share_node (creator, act) next_depth g1 else g1)"

fun expand_candidates ::
  "Action \<Rightarrow> nat \<Rightarrow> RecursiveShareCandidate list \<Rightarrow> share_graph
     \<Rightarrow> (share_graph, RecursiveShareEvaluationError) result" where
  "expand_candidates act depth [] g = Ok g"
| "expand_candidates act depth (candidate # cs) g =
     (if recursive_edges g + 1 > MAX_RECURSIVE_SHARE_EDGES then Err RecursiveEdgeLimitExceeded
      else if depth + 1 > MAX_RECURSIVE_SHARE_DELEGATION_DEPTH then Err DelegationDepthExceeded
      else expand_candidates act depth cs
        (follow_candidate act (depth + 1) (snd candidate)
          (g\<lparr>recursive_edges := recursive_edges g + 1\<rparr>)))"

lemma length_pending_enqueue:
  "length (pending (enqueue_recursive_share_node k d g)) \<le> length (pending g) + 1"
  by (simp add: enqueue_recursive_share_node_def)

lemma enqueue_frame [simp]:
  "nodes (enqueue_recursive_share_node k d g) = nodes g"
  "recursive_edges (enqueue_recursive_share_node k d g) = recursive_edges g"
  by (simp_all add: enqueue_recursive_share_node_def)

lemma follow_frame [simp]:
  "nodes (follow_candidate act d c g) = nodes g"
  "recursive_edges (follow_candidate act d c g) = recursive_edges g"
  by (simp_all add: follow_candidate_def Let_def)

lemma length_pending_follow:
  "length (pending (follow_candidate act d c g)) \<le> length (pending g) + 2"
  using length_pending_enqueue [of "(c, Share)" d g]
    length_pending_enqueue [of "(c, act)" d "enqueue_recursive_share_node (c, Share) d g"]
  by (simp add: follow_candidate_def Let_def)

lemma expand_candidates_effort:
  assumes "expand_candidates act depth cs g = Ok g'"
  shows "recursive_edges g' = recursive_edges g + length cs
    \<and> length (pending g') \<le> length (pending g) + 2 * length cs
    \<and> (cs \<noteq> [] \<longrightarrow> recursive_edges g' \<le> MAX_RECURSIVE_SHARE_EDGES)
    \<and> nodes g' = nodes g"
  using assms
proof (induction cs arbitrary: g)
  case (Cons c cs)
  let ?g1 = "g\<lparr>recursive_edges := recursive_edges g + 1\<rparr>"
  let ?g2 = "follow_candidate act (depth + 1) (snd c) ?g1"
  have limit: "recursive_edges g + 1 \<le> MAX_RECURSIVE_SHARE_EDGES"
    and rest: "expand_candidates act depth cs ?g2 = Ok g'"
    using Cons.prems by (auto simp: not_less split: if_splits)
  from Cons.IH [OF rest] limit length_pending_follow [of act "depth + 1" "snd c" ?g1]
  show ?case by (cases cs) auto
qed simp

function collect_nodes ::
  "RecursiveShareAuthorizationRequest
     \<Rightarrow> (PrincipalId, PrincipalAuthorizationFacts option) btree_map
     \<Rightarrow> share_graph \<Rightarrow> (share_graph, share_failure) result" where
  "collect_nodes request creator_facts g =
     (case pending g of
        [] \<Rightarrow> Ok g
      | key # rest \<Rightarrow>
          if bt_contains_key (nodes g) key
          then collect_nodes request creator_facts (g\<lparr>pending := rest\<rparr>)
          else
            case recursive_share_subject (fst key) request creator_facts of
              None \<Rightarrow>
                collect_nodes request creator_facts
                  (g\<lparr>pending := rest, nodes := bt_insert key default_node (nodes g)\<rparr>)
            | Some subject \<Rightarrow>
                let node = recursive_share_node subject (snd key) request in
                case bt_get (depths g) key of
                  None \<Rightarrow> Err Panicked
                | Some depth \<Rightarrow>
                    (case expand_candidates (snd key) depth (candidates node)
                            (g\<lparr>pending := rest\<rparr>) of
                       Err e \<Rightarrow> Err (EvaluationError e)
                     | Ok g' \<Rightarrow>
                         collect_nodes request creator_facts
                           (g'\<lparr>nodes := bt_insert key node (nodes g')\<rparr>)))"
  by pat_completeness auto
termination
proof (relation "measure (\<lambda>(request, creator_facts, g).
    3 * (MAX_RECURSIVE_SHARE_EDGES - recursive_edges g) + length (pending g))", goal_cases)
  case (4 request creator_facts g key rest subject node depth g')
  then show ?case
    using expand_candidates_effort [of "snd key" depth "candidates node" "g\<lparr>pending := rest\<rparr>" g']
    by (cases "candidates node = []") auto
qed auto

declare collect_nodes.simps [simp del]

section \<open>The least fixed point\<close>

definition recursive_share_candidate_is_proven ::
  "RecursiveShareCandidate \<Rightarrow> Action
     \<Rightarrow> (RecursiveShareNodeKey, RecursiveShareCandidate option) btree_map \<Rightarrow> bool" where
  "recursive_share_candidate_is_proven candidate act allowed_keys \<longleftrightarrow>
     bt_contains_key allowed_keys (snd candidate, Share)
     \<and> (act = Share \<or> bt_contains_key allowed_keys (snd candidate, act))"

definition initially_allowed ::
  "(RecursiveShareNodeKey, RecursiveShareNode) btree_map
     \<Rightarrow> (RecursiveShareNodeKey, RecursiveShareCandidate option) btree_map" where
  "initially_allowed ns =
     fold (\<lambda>(key, node) m.
       if denied node = None \<and> independent node \<noteq> None then bt_insert key None m else m) ns bt_empty"

definition saturate_step ::
  "RecursiveShareNodeKey \<times> RecursiveShareNode
     \<Rightarrow> (RecursiveShareNodeKey, RecursiveShareCandidate option) btree_map \<times> bool
     \<Rightarrow> (RecursiveShareNodeKey, RecursiveShareCandidate option) btree_map \<times> bool" where
  "saturate_step kn ac =
     (case (kn, ac) of ((key, node), (m, changed)) \<Rightarrow>
        if bt_contains_key m key \<or> denied node \<noteq> None then (m, changed)
        else case find (\<lambda>c. recursive_share_candidate_is_proven c (snd key) m) (candidates node) of
          Some c \<Rightarrow> (bt_insert key (Some c) m, True)
        | None \<Rightarrow> (m, changed))"

definition saturate_round ::
  "(RecursiveShareNodeKey, RecursiveShareNode) btree_map
     \<Rightarrow> (RecursiveShareNodeKey, RecursiveShareCandidate option) btree_map
     \<Rightarrow> (RecursiveShareNodeKey, RecursiveShareCandidate option) btree_map \<times> bool" where
  "saturate_round ns m = fold saturate_step ns (m, False)"

lemma saturate_step_grows:
  assumes "saturate_step kn (m, ch) = (m', ch')"
  shows "(\<forall>k. bt_contains_key m k \<longrightarrow> bt_contains_key m' k)
    \<and> (ch' \<longrightarrow> ch \<or> bt_contains_key m' (fst kn) \<and> \<not> bt_contains_key m (fst kn))
    \<and> (\<not> ch' \<longrightarrow> m' = m \<and> \<not> ch)"
  using assms by (auto simp: saturate_step_def split: prod.splits if_splits option.splits)

lemma saturate_fold_grows:
  assumes "fold saturate_step ns (m, ch) = (m', ch')"
  shows "(\<forall>k. bt_contains_key m k \<longrightarrow> bt_contains_key m' k)
    \<and> (ch' \<longrightarrow> ch \<or> (\<exists>k \<in> fst ` set ns. bt_contains_key m' k \<and> \<not> bt_contains_key m k))
    \<and> (\<not> ch' \<longrightarrow> m' = m \<and> \<not> ch)"
  using assms
proof (induction ns arbitrary: m ch)
  case (Cons kn ns)
  obtain m1 c1 where step: "saturate_step kn (m, ch) = (m1, c1)"
    by fastforce
  with Cons.prems have "fold saturate_step ns (m1, c1) = (m', ch')"
    by simp
  from Cons.IH [OF this] saturate_step_grows [OF step] show ?case
    by (auto simp del: split_paired_All)
qed auto

lemma saturate_round_progress:
  assumes "saturate_round ns m = (m', True)"
  shows "card {k \<in> fst ` set ns. \<not> bt_contains_key m' k} < card {k \<in> fst ` set ns. \<not> bt_contains_key m k}"
proof (rule psubset_card_mono)
  show "finite {k \<in> fst ` set ns. \<not> bt_contains_key m k}"
    by simp
  show "{k \<in> fst ` set ns. \<not> bt_contains_key m' k} \<subset> {k \<in> fst ` set ns. \<not> bt_contains_key m k}"
    using saturate_fold_grows [OF assms [unfolded saturate_round_def]] by blast
qed

function saturate ::
  "(RecursiveShareNodeKey, RecursiveShareNode) btree_map
     \<Rightarrow> (RecursiveShareNodeKey, RecursiveShareCandidate option) btree_map
     \<Rightarrow> (RecursiveShareNodeKey, RecursiveShareCandidate option) btree_map" where
  "saturate ns m =
     (case saturate_round ns m of (m', changed) \<Rightarrow> if changed then saturate ns m' else m')"
  by pat_completeness auto
termination
  by (relation "measure (\<lambda>(ns, m). card {k \<in> fst ` set ns. \<not> bt_contains_key m k})")
    (auto dest: sym [THEN saturate_round_progress])

declare saturate.simps [simp del]

section \<open>The evaluator\<close>

definition root_key :: "RecursiveShareAuthorizationRequest \<Rightarrow> RecursiveShareNodeKey" where
  "root_key request = (principal_id (rs_principal request), rs_action request)"

definition initial_graph :: "RecursiveShareAuthorizationRequest \<Rightarrow> share_graph" where
  "initial_graph request =
     \<lparr>depths = bt_insert (root_key request) 0 bt_empty, pending = [root_key request],
      nodes = bt_empty, recursive_edges = 0\<rparr>"

definition share_decision ::
  "RecursiveShareAuthorizationRequest \<Rightarrow> share_graph
     \<Rightarrow> (AuthorizationDecision, share_failure) result" where
  "share_decision request g =
     (let decide = (\<lambda>a r ids. \<lparr>allowed = a, reason = r, source_entries = ids,
                       generations = rs_generations request\<rparr>);
          allowed_keys = saturate (nodes g) (initially_allowed (nodes g)) in
      case bt_get (nodes g) (root_key request) of
        None \<Rightarrow> Err Panicked
      | Some node \<Rightarrow>
          (case denied node of
             Some (r, ids) \<Rightarrow> Ok (decide False r ids)
           | None \<Rightarrow>
               (case independent node of
                  Some (r, ids) \<Rightarrow> Ok (decide True r ids)
                | None \<Rightarrow>
                    (case bt_get allowed_keys (root_key request) of
                       Some (Some c) \<Rightarrow> Ok (decide True InheritedAllow [fst c])
                     | _ \<Rightarrow> Ok (decide False NoMatchingGrant [])))))"

definition evaluate_recursive_direct_shares ::
  "RecursiveShareAuthorizationRequest \<Rightarrow> (AuthorizationDecision, share_failure) result" where
  "evaluate_recursive_direct_shares request =
     (let creator_facts = collect_creator_facts (rs_creator_facts request) in
      and_then (collect_nodes request creator_facts (initial_graph request))
        (share_decision request))"

end
