(* ===== verification/Share_Fixpoint.thy ===== *)
theory Share_Fixpoint
  imports Recursive_Share
begin

text \<open>
  Correctness of \<open>evaluate_recursive_direct_shares\<close>. The specification is the inductive
  predicate \<open>share_proven\<close>: a principal holds an action when it is not denied and either has
  an independent grant, or a recursive share whose creator holds both SHARE and the action. The
  theory shows that the evaluator decides this predicate, never panics, returns a decision on
  every graph of moderate size, and agrees with \<open>evaluate\<close> where no recursive share occurs.
\<close>

declare split_paired_All [simp del] split_paired_Ex [simp del]

section \<open>Specification\<close>

definition share_node_at ::
  "RecursiveShareAuthorizationRequest \<Rightarrow> RecursiveShareNodeKey \<Rightarrow> RecursiveShareNode" where
  "share_node_at request key =
     (case recursive_share_subject (fst key) request
             (collect_creator_facts (rs_creator_facts request)) of
        None \<Rightarrow> default_node
      | Some subject \<Rightarrow> recursive_share_node subject (snd key) request)"

inductive share_proven ::
  "RecursiveShareAuthorizationRequest \<Rightarrow> RecursiveShareNodeKey \<Rightarrow> bool"
  for request :: RecursiveShareAuthorizationRequest where
  independent_root:
    "denied (share_node_at request key) = None \<Longrightarrow> independent (share_node_at request key) \<noteq> None
     \<Longrightarrow> share_proven request key"
| delegated:
    "denied (share_node_at request key) = None \<Longrightarrow> c \<in> set (candidates (share_node_at request key))
     \<Longrightarrow> share_proven request (snd c, Share) \<Longrightarrow> share_proven request (snd c, snd key)
     \<Longrightarrow> share_proven request key"

inductive_cases share_provenE: "share_proven request key"

definition successors ::
  "RecursiveShareAuthorizationRequest \<Rightarrow> RecursiveShareNodeKey \<Rightarrow> RecursiveShareNodeKey set" where
  "successors request key =
     (\<Union>c \<in> set (candidates (share_node_at request key)). {(snd c, Share), (snd c, snd key)})"

lemma recursive_share_node_exclusive:
  "denied (recursive_share_node s a q) \<noteq> None \<Longrightarrow>
     independent (recursive_share_node s a q) = None \<and> candidates (recursive_share_node s a q) = []"
  "independent (recursive_share_node s a q) \<noteq> None \<Longrightarrow>
     denied (recursive_share_node s a q) = None \<and> candidates (recursive_share_node s a q) = []"
  by (auto simp: recursive_share_node_def Let_def split: option.splits if_splits)

lemma share_node_at_exclusive:
  "denied (share_node_at q k) \<noteq> None \<Longrightarrow>
     independent (share_node_at q k) = None \<and> candidates (share_node_at q k) = []"
  "independent (share_node_at q k) \<noteq> None \<Longrightarrow>
     denied (share_node_at q k) = None \<and> candidates (share_node_at q k) = []"
  by (auto simp: share_node_at_def default_node_def recursive_share_node_exclusive
      split: option.splits)

section \<open>Collection\<close>

abbreviation known :: "share_graph \<Rightarrow> RecursiveShareNodeKey \<Rightarrow> bool" where
  "known g k \<equiv> bt_contains_key (depths g) k"

definition queue_inv :: "RecursiveShareNodeKey set \<Rightarrow> share_graph \<Rightarrow> bool" where
  "queue_inv V g \<longleftrightarrow>
     (\<forall>k. known g k \<longrightarrow> k \<in> set (pending g) \<or> k \<in> V) \<and> (\<forall>k \<in> set (pending g). known g k)"

lemma enqueue_known: "known (enqueue_recursive_share_node k d g) j \<longleftrightarrow> j = k \<or> known g j"
  by (auto simp: enqueue_recursive_share_node_def bt_contains_key_def split: option.splits)

lemma enqueue_queue_inv: "queue_inv V g \<Longrightarrow> queue_inv V (enqueue_recursive_share_node k d g)"
  by (auto simp: queue_inv_def enqueue_recursive_share_node_def bt_contains_key_def
      split: option.splits)

lemma follow_known:
  "known (follow_candidate act d c g) j \<longleftrightarrow> j = (c, Share) \<or> j = (c, act) \<or> known g j"
  by (auto simp: follow_candidate_def Let_def enqueue_known)

lemma follow_queue_inv: "queue_inv V g \<Longrightarrow> queue_inv V (follow_candidate act d c g)"
  by (simp add: follow_candidate_def Let_def enqueue_queue_inv)

lemma expand_known:
  assumes "expand_candidates act depth cs g = Ok g'"
  shows "known g' j \<longleftrightarrow> known g j \<or> (\<exists>c \<in> set cs. j = (snd c, Share) \<or> j = (snd c, act))"
  using assms by (induction cs arbitrary: g) (auto simp: follow_known split: if_splits)

lemma expand_queue_inv:
  assumes "expand_candidates act depth cs g = Ok g'" and "queue_inv V g"
  shows "queue_inv V g'"
  using assms
proof (induction cs arbitrary: g)
  case (Cons c cs)
  have "queue_inv V (g\<lparr>recursive_edges := recursive_edges g + 1\<rparr>)"
    using Cons.prems(2) by (simp add: queue_inv_def)
  with Cons show ?case
    by (auto split: if_splits intro: follow_queue_inv)
qed simp

definition graph_inv :: "RecursiveShareAuthorizationRequest \<Rightarrow> share_graph \<Rightarrow> bool" where
  "graph_inv q g \<longleftrightarrow>
     bt_invar (nodes g)
     \<and> (\<forall>k n. bt_get (nodes g) k = Some n \<longrightarrow>
          n = share_node_at q k \<and> (\<forall>j \<in> successors q k. known g j))
     \<and> queue_inv {k. bt_contains_key (nodes g) k} g
     \<and> known g (root_key q)"

lemma initial_graph_inv: "graph_inv q (initial_graph q)"
  by (simp add: graph_inv_def initial_graph_def queue_inv_def)

lemma graph_inv_skip:
  assumes "graph_inv q g" and "pending g = key # rest" and "bt_contains_key (nodes g) key"
  shows "graph_inv q (g\<lparr>pending := rest\<rparr>)"
  using assms by (auto simp: graph_inv_def queue_inv_def)

lemma graph_inv_visit:
  assumes inv: "graph_inv q g" and pend: "pending g = key # rest"
    and node: "node = share_node_at q key"
    and frame: "nodes g' = nodes g"
    and queue: "queue_inv (insert key {k. bt_contains_key (nodes g) k}) g'"
    and grow: "\<forall>j. known g j \<longrightarrow> known g' j"
    and succ: "\<forall>j \<in> successors q key. known g' j"
  shows "graph_inv q (g'\<lparr>nodes := bt_insert key node (nodes g')\<rparr>)"
proof -
  have "{k. k = key \<or> bt_contains_key (nodes g) k} = insert key {k. bt_contains_key (nodes g) k}"
    by auto
  with assms show ?thesis
    by (auto simp: graph_inv_def queue_inv_def)
qed

lemma queue_inv_pop:
  assumes "graph_inv q g" and "pending g = key # rest"
  shows "queue_inv (insert key {k. bt_contains_key (nodes g) k}) (g\<lparr>pending := rest\<rparr>)"
  using assms by (auto simp: graph_inv_def queue_inv_def)

lemma graph_inv_unknown:
  assumes "cf = collect_creator_facts (rs_creator_facts q)" and "graph_inv q g"
    and "pending g = key # rest" and "recursive_share_subject (fst key) q cf = None"
  shows "graph_inv q (g\<lparr>pending := rest, nodes := bt_insert key default_node (nodes g)\<rparr>)"
proof -
  have at: "share_node_at q key = default_node"
    using assms(1,4) by (simp add: share_node_at_def)
  then have "successors q key = {}"
    by (simp add: successors_def default_node_def)
  then show ?thesis
    using graph_inv_visit [OF assms(2,3) at [symmetric], of "g\<lparr>pending := rest\<rparr>"]
      queue_inv_pop [OF assms(2,3)]
    by simp
qed

lemma graph_inv_expand:
  assumes "cf = collect_creator_facts (rs_creator_facts q)" and "graph_inv q g"
    and "pending g = key # rest" and "recursive_share_subject (fst key) q cf = Some subject"
    and "expand_candidates (snd key) depth (candidates (recursive_share_node subject (snd key) q))
           (g\<lparr>pending := rest\<rparr>) = Ok g'"
  shows "graph_inv q
    (g'\<lparr>nodes := bt_insert key (recursive_share_node subject (snd key) q) (nodes g')\<rparr>)"
proof -
  have at: "share_node_at q key = recursive_share_node subject (snd key) q"
    using assms(1,4) by (simp add: share_node_at_def)
  note expanded = expand_known [OF assms(5)] expand_candidates_effort [OF assms(5)]
    expand_queue_inv [OF assms(5) queue_inv_pop [OF assms(2,3)]]
  show ?thesis
    using expanded
    by (intro graph_inv_visit [OF assms(2,3) at [symmetric]]) (auto simp: successors_def at)
qed

lemma collect_nodes_inv:
  assumes "cf = collect_creator_facts (rs_creator_facts q)" and "graph_inv q g"
  shows "collect_nodes q cf g \<noteq> Err Panicked
    \<and> (\<forall>g'. collect_nodes q cf g = Ok g' \<longrightarrow> graph_inv q g' \<and> pending g' = [])"
  using assms
proof (induction q cf g rule: collect_nodes.induct)
  case (1 q cf g)
  note prems = "1.prems"
  show ?case
  proof (cases "pending g")
    case Nil
    with prems(2) show ?thesis
      by (simp add: collect_nodes.simps [of q cf g])
  next
    case (Cons key rest)
    show ?thesis
    proof (cases "bt_contains_key (nodes g) key")
      case True
      with "1.IH"(1) [OF Cons True prems(1) graph_inv_skip [OF prems(2) Cons True]] Cons
      show ?thesis
        by (simp add: collect_nodes.simps [of q cf g])
    next
      case new: False
      show ?thesis
      proof (cases "recursive_share_subject (fst key) q cf")
        case None
        with "1.IH"(2) [OF Cons new None prems(1) graph_inv_unknown [OF prems Cons None]] Cons new
        show ?thesis
          by (simp add: collect_nodes.simps [of q cf g])
      next
        case (Some subject)
        have "known g key"
          using prems(2) Cons by (auto simp: graph_inv_def queue_inv_def)
        then obtain depth where depth: "bt_get (depths g) key = Some depth"
          by (auto simp: bt_contains_key_def)
        show ?thesis
        proof (cases "expand_candidates (snd key) depth
            (candidates (recursive_share_node subject (snd key) q)) (g\<lparr>pending := rest\<rparr>)")
          case (Err e)
          with Cons new Some depth show ?thesis
            by (simp add: collect_nodes.simps [of q cf g] Let_def)
        next
          case (Ok g')
          with "1.IH"(3) [OF Cons new Some refl depth Ok prems(1)
              graph_inv_expand [OF prems Cons Some Ok]] Cons new Some depth
          show ?thesis
            by (simp add: collect_nodes.simps [of q cf g] Let_def)
        qed
      qed
    qed
  qed
qed

lemma collected_graph:
  assumes "collect_nodes q (collect_creator_facts (rs_creator_facts q)) (initial_graph q) = Ok g"
  shows "bt_invar (nodes g)"
    and "bt_get (nodes g) k = Some n \<Longrightarrow> n = share_node_at q k"
    and "bt_contains_key (nodes g) k \<Longrightarrow> j \<in> successors q k \<Longrightarrow> bt_contains_key (nodes g) j"
    and "bt_contains_key (nodes g) (root_key q)"
proof -
  have "graph_inv q g" "pending g = []"
    using collect_nodes_inv [OF refl initial_graph_inv, of q] assms by auto
  then show "bt_invar (nodes g)"
    and "bt_get (nodes g) k = Some n \<Longrightarrow> n = share_node_at q k"
    and "bt_contains_key (nodes g) k \<Longrightarrow> j \<in> successors q k \<Longrightarrow> bt_contains_key (nodes g) j"
    and "bt_contains_key (nodes g) (root_key q)"
    by (auto simp: graph_inv_def queue_inv_def bt_contains_key_def)
qed

section \<open>Saturation\<close>

type_synonym proof_map = "(RecursiveShareNodeKey, RecursiveShareCandidate option) btree_map"

definition sound_map :: "RecursiveShareAuthorizationRequest \<Rightarrow> proof_map \<Rightarrow> bool" where
  "sound_map q m \<longleftrightarrow>
     (\<forall>k v. bt_get m k = Some v \<longrightarrow>
        share_proven q k \<and>
        (case v of
           None \<Rightarrow> independent (share_node_at q k) \<noteq> None
         | Some c \<Rightarrow> c \<in> set (candidates (share_node_at q k))
             \<and> share_proven q (snd c, Share) \<and> share_proven q (snd c, snd k)))"

definition closed_map ::
  "(RecursiveShareNodeKey, RecursiveShareNode) btree_map \<Rightarrow> proof_map \<Rightarrow> bool" where
  "closed_map ns m \<longleftrightarrow>
     (\<forall>(k, n) \<in> set ns. bt_contains_key m k \<or> denied n \<noteq> None
        \<or> (\<forall>c \<in> set (candidates n). \<not> recursive_share_candidate_is_proven c (snd k) m))"

lemma sound_map_proven: "sound_map q m \<Longrightarrow> bt_contains_key m k \<Longrightarrow> share_proven q k"
  by (auto simp: sound_map_def bt_contains_key_def)

lemma sound_map_None:
  "sound_map q m \<Longrightarrow> bt_get m k = Some None \<Longrightarrow> independent (share_node_at q k) \<noteq> None"
  unfolding sound_map_def by (drule spec [of _ k], drule spec [of _ None]) simp

lemma sound_map_Some:
  "sound_map q m \<Longrightarrow> bt_get m k = Some (Some c) \<Longrightarrow>
     c \<in> set (candidates (share_node_at q k))
     \<and> share_proven q (snd c, Share) \<and> share_proven q (snd c, snd k)"
  unfolding sound_map_def by (drule spec [of _ k], drule spec [of _ "Some c"]) simp

lemma candidate_proven_sound:
  assumes "sound_map q m" and "recursive_share_candidate_is_proven c a m"
  shows "share_proven q (snd c, Share) \<and> share_proven q (snd c, a)"
  using assms by (auto simp: recursive_share_candidate_is_proven_def dest: sound_map_proven)

lemma initially_allowed_fold:
  "bt_get (fold (\<lambda>(key, node) m.
       if denied node = None \<and> independent node \<noteq> None then bt_insert key None m else m) ns m) k =
     (if \<exists>n. (k, n) \<in> set ns \<and> denied n = None \<and> independent n \<noteq> None then Some None
      else bt_get m k)"
  by (induction ns arbitrary: m) (auto split: if_splits)

lemma initially_allowed_get:
  "bt_get (initially_allowed ns) k =
     (if \<exists>n. (k, n) \<in> set ns \<and> denied n = None \<and> independent n \<noteq> None then Some None else None)"
  unfolding initially_allowed_def initially_allowed_fold by simp

lemma initially_allowed_sound:
  assumes "\<forall>(k, n) \<in> set ns. n = share_node_at q k"
  shows "sound_map q (initially_allowed ns)"
proof -
  have "n = share_node_at q k" if "(k, n) \<in> set ns" for k n
    using assms that by auto
  then show ?thesis
    by (fastforce simp: sound_map_def initially_allowed_get split: if_splits
        intro: independent_root)
qed

lemma saturate_step_sound:
  assumes "sound_map q m" and "n = share_node_at q k"
    and step: "saturate_step (k, n) (m, ch) = (m', ch')"
  shows "sound_map q m'"
proof (cases "bt_contains_key m k \<or> denied n \<noteq> None")
  case True
  with step assms(1) show ?thesis
    by (auto simp: saturate_step_def)
next
  case False
  show ?thesis
  proof (cases "find (\<lambda>c. recursive_share_candidate_is_proven c (snd k) m) (candidates n)")
    case None
    with step assms(1) False show ?thesis
      by (auto simp: saturate_step_def)
  next
    case (Some c)
    then have c: "c \<in> set (candidates n)" "recursive_share_candidate_is_proven c (snd k) m"
      by (auto simp: find_Some_iff)
    note proven = candidate_proven_sound [OF assms(1) c(2)]
    have "share_proven q k"
      using False proven c(1) assms(2) by (auto intro: delegated)
    moreover have "m' = bt_insert k (Some c) m"
      using step Some False by (auto simp: saturate_step_def)
    ultimately show ?thesis
      using assms(1,2) proven c(1) by (auto simp: sound_map_def)
  qed
qed

lemma saturate_fold_sound:
  assumes "sound_map q m" and "\<forall>(k, n) \<in> set ns. n = share_node_at q k"
    and "fold saturate_step ns (m, ch) = (m', ch')"
  shows "sound_map q m'"
  using assms
proof (induction ns arbitrary: m ch)
  case (Cons kn ns)
  obtain k n where kn: "kn = (k, n)"
    by fastforce
  obtain m1 c1 where step: "saturate_step kn (m, ch) = (m1, c1)"
    by fastforce
  then have "sound_map q m1"
    using Cons.prems kn by (auto intro: saturate_step_sound)
  with Cons.IH [of m1 c1] Cons.prems step show ?case
    by auto
qed simp

lemma saturate_fold_unchanged:
  assumes "fold saturate_step ns (m, ch) = (m', False)" and "kn \<in> set ns"
  shows "saturate_step kn (m, False) = (m, False)"
  using assms
proof (induction ns arbitrary: m ch)
  case (Cons x ns)
  obtain m1 c1 where step: "saturate_step x (m, ch) = (m1, c1)"
    by fastforce
  with Cons.prems(1) have rest: "fold saturate_step ns (m1, c1) = (m', False)"
    by simp
  from saturate_fold_grows [OF this] saturate_step_grows [OF step]
  have "c1 = False" "ch = False" "m1 = m"
    by auto
  with Cons rest step show ?case
    by auto
qed simp

lemma saturate_step_unchanged:
  "saturate_step (k, n) (m, False) = (m, False) \<Longrightarrow>
     bt_contains_key m k \<or> denied n \<noteq> None
     \<or> (\<forall>c \<in> set (candidates n). \<not> recursive_share_candidate_is_proven c (snd k) m)"
  by (auto simp: saturate_step_def find_None_iff split: if_splits option.splits)

lemma saturate_correct:
  assumes "\<forall>(k, n) \<in> set ns. n = share_node_at q k" and "sound_map q m"
  shows "sound_map q (saturate ns m) \<and> closed_map ns (saturate ns m)
    \<and> (\<forall>k. bt_contains_key m k \<longrightarrow> bt_contains_key (saturate ns m) k)"
  using assms
proof (induction ns m rule: saturate.induct)
  case (1 ns m)
  obtain m' ch where round: "saturate_round ns m = (m', ch)"
    by fastforce
  then have fold: "fold saturate_step ns (m, False) = (m', ch)"
    by (simp add: saturate_round_def)
  have sound: "sound_map q m'"
    using saturate_fold_sound [OF "1.prems"(2,1) fold] .
  show ?case
  proof (cases ch)
    case True
    with round have "saturate ns m = saturate ns m'"
      by (simp add: saturate.simps [of ns m])
    with "1.IH" [OF round [symmetric] True "1.prems"(1) sound] saturate_fold_grows [OF fold]
    show ?thesis by auto
  next
    case False
    with fold have "m' = m"
      using saturate_fold_grows by blast
    moreover have "closed_map ns m"
      using fold False saturate_fold_unchanged saturate_step_unchanged
      by (fastforce simp: closed_map_def)
    moreover have "saturate ns m = m'"
      using round False by (simp add: saturate.simps [of ns m])
    ultimately show ?thesis
      using "1.prems"(2) by simp
  qed
qed

section \<open>Soundness and completeness\<close>

lemma collected_entries:
  assumes "collect_nodes q (collect_creator_facts (rs_creator_facts q)) (initial_graph q) = Ok g"
  shows "(k, n) \<in> set (nodes g) \<longleftrightarrow> bt_contains_key (nodes g) k \<and> n = share_node_at q k"
  using collected_graph(2) [OF assms, of k] bt_entries_get [OF collected_graph(1) [OF assms], of k n]
  by (auto simp: bt_contains_key_def)

lemma saturated_complete:
  assumes graph: "collect_nodes q (collect_creator_facts (rs_creator_facts q)) (initial_graph q) = Ok g"
    and closed: "closed_map (nodes g) m"
    and init: "\<forall>k. bt_contains_key (initially_allowed (nodes g)) k \<longrightarrow> bt_contains_key m k"
    and "share_proven q k" and "bt_contains_key (nodes g) k"
  shows "bt_contains_key m k"
  using assms(4,5)
proof (induction rule: share_proven.induct)
  case (independent_root key)
  then have "bt_contains_key (initially_allowed (nodes g)) key"
    by (auto simp: bt_contains_key_def initially_allowed_get collected_entries [OF graph])
  with init show ?case by simp
next
  case (delegated key c)
  have "(snd c, Share) \<in> successors q key" "(snd c, snd key) \<in> successors q key"
    using delegated.hyps by (auto simp: successors_def)
  with delegated collected_graph(3) [OF graph]
  have "recursive_share_candidate_is_proven c (snd key) m"
    by (simp add: recursive_share_candidate_is_proven_def)
  moreover have "(key, share_node_at q key) \<in> set (nodes g)"
    using delegated.prems by (simp add: collected_entries [OF graph])
  ultimately show ?case
    using closed delegated.hyps by (fastforce simp: closed_map_def)
qed

definition decide ::
  "RecursiveShareAuthorizationRequest \<Rightarrow> bool \<Rightarrow> DecisionReason \<Rightarrow> AclEntryId list
     \<Rightarrow> AuthorizationDecision" where
  "decide q a r ids =
     \<lparr>allowed = a, reason = r, source_entries = ids, generations = rs_generations q\<rparr>"

lemma share_decision_root:
  assumes "bt_get (nodes g) (root_key q) = Some n"
  shows "share_decision q g = Ok
    (case denied n of
       Some x \<Rightarrow> decide q False (fst x) (snd x)
     | None \<Rightarrow> case independent n of
         Some x \<Rightarrow> decide q True (fst x) (snd x)
       | None \<Rightarrow> case bt_get (saturate (nodes g) (initially_allowed (nodes g))) (root_key q) of
           Some (Some c) \<Rightarrow> decide q True InheritedAllow [fst c]
         | _ \<Rightarrow> decide q False NoMatchingGrant [])"
  using assms by (simp add: share_decision_def decide_def Let_def split: option.split prod.split)

lemma evaluator_outcome:
  assumes "evaluate_recursive_direct_shares q = Ok d"
  defines "n \<equiv> share_node_at q (root_key q)"
  shows "(\<exists>x. denied n = Some x \<and> d = decide q False (fst x) (snd x))
    \<or> (\<exists>x. denied n = None \<and> independent n = Some x \<and> d = decide q True (fst x) (snd x))
    \<or> (\<exists>c \<in> set (candidates n). denied n = None \<and> share_proven q (snd c, Share)
         \<and> share_proven q (snd c, rs_action q) \<and> d = decide q True InheritedAllow [fst c])
    \<or> \<not> share_proven q (root_key q) \<and> denied n = None \<and> d = decide q False NoMatchingGrant []"
proof -
  obtain g where graph:
      "collect_nodes q (collect_creator_facts (rs_creator_facts q)) (initial_graph q) = Ok g"
    and d: "share_decision q g = Ok d"
    using assms by (auto simp: evaluate_recursive_direct_shares_def Let_def result_simps)
  let ?m = "saturate (nodes g) (initially_allowed (nodes g))"
  have entries: "\<forall>(k, n) \<in> set (nodes g). n = share_node_at q k"
    using collected_entries [OF graph] by auto
  note sat = saturate_correct [OF entries initially_allowed_sound [OF entries]]
  have root: "bt_get (nodes g) (root_key q) = Some n"
    using collected_graph(2) [OF graph, of "root_key q"] collected_graph(4) [OF graph]
    by (auto simp: bt_contains_key_def n_def)
  have complete: "bt_get ?m (root_key q) = None \<Longrightarrow> \<not> share_proven q (root_key q)"
    using saturated_complete [OF graph] sat collected_graph(4) [OF graph]
    by (fastforce simp: bt_contains_key_def)
  have none: "bt_get ?m (root_key q) = Some None \<Longrightarrow> independent n \<noteq> None"
    using sat sound_map_None unfolding n_def by blast
  have some: "c \<in> set (candidates n) \<and> share_proven q (snd c, Share)
      \<and> share_proven q (snd c, rs_action q)" if "bt_get ?m (root_key q) = Some (Some c)" for c
    using sound_map_Some [OF conjunct1 [OF sat] that] by (simp add: n_def root_key_def)
  show ?thesis
    using d complete none some unfolding share_decision_root [OF root]
    by (auto split: option.splits)
qed

lemma evaluator_decides:
  assumes "evaluate_recursive_direct_shares q = Ok d"
  shows "allowed d \<longleftrightarrow> share_proven q (root_key q)"
proof -
  let ?n = "share_node_at q (root_key q)"
  have act: "snd (root_key q) = rs_action q"
    by (simp add: root_key_def)
  consider x where "denied ?n = Some x" "\<not> allowed d"
    | x where "denied ?n = None" "independent ?n = Some x" "allowed d"
    | c where "c \<in> set (candidates ?n)" "denied ?n = None" "share_proven q (snd c, Share)"
        "share_proven q (snd c, rs_action q)" "allowed d"
    | "\<not> share_proven q (root_key q)" "\<not> allowed d"
    using evaluator_outcome [OF assms] by (auto simp: decide_def)
  then show ?thesis
  proof cases
    case 1
    then have "\<not> share_proven q (root_key q)"
      by (auto elim: share_provenE)
    with 1 show ?thesis by simp
  next
    case 2
    then have "share_proven q (root_key q)"
      by (intro independent_root) simp_all
    with 2 show ?thesis by simp
  next
    case 3
    then have "share_proven q (root_key q)"
      by (auto simp: act intro: delegated [of q "root_key q" c])
    with 3 show ?thesis by simp
  qed simp
qed

lemma share_decision_Err:
  "share_decision q g = Err e \<Longrightarrow> bt_get (nodes g) (root_key q) = None"
  by (auto simp: share_decision_def Let_def split: option.splits prod.splits)

lemma evaluator_never_panics: "evaluate_recursive_direct_shares q \<noteq> Err Panicked"
proof
  assume "evaluate_recursive_direct_shares q = Err Panicked"
  then obtain g where
    "collect_nodes q (collect_creator_facts (rs_creator_facts q)) (initial_graph q) = Ok g"
    "share_decision q g = Err Panicked"
    using collect_nodes_inv [OF refl initial_graph_inv, of q]
    by (auto simp: evaluate_recursive_direct_shares_def Let_def result_simps)
  with collected_graph(4) [of q g] share_decision_Err show False
    by (auto simp: bt_contains_key_def)
qed

section \<open>Nodes in terms of entries\<close>

abbreviation rs_matches ::
  "RecursiveShareAuthorizationRequest \<Rightarrow> PrincipalContext \<Rightarrow> Action \<Rightarrow> ResolvedAclEntry \<Rightarrow> bool" where
  "rs_matches q ctx act \<equiv> entry_matches ctx (rs_resource q) act"

definition is_independent :: "RecursiveShareResolvedAclEntry \<Rightarrow> bool" where
  "is_independent p \<longleftrightarrow> provenance p = Independent"

definition share_candidates ::
  "(ResolvedAclEntry \<Rightarrow> bool) \<Rightarrow> RecursiveShareResolvedAclEntry list \<Rightarrow> RecursiveShareCandidate list" where
  "share_candidates M es =
     map (\<lambda>p. (acl_id (entry (resolved p)), acl_created_by (entry (resolved p))))
       (filter (\<lambda>p. M (resolved p) \<and> acl_effect (entry (resolved p)) = Allow
                \<and> provenance p = RecursiveDirectShare (acl_created_by (entry (resolved p)))) es)"

lemma share_candidates_simps [simp]:
  "share_candidates M [] = []"
  "share_candidates M (p # es) =
     (if M (resolved p) \<and> acl_effect (entry (resolved p)) = Allow
         \<and> provenance p = RecursiveDirectShare (acl_created_by (entry (resolved p)))
      then (acl_id (entry (resolved p)), acl_created_by (entry (resolved p))) # share_candidates M es
      else share_candidates M es)"
  by (auto simp: share_candidates_def)

lemma recursive_share_step_eq:
  "recursive_share_step subject act q p b =
     (if \<not> rs_matches q (fst subject) act (resolved p) then b
      else let e = entry (resolved p) in
        case acl_effect e of
          Deny \<Rightarrow> if is_direct (resolved p) then b\<lparr>direct_denies := direct_denies b @ [acl_id e]\<rparr>
                  else b\<lparr>inherited_denies := inherited_denies b @ [acl_id e]\<rparr>
        | Allow \<Rightarrow>
            (case provenance p of
               Independent \<Rightarrow>
                 if is_direct (resolved p) then b\<lparr>direct_allows := direct_allows b @ [acl_id e]\<rparr>
                 else b\<lparr>inherited_allows := inherited_allows b @ [acl_id e]\<rparr>
             | RecursiveDirectShare creator \<Rightarrow>
                 if acl_created_by e = creator then b\<lparr>found := found b @ [(acl_id e, creator)]\<rparr>
                 else b))"
  by (auto simp: recursive_share_step_def entry_matches_def Let_def)

lemma recursive_share_loop:
  "fold (recursive_share_step subject act q) es b =
     (let M = rs_matches q (fst subject) act;
          all = map resolved es;
          ind = map resolved (filter is_independent es) in
      \<lparr>direct_denies = direct_denies b @ bucket_ids M Deny True all,
       inherited_denies = inherited_denies b @ bucket_ids M Deny False all,
       direct_allows = direct_allows b @ bucket_ids M Allow True ind,
       inherited_allows = inherited_allows b @ bucket_ids M Allow False ind,
       found = found b @ share_candidates M es\<rparr>)"
proof (induction es arbitrary: b)
  case (Cons p es)
  show ?case
    by (cases "acl_effect (entry (resolved p))"; cases "is_direct (resolved p)"; cases "provenance p";
        cases "rs_matches q (fst subject) act (resolved p)")
      (simp_all add: Cons.IH recursive_share_step_eq [of subject act q p] Let_def is_independent_def)
qed (simp add: Let_def)

lemma recursive_share_node_eq:
  "recursive_share_node subject act q =
     (let M = rs_matches q (fst subject) act;
          all = set (map resolved (snd subject));
          ind = set (map resolved (filter is_independent (snd subject))) in
      case implicit_owner_reason (fst subject) (rs_drive_owner q) act of
        Some r \<Rightarrow> \<lparr>denied = None, independent = Some (r, []), candidates = []\<rparr>
      | None \<Rightarrow>
          if matched_ids M Deny UNIV all \<noteq> {} then
            \<lparr>denied = Some (if matched_ids M Deny {True} all = {} then InheritedDeny else ExplicitDeny,
                            sorted_list_of_set (matched_ids M Deny UNIV all)),
             independent = None, candidates = []\<rparr>
          else if matched_ids M Allow UNIV ind \<noteq> {} then
            \<lparr>denied = None,
             independent = Some (if matched_ids M Allow {True} ind = {} then InheritedAllow
                                 else ExplicitAllow,
                                 sorted_list_of_set (matched_ids M Allow UNIV ind)),
             candidates = []\<rparr>
          else \<lparr>denied = None, independent = None,
                candidates = sort_dedup (share_candidates M (snd subject))\<rparr>)"
  unfolding recursive_share_node_def recursive_share_loop no_share_ids_def Let_def
    canonicalize_ids_def sort_dedup_eq
  by (simp add: set_bucket_ids matched_ids_UNIV bucket_ids_Nil_iff split: option.splits)

section \<open>Abstract specification\<close>

text \<open>Who may do what, in terms of the entries alone.\<close>

definition share_subject ::
  "RecursiveShareAuthorizationRequest \<Rightarrow> PrincipalId \<Rightarrow> RecursiveShareSubject option" where
  "share_subject q p =
     recursive_share_subject p q (collect_creator_facts (rs_creator_facts q))"

definition no_deny ::
  "RecursiveShareAuthorizationRequest \<Rightarrow> RecursiveShareSubject \<Rightarrow> Action \<Rightarrow> bool" where
  "no_deny q subject act \<longleftrightarrow>
     (\<forall>p \<in> set (snd subject). rs_matches q (fst subject) act (resolved p) \<longrightarrow>
        acl_effect (entry (resolved p)) \<noteq> Deny)"

definition grants ::
  "RecursiveShareAuthorizationRequest \<Rightarrow> RecursiveShareSubject \<Rightarrow> Action
     \<Rightarrow> RecursiveShareResolvedAclEntry \<Rightarrow> bool" where
  "grants q subject act p \<longleftrightarrow>
     p \<in> set (snd subject) \<and> rs_matches q (fst subject) act (resolved p)
     \<and> acl_effect (entry (resolved p)) = Allow"

inductive holds :: "RecursiveShareAuthorizationRequest \<Rightarrow> PrincipalId \<Rightarrow> Action \<Rightarrow> bool"
  for q :: RecursiveShareAuthorizationRequest where
  owner:
    "share_subject q p = Some s \<Longrightarrow> implicit_owner_reason (fst s) (rs_drive_owner q) act \<noteq> None
     \<Longrightarrow> holds q p act"
| granted:
    "share_subject q p = Some s \<Longrightarrow> no_deny q s act \<Longrightarrow> grants q s act e
     \<Longrightarrow> provenance e = Independent \<Longrightarrow> holds q p act"
| shared:
    "share_subject q p = Some s \<Longrightarrow> no_deny q s act \<Longrightarrow> grants q s act e
     \<Longrightarrow> provenance e = RecursiveDirectShare creator \<Longrightarrow> acl_created_by (entry (resolved e)) = creator
     \<Longrightarrow> holds q creator Share \<Longrightarrow> holds q creator act \<Longrightarrow> holds q p act"

lemma share_node_at_Some:
  "share_subject q p = Some s \<Longrightarrow> share_node_at q (p, act) = recursive_share_node s act q"
  by (simp add: share_node_at_def share_subject_def)

lemma node_denied_iff:
  "denied (recursive_share_node s act q) \<noteq> None \<longleftrightarrow>
     implicit_owner_reason (fst s) (rs_drive_owner q) act = None \<and> \<not> no_deny q s act"
  by (auto simp: recursive_share_node_eq Let_def matched_ids_empty_iff no_deny_def
      split: option.splits)

lemma node_independent_iff:
  "independent (recursive_share_node s act q) \<noteq> None \<longleftrightarrow>
     implicit_owner_reason (fst s) (rs_drive_owner q) act \<noteq> None
     \<or> no_deny q s act \<and> (\<exists>e. grants q s act e \<and> provenance e = Independent)"
  by (auto simp: recursive_share_node_eq Let_def matched_ids_empty_iff no_deny_def grants_def
      is_independent_def split: option.splits)

lemma node_candidate_iff:
  "c \<in> set (candidates (recursive_share_node s act q)) \<longleftrightarrow>
     denied (recursive_share_node s act q) = None \<and> independent (recursive_share_node s act q) = None
     \<and> (\<exists>e. grants q s act e \<and> provenance e = RecursiveDirectShare (snd c)
          \<and> acl_created_by (entry (resolved e)) = snd c \<and> acl_id (entry (resolved e)) = fst c)"
  by (cases c) (auto simp: recursive_share_node_eq Let_def share_candidates_def grants_def
      split: option.splits)

lemma share_proven_holds: "share_proven q k \<Longrightarrow> holds q (fst k) (snd k)"
proof (induction rule: share_proven.induct)
  case (independent_root key)
  obtain p act where key: "key = (p, act)"
    by fastforce
  from independent_root(2) obtain s where s: "share_subject q p = Some s"
    by (cases "share_subject q p")
      (auto simp: key share_node_at_def share_subject_def default_node_def)
  with independent_root show ?case
    by (auto simp: key share_node_at_Some node_independent_iff simp del: not_None_eq
        intro: owner granted)
next
  case (delegated key c)
  obtain p act where key: "key = (p, act)"
    by fastforce
  from delegated(2) obtain s where s: "share_subject q p = Some s"
    by (cases "share_subject q p")
      (auto simp: key share_node_at_def share_subject_def default_node_def)
  from delegated(1,2) s obtain e where "grants q s act e" "provenance e = RecursiveDirectShare (snd c)"
    "acl_created_by (entry (resolved e)) = snd c"
    by (auto simp: key share_node_at_Some node_candidate_iff)
  moreover have "no_deny q s act \<or> implicit_owner_reason (fst s) (rs_drive_owner q) act \<noteq> None"
    using delegated(1) s node_denied_iff [of s act q] by (auto simp: key share_node_at_Some)
  ultimately show ?case
    using s delegated.IH by (auto simp: key simp del: not_None_eq intro: owner shared)
qed

lemma holds_share_proven: "holds q p act \<Longrightarrow> share_proven q (p, act)"
proof (induction rule: holds.induct)
  case (owner p s act)
  then show ?case
    using node_denied_iff [of s act q] node_independent_iff [of s act q]
    by (intro independent_root) (auto simp: share_node_at_Some)
next
  case (granted p s act e)
  then show ?case
    using node_denied_iff [of s act q] node_independent_iff [of s act q]
    by (intro independent_root) (auto simp: share_node_at_Some)
next
  case (shared p s act e creator)
  let ?n = "recursive_share_node s act q"
  have "denied ?n = None"
    using shared node_denied_iff [of s act q] by auto
  show ?case
  proof (cases "independent ?n")
    case None
    with shared \<open>denied ?n = None\<close> have "(acl_id (entry (resolved e)), creator) \<in> set (candidates ?n)"
      by (auto simp: node_candidate_iff)
    with shared \<open>denied ?n = None\<close> show ?thesis
      by (intro delegated [of q "(p, act)" "(acl_id (entry (resolved e)), creator)"])
        (auto simp: share_node_at_Some)
  next
    case (Some x)
    with shared \<open>denied ?n = None\<close> show ?thesis
      by (intro independent_root) (auto simp: share_node_at_Some)
  qed
qed

lemma share_proven_iff_holds: "share_proven q (p, act) \<longleftrightarrow> holds q p act"
  using share_proven_holds [of q "(p, act)"] holds_share_proven by auto

end
