(* ===== verification/Share_Limits.thy ===== *)
theory Share_Limits
  imports Share_Fixpoint
begin

text \<open>
  When the recursive-share evaluator answers: the graph that one request can span, the two limits
  of \<open>evaluate_recursive_direct_shares\<close>, and the request sizes below which neither limit is
  reached. Then the agreement with the plain evaluator on requests without recursive shares, and
  the properties of the evaluator.
\<close>

section \<open>The size of the graph\<close>

definition share_principals :: "RecursiveShareAuthorizationRequest \<Rightarrow> PrincipalId set" where
  "share_principals q = insert (principal_id (rs_principal q))
     ((\<lambda>f. principal_id (facts_principal f)) ` set (rs_creator_facts q))"

definition share_keys :: "RecursiveShareAuthorizationRequest \<Rightarrow> RecursiveShareNodeKey set" where
  "share_keys q = share_principals q \<times> {Share, rs_action q}"

definition edge_weight :: "RecursiveShareAuthorizationRequest \<Rightarrow> RecursiveShareNodeKey \<Rightarrow> nat" where
  "edge_weight q k = length (candidates (share_node_at q k))"

definition entry_count :: "RecursiveShareAuthorizationRequest \<Rightarrow> nat" where
  "entry_count q = length (rs_entries q) + sum_list (map (\<lambda>f. length (facts_entries f)) (rs_creator_facts q))"

definition visited :: "share_graph \<Rightarrow> RecursiveShareNodeKey set" where
  "visited g = {k. bt_contains_key (nodes g) k}"

definition size_inv :: "RecursiveShareAuthorizationRequest \<Rightarrow> share_graph \<Rightarrow> bool" where
  "size_inv q g \<longleftrightarrow>
     recursive_edges g = sum (edge_weight q) (visited g)
     \<and> (\<forall>k. known g k \<or> k \<in> visited g \<longrightarrow> snd k \<in> {Share, rs_action q})
     \<and> (\<forall>k d. bt_get (depths g) k = Some d \<longrightarrow> d \<le> card (visited g \<inter> share_keys q))"

lemma finite_share_keys [simp]: "finite (share_keys q)"
  by (simp add: share_keys_def share_principals_def)

lemma finite_visited [simp]: "finite (visited g)"
proof -
  have "visited g \<subseteq> fst ` set (nodes g)"
    by (auto simp: visited_def bt_contains_key_def bt_get_def dest!: map_of_SomeD
        intro: rev_image_eqI)
  then show ?thesis
    by (rule finite_subset) simp
qed

lemma card_share_keys: "card (share_keys q) \<le> 2 * (length (rs_creator_facts q) + 1)"
proof -
  have "card ((\<lambda>f. principal_id (facts_principal f)) ` set (rs_creator_facts q)) \<le> length (rs_creator_facts q)"
    by (rule order_trans [OF card_image_le card_length]) simp
  then have "card (share_principals q) \<le> Suc (length (rs_creator_facts q))"
    by (simp add: share_principals_def card_insert_if)
  moreover have "card {Share, rs_action q} \<le> 2"
    by (simp add: card_insert_if)
  ultimately have "card (share_principals q) * card {Share, rs_action q} \<le> Suc (length (rs_creator_facts q)) * 2"
    by (rule mult_le_mono)
  then show ?thesis
    by (simp add: share_keys_def card_cartesian_product)
qed

lemma collect_creator_facts_get:
  assumes "bt_get (collect_creator_facts fs) p = Some (Some f)"
  shows "f \<in> set fs \<and> principal_id (facts_principal f) = p"
proof -
  have "bt_get (fold g fs m) p = Some (Some f) \<Longrightarrow>
      (f \<in> set fs \<and> principal_id (facts_principal f) = p) \<or> bt_get m p = Some (Some f)"
    if "g = (\<lambda>facts m. let principal = principal_id (facts_principal facts) in
         case bt_get m principal of
           None \<Rightarrow> bt_insert principal (Some facts) m
         | Some _ \<Rightarrow> bt_insert principal None m)" for g m
    by (induction fs arbitrary: m)
      (force simp: that Let_def split: option.splits if_splits)+
  from this [OF refl, of bt_empty] assms show ?thesis
    by (simp add: collect_creator_facts_def)
qed

lemma share_subject_cases:
  assumes "share_subject q p = Some s"
  shows "p = principal_id (rs_principal q) \<and> s = (rs_principal q, rs_entries q)
    \<or> p \<noteq> principal_id (rs_principal q)
      \<and> (\<exists>f \<in> set (rs_creator_facts q). principal_id (facts_principal f) = p
           \<and> s = (facts_principal f, facts_entries f))"
  using assms collect_creator_facts_get [of "rs_creator_facts q" p]
  by (auto simp: share_subject_def recursive_share_subject_def split: if_splits option.splits)

lemma share_subject_principals: "share_subject q p = Some s \<Longrightarrow> p \<in> share_principals q"
  using share_subject_cases [of q p s] by (auto simp: share_principals_def)

lemma edge_weight_zero: "p \<notin> share_principals q \<Longrightarrow> edge_weight q (p, act) = 0"
  using share_subject_principals [of q p]
  by (cases "share_subject q p")
    (auto simp: edge_weight_def share_node_at_def share_subject_def default_node_def)

lemma length_sort_dedup: "length (sort_dedup xs) \<le> length xs"
  unfolding sort_dedup_def by (rule order_trans [OF remdups_adj_length]) simp

lemma length_share_candidates: "length (share_candidates M es) \<le> length es"
  by (simp add: share_candidates_def)

lemma edge_weight_le:
  assumes "share_subject q p = Some s"
  shows "edge_weight q (p, act) \<le> length (snd s)"
proof -
  let ?cs = "share_candidates (rs_matches q (fst s) act) (snd s)"
  have "length (sort_dedup ?cs) \<le> length (snd s)"
    by (rule order_trans [OF length_sort_dedup length_share_candidates])
  then show ?thesis
    unfolding edge_weight_def share_node_at_Some [OF assms] recursive_share_node_eq Let_def
    by (simp split: option.split)
qed

lemma sum_filter_le:
  assumes "finite P"
  shows "(\<Sum>p \<in> P. sum_list (map len (filter (\<lambda>f. pr f = p) fs))) \<le> sum_list (map (len :: 'a \<Rightarrow> nat) fs)"
proof (induction fs)
  case (Cons f fs)
  have "(\<Sum>p \<in> P. sum_list (map len (filter (\<lambda>f. pr f = p) (f # fs)))) =
      (\<Sum>p \<in> P. (if pr f = p then len f else 0) + sum_list (map len (filter (\<lambda>f. pr f = p) fs)))"
    by (rule sum.cong) auto
  also have "\<dots> \<le> len f + sum_list (map len fs)"
    unfolding sum.distrib using Cons.IH assms by (intro add_mono) simp_all
  finally show ?case by simp
qed simp

lemma edge_weight_principal:
  "edge_weight q (p, act) \<le>
     (if p = principal_id (rs_principal q) then length (rs_entries q) else 0)
     + sum_list (map (\<lambda>f. length (facts_entries f))
         (filter (\<lambda>f. principal_id (facts_principal f) = p) (rs_creator_facts q)))"
proof (cases "share_subject q p")
  case None
  then show ?thesis
    by (simp add: edge_weight_def share_node_at_def share_subject_def default_node_def)
next
  case (Some s)
  have "length (facts_entries f) \<le> sum_list (map (\<lambda>f. length (facts_entries f))
      (filter (\<lambda>f. principal_id (facts_principal f) = p) (rs_creator_facts q)))"
    if "f \<in> set (rs_creator_facts q)" "principal_id (facts_principal f) = p" for f
    using that by (intro member_le_sum_list) auto
  with edge_weight_le [OF Some, of act] share_subject_cases [OF Some] show ?thesis
    by (fastforce intro: order_trans)
qed

lemma total_edge_weight: "sum (edge_weight q) (share_keys q) \<le> 2 * entry_count q"
proof -
  let ?P = "share_principals q" and ?A = "{Share, rs_action q}"
  let ?w = "\<lambda>p. (if p = principal_id (rs_principal q) then length (rs_entries q) else 0)
     + sum_list (map (\<lambda>f. length (facts_entries f))
         (filter (\<lambda>f. principal_id (facts_principal f) = p) (rs_creator_facts q)))"
  have fin: "finite ?P"
    by (simp add: share_principals_def)
  have "sum (edge_weight q) (share_keys q) = (\<Sum>p \<in> ?P. \<Sum>act \<in> ?A. edge_weight q (p, act))"
    by (simp add: share_keys_def sum.cartesian_product)
  also have "\<dots> \<le> (\<Sum>p \<in> ?P. 2 * ?w p)"
  proof (rule sum_mono)
    fix p
    have "(\<Sum>act \<in> ?A. edge_weight q (p, act)) \<le> of_nat (card ?A) * ?w p"
      by (rule sum_bounded_above) (rule edge_weight_principal)
    also have "\<dots> \<le> 2 * ?w p"
      by (rule mult_le_mono1) (simp add: card_insert_if)
    finally show "(\<Sum>act \<in> ?A. edge_weight q (p, act)) \<le> 2 * ?w p" .
  qed
  also have "\<dots> = 2 * sum ?w ?P"
    by (simp only: sum_distrib_left)
  also have "sum ?w ?P \<le> entry_count q"
    unfolding sum.distrib entry_count_def using fin
    by (intro add_mono sum_filter_le) (simp_all add: share_principals_def)
  finally show ?thesis by simp
qed

section \<open>The limits are not reached on small requests\<close>

lemma expand_candidates_succeeds:
  assumes "recursive_edges g + length cs \<le> MAX_RECURSIVE_SHARE_EDGES"
    and "depth + 1 \<le> MAX_RECURSIVE_SHARE_DELEGATION_DEPTH"
  shows "\<exists>g'. expand_candidates act depth cs g = Ok g'"
  using assms by (induction cs arbitrary: g) auto

lemma enqueue_depth:
  "bt_get (depths (enqueue_recursive_share_node k d g)) j = Some e \<Longrightarrow>
     e = d \<or> bt_get (depths g) j = Some e"
  by (auto simp: enqueue_recursive_share_node_def split: if_splits)

lemma follow_depth:
  "bt_get (depths (follow_candidate act d c g)) j = Some e \<Longrightarrow>
     e = d \<or> bt_get (depths g) j = Some e"
  by (auto simp: follow_candidate_def Let_def split: if_splits dest!: enqueue_depth)

lemma expand_depth:
  assumes "expand_candidates act depth cs g = Ok g'" and "bt_get (depths g') j = Some e"
  shows "e = depth + 1 \<or> bt_get (depths g) j = Some e"
  using assms by (induction cs arbitrary: g) (fastforce split: if_splits dest: follow_depth)+

lemma visited_weight:
  assumes "size_inv q g" and "k \<notin> visited g" and "snd k \<in> {Share, rs_action q}"
  shows "recursive_edges g + edge_weight q k \<le> 2 * entry_count q"
proof -
  let ?V = "insert k (visited g)"
  have "recursive_edges g + edge_weight q k = sum (edge_weight q) ?V"
    using assms(1,2) by (simp add: size_inv_def)
  also have "\<dots> = sum (edge_weight q) (?V \<inter> share_keys q)"
  proof (rule sum.mono_neutral_right)
    show "\<forall>j \<in> ?V - ?V \<inter> share_keys q. edge_weight q j = 0"
    proof
      fix j assume j: "j \<in> ?V - ?V \<inter> share_keys q"
      then have "snd j \<in> {Share, rs_action q}"
        using assms(1,3) unfolding size_inv_def by blast
      with j have "fst j \<notin> share_principals q"
        by (cases j) (auto simp: share_keys_def)
      then show "edge_weight q j = 0"
        using edge_weight_zero [of "fst j" q "snd j"] by simp
    qed
  qed auto
  also have "\<dots> \<le> sum (edge_weight q) (share_keys q)"
    by (rule sum_mono2) auto
  also note total_edge_weight
  finally show ?thesis .
qed

lemma visited_insert:
  "visited (g\<lparr>nodes := bt_insert k n (nodes g)\<rparr>) = insert k (visited g)"
  by (auto simp: visited_def)

lemma initial_size_inv: "size_inv q (initial_graph q)"
  by (auto simp: size_inv_def initial_graph_def visited_def root_key_def bt_contains_key_def)

lemma size_inv_visit:
  assumes inv: "size_inv q g" and key: "key \<notin> visited g" "known g key"
    and frame: "nodes g' = nodes g" "recursive_edges g' = recursive_edges g + edge_weight q key"
    and acts: "\<forall>k. known g' k \<longrightarrow> known g k \<or> snd k \<in> {Share, snd key}"
    and deep: "\<forall>k d. bt_get (depths g') k = Some d \<longrightarrow> bt_get (depths g) k = Some d
      \<or> key \<in> share_keys q \<and> d \<le> Suc (card (visited g \<inter> share_keys q))"
  shows "size_inv q (g'\<lparr>nodes := bt_insert key n (nodes g')\<rparr>)"
proof -
  have V: "visited g' = visited g"
    by (simp add: visited_def frame)
  have sum: "recursive_edges g' = sum (edge_weight q) (insert key (visited g))"
    using inv key(1) frame(2) by (simp add: size_inv_def)
  have act: "snd k \<in> {Share, rs_action q}" if "known g k \<or> k \<in> visited g" for k
    using inv that unfolding size_inv_def by blast
  have card: "card (visited g \<inter> share_keys q) \<le> card (insert key (visited g) \<inter> share_keys q)"
    by (rule card_mono) auto
  have card': "Suc (card (visited g \<inter> share_keys q)) = card (insert key (visited g) \<inter> share_keys q)"
    if "key \<in> share_keys q"
    using that key(1) by simp
  have "d \<le> card (insert key (visited g) \<inter> share_keys q)" if got: "bt_get (depths g') k = Some d" for k d
  proof -
    consider "bt_get (depths g) k = Some d"
      | "key \<in> share_keys q" "d \<le> Suc (card (visited g \<inter> share_keys q))"
      using deep got by blast
    then show ?thesis
    proof cases
      case 1
      then have "d \<le> card (visited g \<inter> share_keys q)"
        using inv unfolding size_inv_def by blast
      with card show ?thesis by (rule order_trans [rotated])
    next
      case 2
      then show ?thesis using card' by simp
    qed
  qed
  moreover have "snd k \<in> {Share, rs_action q}" if "known g' k \<or> k \<in> insert key (visited g)" for k
    using that spec [OF acts, of k] act [of k] act [of key] key(2) by auto
  ultimately show ?thesis
    using sum unfolding size_inv_def visited_insert V by simp
qed

lemma visited_depth:
  assumes "size_inv q g" and "bt_get (depths g) key = Some depth"
    and "key \<notin> visited g" and "key \<in> share_keys q"
  shows "depth + 1 \<le> card (share_keys q)"
proof -
  have "depth \<le> card (visited g \<inter> share_keys q)"
    using assms(1,2) unfolding size_inv_def by blast
  moreover have "card (visited g \<inter> share_keys q) < card (share_keys q)"
    using assms(3,4) by (intro psubset_card_mono) auto
  ultimately show ?thesis by simp
qed

definition moderate :: "RecursiveShareAuthorizationRequest \<Rightarrow> bool" where
  "moderate q \<longleftrightarrow>
     2 * (length (rs_creator_facts q) + 1) \<le> MAX_RECURSIVE_SHARE_DELEGATION_DEPTH
     \<and> 2 * entry_count q \<le> MAX_RECURSIVE_SHARE_EDGES"

lemma expand_moderate:
  assumes "moderate q" and "size_inv q g" and "bt_get (depths g) key = Some depth"
    and "key \<notin> visited g" and "share_subject q (fst key) = Some subject"
    and "node = recursive_share_node subject (snd key) q"
  obtains g' where "expand_candidates (snd key) depth (candidates node) (g\<lparr>pending := rest\<rparr>) = Ok g'"
    and "size_inv q (g'\<lparr>nodes := bt_insert key node (nodes g')\<rparr>)"
proof -
  have known: "known g key"
    using assms(3) by (simp add: bt_contains_key_def)
  then have act: "snd key \<in> {Share, rs_action q}"
    using assms(2) unfolding size_inv_def by blast
  then have key: "key \<in> share_keys q"
    using share_subject_principals [OF assms(5)] by (cases key) (simp add: share_keys_def)
  have weight: "edge_weight q key = length (candidates node)"
    using share_node_at_Some [OF assms(5), of "snd key"] by (simp add: edge_weight_def assms(6))
  have "depth + 1 \<le> MAX_RECURSIVE_SHARE_DELEGATION_DEPTH"
    using visited_depth [OF assms(2,3,4) key] card_share_keys [of q] assms(1)
    by (simp add: moderate_def)
  moreover have "recursive_edges g + length (candidates node) \<le> MAX_RECURSIVE_SHARE_EDGES"
    using visited_weight [OF assms(2,4) act] assms(1) by (simp add: weight moderate_def)
  ultimately obtain g' where
    ok: "expand_candidates (snd key) depth (candidates node) (g\<lparr>pending := rest\<rparr>) = Ok g'"
    using expand_candidates_succeeds [of "g\<lparr>pending := rest\<rparr>" "candidates node" depth "snd key"]
    by auto
  have "size_inv q (g'\<lparr>nodes := bt_insert key node (nodes g')\<rparr>)"
  proof (rule size_inv_visit [OF assms(2,4) known])
    show "nodes g' = nodes g" "recursive_edges g' = recursive_edges g + edge_weight q key"
      using expand_candidates_effort [OF ok] by (simp_all add: weight)
    show "\<forall>k d. bt_get (depths g') k = Some d \<longrightarrow> bt_get (depths g) k = Some d
      \<or> key \<in> share_keys q \<and> d \<le> Suc (card (visited g \<inter> share_keys q))"
    proof (intro allI impI)
      fix k d assume "bt_get (depths g') k = Some d"
      moreover have "depth \<le> card (visited g \<inter> share_keys q)"
        using assms(2,3) unfolding size_inv_def by blast
      ultimately show "bt_get (depths g) k = Some d
        \<or> key \<in> share_keys q \<and> d \<le> Suc (card (visited g \<inter> share_keys q))"
        using expand_depth [OF ok, of k d] key by auto
    qed
    show "\<forall>k. known g' k \<longrightarrow> known g k \<or> snd k \<in> {Share, snd key}"
      using expand_known [OF ok] by auto
  qed
  with ok show ?thesis by (rule that)
qed

lemma collect_moderate:
  assumes "cf = collect_creator_facts (rs_creator_facts q)" and "moderate q"
    and "graph_inv q g" and "size_inv q g"
  shows "\<exists>g'. collect_nodes q cf g = Ok g'"
  using assms
proof (induction q cf g rule: collect_nodes.induct)
  case (1 q cf g)
  note prems = "1.prems"
  show ?case
  proof (cases "pending g")
    case Nil
    then show ?thesis by (simp add: collect_nodes.simps [of q cf g])
  next
    case (Cons key rest)
    have known: "known g key"
      using prems(3) Cons by (auto simp: graph_inv_def queue_inv_def)
    show ?thesis
    proof (cases "bt_contains_key (nodes g) key")
      case True
      have "size_inv q (g\<lparr>pending := rest\<rparr>)"
        using prems(4) by (simp add: size_inv_def visited_def)
      with "1.IH"(1) [OF Cons True prems(1,2) graph_inv_skip [OF prems(3) Cons True]] Cons True
      show ?thesis by (simp add: collect_nodes.simps [of q cf g])
    next
      case new: False
      then have fresh: "key \<notin> visited g" by (simp add: visited_def)
      show ?thesis
      proof (cases "recursive_share_subject (fst key) q cf")
        case None
        let ?g = "g\<lparr>pending := rest, nodes := bt_insert key default_node (nodes g)\<rparr>"
        have "edge_weight q key = 0"
          using None prems(1) by (simp add: edge_weight_def share_node_at_def default_node_def)
        then have "size_inv q ?g"
          using size_inv_visit [OF prems(4) fresh known, of "g\<lparr>pending := rest\<rparr>" default_node]
          by simp
        with "1.IH"(2) [OF Cons new None prems(1,2) graph_inv_unknown [OF prems(1,3) Cons None]]
          Cons new None
        show ?thesis by (simp add: collect_nodes.simps [of q cf g])
      next
        case (Some subject)
        obtain depth where depth: "bt_get (depths g) key = Some depth"
          using known by (auto simp: bt_contains_key_def)
        have subject: "share_subject q (fst key) = Some subject"
          using Some prems(1) by (simp add: share_subject_def)
        obtain g' where ok: "expand_candidates (snd key) depth
            (candidates (recursive_share_node subject (snd key) q)) (g\<lparr>pending := rest\<rparr>) = Ok g'"
          and size: "size_inv q (g'\<lparr>nodes := bt_insert key
            (recursive_share_node subject (snd key) q) (nodes g')\<rparr>)"
          by (rule expand_moderate [OF prems(2,4) depth fresh subject refl])
        show ?thesis
          using "1.IH"(3) [OF Cons new Some refl depth ok prems(1,2)
            graph_inv_expand [OF prems(1,3) Cons Some ok] size] Cons new Some depth ok
          by (simp add: collect_nodes.simps [of q cf g] Let_def)
      qed
    qed
  qed
qed

lemma evaluator_answers:
  assumes "moderate q"
  shows "\<exists>d. evaluate_recursive_direct_shares q = Ok d"
proof -
  obtain g where g: "collect_nodes q (collect_creator_facts (rs_creator_facts q)) (initial_graph q) = Ok g"
    using collect_moderate [OF refl assms initial_graph_inv initial_size_inv] by blast
  moreover have "\<exists>d. share_decision q g = Ok d"
  proof (cases "share_decision q g")
    case (Err e)
    then have "bt_get (nodes g) (root_key q) = None"
      by (rule share_decision_Err)
    with collected_graph(4) [OF g] show ?thesis
      by (simp add: bt_contains_key_def)
  qed simp
  ultimately show ?thesis
    by (simp add: evaluate_recursive_direct_shares_def Let_def)
qed

section \<open>Requests without recursive shares\<close>

definition plain_request :: "RecursiveShareAuthorizationRequest \<Rightarrow> AuthorizationRequest" where
  "plain_request q =
     \<lparr>req_principal = rs_principal q, req_resource = rs_resource q,
      req_drive_owner = rs_drive_owner q, req_action = rs_action q,
      req_entries = map resolved (rs_entries q), req_generations = rs_generations q\<rparr>"

lemma share_subject_root: "share_subject q (principal_id (rs_principal q)) = Some (rs_principal q, rs_entries q)"
  by (simp add: share_subject_def recursive_share_subject_def)

lemma share_node_root:
  "share_node_at q (root_key q) = recursive_share_node (rs_principal q, rs_entries q) (rs_action q) q"
  unfolding root_key_def by (rule share_node_at_Some [OF share_subject_root])

lemma independent_entries_node:
  assumes "\<forall>e \<in> set (rs_entries q). provenance e = Independent"
  shows "candidates (share_node_at q (root_key q)) = []"
    and "filter is_independent (rs_entries q) = rs_entries q"
  using assms
  by (auto simp: share_node_root recursive_share_node_eq Let_def share_candidates_def
      is_independent_def sort_dedup_def filter_id_conv split: option.split)

lemma collect_single:
  assumes "candidates (share_node_at q (root_key q)) = []"
  shows "collect_nodes q (collect_creator_facts (rs_creator_facts q)) (initial_graph q) =
    Ok ((initial_graph q)\<lparr>pending := [],
          nodes := bt_insert (root_key q) (share_node_at q (root_key q)) bt_empty\<rparr>)"
proof -
  have "recursive_share_subject (fst (root_key q)) q (collect_creator_facts (rs_creator_facts q)) =
      Some (rs_principal q, rs_entries q)"
    by (simp add: root_key_def recursive_share_subject_def)
  then show ?thesis
    using assms
    by (simp add: collect_nodes.simps [of q _ "initial_graph q"] initial_graph_def Let_def
        share_node_root)
      (simp add: collect_nodes.simps root_key_def)
qed

lemma evaluator_single:
  assumes "candidates (share_node_at q (root_key q)) = []"
  shows "\<exists>d. evaluate_recursive_direct_shares q = Ok d"
  using share_decision_root [of "(initial_graph q)\<lparr>pending := [],
      nodes := bt_insert (root_key q) (share_node_at q (root_key q)) bt_empty\<rparr>" q]
  by (simp add: evaluate_recursive_direct_shares_def Let_def collect_single [OF assms])

lemma plain_decision:
  assumes "\<forall>e \<in> set (rs_entries q). provenance e = Independent"
    and ok: "evaluate_recursive_direct_shares q = Ok d"
  shows "d = evaluate (plain_request q)"
proof -
  let ?n = "recursive_share_node (rs_principal q, rs_entries q) (rs_action q) q"
  have none: "candidates ?n = []"
    using independent_entries_node(1) [OF assms(1)] by (simp add: share_node_root)
  have "d = (case denied ?n of Some x \<Rightarrow> decide q False (fst x) (snd x)
      | None \<Rightarrow> case independent ?n of Some x \<Rightarrow> decide q True (fst x) (snd x)
      | None \<Rightarrow> decide q False NoMatchingGrant [])"
  proof (cases "independent ?n")
    case None
    then show ?thesis
      using evaluator_outcome [OF ok] none by (auto simp: share_node_root)
  next
    case (Some x)
    moreover have "denied ?n = None"
      using recursive_share_node_exclusive(2) [of "(rs_principal q, rs_entries q)"] Some by simp
    moreover from this have "share_proven q (root_key q)"
      using Some by (intro independent_root) (simp_all add: share_node_root)
    ultimately show ?thesis
      using evaluator_outcome [OF ok] none by (auto simp: share_node_root)
  qed
  then show ?thesis
    using independent_entries_node(2) [OF assms(1)]
    by (simp add: evaluate_eq_acl_spec acl_spec_def req_owner_def plain_request_def
        recursive_share_node_eq Let_def decide_def split: option.splits)
qed

section \<open>Properties\<close>

text \<open>A sample: principal 1 has read access by a share of principal 2, who has both authorities by
  shares of \<open>granter\<close>; principal 3 has no entries and the drive is owned by
  \<open>owner\<close>.\<close>

definition share_entry :: "AclEntryId \<Rightarrow> PrincipalId \<Rightarrow> Action \<Rightarrow> PrincipalId \<Rightarrow> ResolvedAclEntry" where
  "share_entry i p act creator = direct
     \<lparr>acl_id = i, acl_resource = Node 1, acl_principal = p, acl_action = act,
      acl_effect = Allow, acl_inheritance = Descendants, acl_generation = 1,
      acl_created_by = creator\<rparr>"

definition share_chain :: "PrincipalId \<Rightarrow> PrincipalId \<Rightarrow> RecursiveShareAuthorizationRequest" where
  "share_chain owner granter =
     \<lparr>rs_principal = principal_context_new 1 [], rs_resource = Node 1,
      rs_drive_owner = User owner, rs_action = ReadContent,
      rs_entries = [recursive_direct_share (share_entry 20 1 ReadContent 2) 2,
                    recursive_direct_share (share_entry 21 1 Share 2) 2],
      rs_creator_facts =
        [\<lparr>facts_principal = principal_context_new 2 [],
          facts_entries = [recursive_direct_share (share_entry 22 2 Share granter) granter,
                           recursive_direct_share (share_entry 23 2 ReadContent granter) granter]\<rparr>,
         \<lparr>facts_principal = principal_context_new 3 [], facts_entries = []\<rparr>],
      rs_generations = \<lparr>resource_acl = 1, membership = 1, namespace = 1\<rparr>\<rparr>"

lemma share_chain_decision:
  "evaluate_recursive_direct_shares (share_chain 3 3) =
     Ok \<lparr>allowed = True, reason = InheritedAllow, source_entries = [20],
         generations = \<lparr>resource_acl = 1, membership = 1, namespace = 1\<rparr>\<rparr>"
  by code_simp

lemma share_cycle_decision:
  "evaluate_recursive_direct_shares (share_chain 9 1) =
     Ok \<lparr>allowed = False, reason = NoMatchingGrant, source_entries = [],
         generations = \<lparr>resource_acl = 1, membership = 1, namespace = 1\<rparr>\<rparr>"
  by code_simp

text \<open>C1: The recursive-share evaluator decides the least fixed point of the delegation rules:
  when it answers, it allows the action iff the principal holds it, where an action is held by
  implicit ownership, by an applicable independent allow entry, or by an applicable recursive
  share whose recorded creator holds both the share authority and that action, the last two
  only where no applicable entry denies it.\<close>

theorem recursive_share_decides_holds:
  assumes "evaluate_recursive_direct_shares q = Ok d"
  shows "allowed d \<longleftrightarrow> holds q (principal_id (rs_principal q)) (rs_action q)"
  using evaluator_decides [OF assms] by (simp add: root_key_def share_proven_iff_holds)

theorem recursive_share_decides_holds_witness:
  "(\<exists>d. evaluate_recursive_direct_shares (share_chain 3 3) = Ok d \<and> allowed d)
   \<and> holds (share_chain 3 3) 1 ReadContent"
  using recursive_share_decides_holds [OF share_chain_decision] share_chain_decision
  by (simp add: share_chain_def principal_context_new_def)

text \<open>C14: The evaluator always returns, never reaches either of its \<open>expect\<close> panics, and
  answers with a decision whenever the request has at most 63 creator records and at most 2048
  entries in all: neither the depth limit of 128 nor the edge limit of 4096 is reached
  then.\<close>

theorem recursive_share_answers:
  "evaluate_recursive_direct_shares q \<noteq> Err Panicked
   \<and> (length (rs_creator_facts q) \<le> 63
       \<and> length (rs_entries q) + sum_list (map (\<lambda>f. length (facts_entries f)) (rs_creator_facts q)) \<le> 2048
      \<longrightarrow> (\<exists>d. evaluate_recursive_direct_shares q = Ok d))"
  using evaluator_never_panics [of q] evaluator_answers [of q]
  by (auto simp: moderate_def entry_count_def MAX_RECURSIVE_SHARE_DELEGATION_DEPTH_def
      MAX_RECURSIVE_SHARE_EDGES_def)

theorem recursive_share_answers_witness:
  "\<exists>d. evaluate_recursive_direct_shares (share_chain 9 4) = Ok d"
proof -
  have "length (rs_creator_facts (share_chain 9 4)) \<le> 63"
    "length (rs_entries (share_chain 9 4))
       + sum_list (map (\<lambda>f. length (facts_entries f)) (rs_creator_facts (share_chain 9 4))) \<le> 2048"
    by (simp_all add: share_chain_def)
  with recursive_share_answers [of "share_chain 9 4"] show ?thesis by blast
qed

text \<open>C15: Recursive evaluation extends the plain evaluator conservatively: when every entry of the
  requesting principal has independent provenance, it returns exactly the decision of
  \<open>evaluate\<close>, with the same reason and evidence, whatever the creator records say.\<close>

theorem recursive_share_conservative:
  assumes "\<forall>e \<in> set (rs_entries q). provenance e = Independent"
  shows "evaluate_recursive_direct_shares q =
    Ok (evaluate \<lparr>req_principal = rs_principal q, req_resource = rs_resource q,
                   req_drive_owner = rs_drive_owner q, req_action = rs_action q,
                   req_entries = map resolved (rs_entries q),
                   req_generations = rs_generations q\<rparr>)"
  using evaluator_single [OF independent_entries_node(1) [OF assms]] plain_decision [OF assms]
  by (auto simp: plain_request_def)

theorem recursive_share_conservative_witness:
  "let q = (share_chain 9 1)\<lparr>rs_entries := [independent_entry (share_entry 30 1 ReadContent 2)]\<rparr>;
       d = \<lparr>allowed = True, reason = ExplicitAllow, source_entries = [30],
            generations = \<lparr>resource_acl = 1, membership = 1, namespace = 1\<rparr>\<rparr> in
   evaluate_recursive_direct_shares q = Ok d"
proof -
  let ?q = "(share_chain 9 1)\<lparr>rs_entries := [independent_entry (share_entry 30 1 ReadContent 2)]\<rparr>"
  have "\<forall>e \<in> set (rs_entries ?q). provenance e = Independent"
    by (simp add: independent_entry_def)
  from recursive_share_conservative [OF this] show ?thesis
    unfolding Let_def by (rule trans) code_simp
qed

text \<open>C16: Shares confer nothing by themselves: if no collected principal owns the drive and no
  collected allow entry is independent, the evaluator denies, however the recursive shares
  refer to each other; in particular a cycle of shares is no proof.\<close>

theorem recursive_share_needs_root:
  assumes "\<forall>p s act. share_subject q p = Some s \<longrightarrow>
      implicit_owner_reason (fst s) (rs_drive_owner q) act = None
      \<and> (\<forall>e \<in> set (snd s). acl_effect (entry (resolved e)) = Allow \<longrightarrow> provenance e \<noteq> Independent)"
    and "evaluate_recursive_direct_shares q = Ok d"
  shows "\<not> allowed d"
proof -
  have "\<not> holds q p act" for p act
  proof
    assume "holds q p act"
    then show False
      using assms(1) by (induction rule: holds.induct) (auto simp: grants_def)
  qed
  with evaluator_decides [OF assms(2)] show ?thesis
    by (simp add: root_key_def share_proven_iff_holds)
qed

lemma share_cycle_rootless:
  assumes "share_subject (share_chain 9 1) p = Some s"
  shows "implicit_owner_reason (fst s) (rs_drive_owner (share_chain 9 1)) act = None
    \<and> (\<forall>e \<in> set (snd s). acl_effect (entry (resolved e)) = Allow \<longrightarrow> provenance e \<noteq> Independent)"
  using share_subject_cases [OF assms]
  by (auto simp: share_chain_def implicit_owner_reason_def principal_context_new_def
      recursive_direct_share_def)

theorem recursive_share_needs_root_witness:
  "\<exists>d. evaluate_recursive_direct_shares (share_chain 9 1) = Ok d \<and> \<not> allowed d"
  using recursive_share_needs_root [OF _ share_cycle_decision] share_cycle_rootless
    share_cycle_decision
  by blast



end
