(* ===== verification/Text_Codec.thy ===== *)
theory Text_Codec
  imports Belt_Prelude
begin

text \<open>
  Text and byte helpers of the wire formats: byte strings, decimal integers as Rust prints and
  parses them, \<open>split_once\<close> and \<open>strip_suffix\<close>, signed 64-bit arithmetic, and a concrete
  unpadded URL-safe base64 codec for the examples (the components take the codec as a
  parameter).
\<close>

type_synonym bytes = string
type_synonym i64 = "64 word"
type_synonym i32 = "32 word"

section \<open>Signed arithmetic\<close>

definition i64_checked_sub :: "i64 \<Rightarrow> i64 \<Rightarrow> i64 option" where
  "i64_checked_sub a b =
     (let d = sint a - sint b in
      if - (2 ^ 63) \<le> d \<and> d < 2 ^ 63 then Some (word_of_int d) else None)"

lemma sint_word_of_int_range:
  "- (2 ^ 63) \<le> d \<Longrightarrow> d < 2 ^ 63 \<Longrightarrow> sint (word_of_int d :: i64) = d"
  by (simp add: sint_sbintrunc' signed_take_bit_int_eq_self)

lemma i64_checked_sub_Some [word_arith]:
  "i64_checked_sub a b = Some c \<longleftrightarrow> sint c = sint a - sint b"
proof
  assume "i64_checked_sub a b = Some c"
  then have "c = word_of_int (sint a - sint b)" "- (2 ^ 63) \<le> sint a - sint b" "sint a - sint b < 2 ^ 63"
    by (auto simp: i64_checked_sub_def Let_def split: if_splits)
  then show "sint c = sint a - sint b"
    by (simp only: sint_word_of_int_range)
next
  assume c: "sint c = sint a - sint b"
  have "- (2 ^ 63) \<le> sint c" "sint c < 2 ^ 63"
    using sint_ge [of c] sint_lt [of c] by simp_all
  moreover have "word_of_int (sint c) = c"
    using scast_eq [of c] by simp
  ultimately show "i64_checked_sub a b = Some c"
    using c by (simp add: i64_checked_sub_def)
qed

section \<open>Strings\<close>

definition is_ascii :: "string \<Rightarrow> bool" where
  "is_ascii s \<longleftrightarrow> list_all (\<lambda>c. byte c < 128) s"

definition newline :: char where
  "newline = CHR 0x0A"

definition strip_suffix :: "'a \<Rightarrow> 'a list \<Rightarrow> 'a list option" where
  "strip_suffix c s = (if s \<noteq> [] \<and> last s = c then Some (butlast s) else None)"

definition ends_with :: "'a \<Rightarrow> 'a list \<Rightarrow> bool" where
  "ends_with c s \<longleftrightarrow> s \<noteq> [] \<and> last s = c"

fun split_once :: "'a \<Rightarrow> 'a list \<Rightarrow> ('a list \<times> 'a list) option" where
  "split_once c [] = None"
| "split_once c (x # xs) =
     (if x = c then Some ([], xs)
      else map_option (\<lambda>(a, b). (x # a, b)) (split_once c xs))"

lemma split_once_append: "c \<notin> set a \<Longrightarrow> split_once c (a @ c # b) = Some (a, b)"
  by (induction a) auto

lemma split_once_Some: "split_once c s = Some (a, b) \<longleftrightarrow> s = a @ c # b \<and> c \<notin> set a"
proof
  show "split_once c s = Some (a, b) \<Longrightarrow> s = a @ c # b \<and> c \<notin> set a"
    by (induction s arbitrary: a) (auto split: if_splits)
qed (auto simp: split_once_append)

lemma strip_suffix_snoc [simp]: "strip_suffix c (s @ [c]) = Some s"
  by (simp add: strip_suffix_def)

text \<open>\<open>str::strip_suffix\<close> and \<open>str::split_once\<close> with a string pattern.\<close>

definition strip_suffix_str :: "'a list \<Rightarrow> 'a list \<Rightarrow> 'a list option" where
  "strip_suffix_str p s = map_option rev (strip_prefix (rev p) (rev s))"

lemma strip_suffix_str_Some: "strip_suffix_str p s = Some r \<longleftrightarrow> s = r @ p"
  by (auto simp: strip_suffix_str_def strip_prefix_Some) (metis rev_append rev_rev_ident)

fun split_once_str :: "'a list \<Rightarrow> 'a list \<Rightarrow> ('a list \<times> 'a list) option" where
  "split_once_str p [] = (if p = [] then Some ([], []) else None)"
| "split_once_str p (x # xs) =
     (case strip_prefix p (x # xs) of
        Some r \<Rightarrow> Some ([], r)
      | None \<Rightarrow> map_option (\<lambda>(a, b). (x # a, b)) (split_once_str p xs))"

lemma split_once_str_Some: "split_once_str p s = Some (a, b) \<Longrightarrow> s = a @ p @ b"
  by (induction p s arbitrary: a rule: split_once_str.induct)
    (auto simp: strip_prefix_Some split: if_splits option.splits)

text \<open>\<open>std::str::from_utf8\<close> accepts exactly the well-formed byte sequences of UTF-8.\<close>

definition utf8_tail :: "nat \<Rightarrow> nat \<Rightarrow> char \<Rightarrow> bool" where
  "utf8_tail lo hi c \<longleftrightarrow> lo \<le> byte c \<and> byte c \<le> hi"

fun utf8_valid :: "bytes \<Rightarrow> bool" where
  "utf8_valid [] = True"
| "utf8_valid (a # r) =
     (if byte a < 0x80 then utf8_valid r
      else if 0xC2 \<le> byte a \<and> byte a \<le> 0xDF then
        (case r of b # r' \<Rightarrow> utf8_tail 0x80 0xBF b \<and> utf8_valid r' | [] \<Rightarrow> False)
      else if 0xE0 \<le> byte a \<and> byte a \<le> 0xEF then
        (case r of
           b # c # r' \<Rightarrow>
             utf8_tail (if byte a = 0xE0 then 0xA0 else 0x80) (if byte a = 0xED then 0x9F else 0xBF) b
             \<and> utf8_tail 0x80 0xBF c \<and> utf8_valid r'
         | _ \<Rightarrow> False)
      else if 0xF0 \<le> byte a \<and> byte a \<le> 0xF4 then
        (case r of
           b # c # d # r' \<Rightarrow>
             utf8_tail (if byte a = 0xF0 then 0x90 else 0x80) (if byte a = 0xF4 then 0x8F else 0xBF) b
             \<and> utf8_tail 0x80 0xBF c \<and> utf8_tail 0x80 0xBF d \<and> utf8_valid r'
         | _ \<Rightarrow> False)
      else False)"

lemma utf8_valid_ascii: "is_ascii s \<Longrightarrow> utf8_valid s"
  by (induction s) (auto simp: is_ascii_def)

section \<open>Decimal integers\<close>

definition digit :: "nat \<Rightarrow> char" where
  "digit n = char_of (48 + n)"

fun decimal :: "nat \<Rightarrow> string" where
  "decimal n = (if n < 10 then [digit n] else decimal (n div 10) @ [digit (n mod 10)])"

declare decimal.simps [simp del]

definition decimal_value :: "string \<Rightarrow> int" where
  "decimal_value s = foldl (\<lambda>acc c. 10 * acc + (int (byte c) - 48)) 0 s"

definition parse_u32 :: "string \<Rightarrow> u32 option" where
  "parse_u32 s =
     (if s = [] \<or> \<not> list_all is_ascii_digit s then None
      else if decimal_value s < 2 ^ 32 then Some (word_of_int (decimal_value s))
      else None)"

lemma byte_digit: "n < 10 \<Longrightarrow> byte (digit n) = 48 + n"
  by (simp add: byte_def digit_def)

lemma decimal_digits: "list_all is_ascii_digit (decimal n)"
proof (induction n rule: decimal.induct)
  case (1 n)
  have "is_ascii_digit (digit m)" if "m < 10" for m
    using that by (simp add: is_ascii_digit_def byte_digit)
  with 1 show ?case
    by (subst decimal.simps) simp
qed

lemma decimal_value_decimal: "decimal_value (decimal n) = int n"
proof (induction n rule: decimal.induct)
  case (1 n)
  show ?case
  proof (cases "n < 10")
    case True
    then show ?thesis
      by (subst decimal.simps) (simp add: decimal_value_def byte_digit)
  next
    case False
    with 1 have "decimal_value (decimal (n div 10)) = int (n div 10)" by simp
    then have "decimal_value (decimal n) = 10 * int (n div 10) + int (n mod 10)"
      using False by (subst decimal.simps) (simp add: decimal_value_def byte_digit)
    also have "\<dots> = int (10 * (n div 10) + n mod 10)"
      by (simp only: of_nat_add of_nat_mult of_nat_numeral)
    finally show ?thesis by simp
  qed
qed

lemma decimal_not_Nil [simp]: "decimal n \<noteq> []"
  by (subst decimal.simps) simp

lemma decimal_inject [simp]: "decimal m = decimal n \<longleftrightarrow> m = n"
  by (metis decimal_value_decimal of_nat_eq_iff)

lemma length_decimal: "n < 10 ^ k \<Longrightarrow> 0 < k \<Longrightarrow> length (decimal n) \<le> k"
proof (induction n arbitrary: k rule: decimal.induct)
  case (1 n)
  show ?case
  proof (cases "n < 10")
    case True
    with 1(3) show ?thesis by (subst decimal.simps) simp
  next
    case False
    then obtain j where k: "k = Suc j" "0 < j"
      using 1(2,3) by (cases k; cases "k - 1") auto
    with 1(2) have "n div 10 < 10 ^ j" by (simp add: div_less_iff_less_mult mult.commute)
    from 1(1) [OF False this k(2)] k(1) False show ?thesis
      by (subst decimal.simps) simp
  qed
qed

lemma parse_u32_decimal: "parse_u32 (decimal (unat g)) = Some g"
proof -
  have "decimal_value (decimal (unat g)) = uint g"
    by (simp add: decimal_value_decimal)
  moreover have "uint g < 2 ^ 32"
    using unsigned_less [of g, where ?'a = int] by simp
  ultimately show ?thesis
    by (simp add: parse_u32_def decimal_digits)
qed

lemma decimal_no_char: "\<not> is_ascii_digit c \<Longrightarrow> c \<notin> set (decimal n)"
  using decimal_digits [of n] by (auto simp: list_all_iff)

section \<open>A concrete base64 codec\<close>

definition b64_alphabet :: string where
  "b64_alphabet = ''ABCDEFGHIJKLMNOPQRSTUVWXYZabcdefghijklmnopqrstuvwxyz0123456789-_''"

fun b64_encode :: "bytes \<Rightarrow> string" where
  "b64_encode [] = []"
| "b64_encode [a] =
     [b64_alphabet ! (byte a div 4), b64_alphabet ! ((byte a mod 4) * 16)]"
| "b64_encode [a, b] =
     [b64_alphabet ! (byte a div 4), b64_alphabet ! ((byte a mod 4) * 16 + byte b div 16),
      b64_alphabet ! ((byte b mod 16) * 4)]"
| "b64_encode (a # b # c # r) =
     [b64_alphabet ! (byte a div 4), b64_alphabet ! ((byte a mod 4) * 16 + byte b div 16),
      b64_alphabet ! ((byte b mod 16) * 4 + byte c div 64), b64_alphabet ! (byte c mod 64)]
     @ b64_encode r"

fun index_of :: "'a \<Rightarrow> 'a list \<Rightarrow> nat option" where
  "index_of x [] = None"
| "index_of x (y # ys) = (if x = y then Some 0 else map_option Suc (index_of x ys))"

fun b64_sextets :: "nat list \<Rightarrow> bytes option" where
  "b64_sextets [] = Some []"
| "b64_sextets [a] = None"
| "b64_sextets [a, b] = (if b mod 16 = 0 then Some [char_of (a * 4 + b div 16)] else None)"
| "b64_sextets [a, b, c] =
     (if c mod 4 = 0 then Some [char_of (a * 4 + b div 16), char_of ((b mod 16) * 16 + c div 4)]
      else None)"
| "b64_sextets (a # b # c # d # r) =
     map_option (\<lambda>t. char_of (a * 4 + b div 16) # char_of ((b mod 16) * 16 + c div 4)
       # char_of ((c mod 4) * 64 + d) # t) (b64_sextets r)"

definition b64_decode :: "string \<Rightarrow> bytes option" where
  "b64_decode s =
     (let is = map (\<lambda>c. index_of c b64_alphabet) s in
      if None \<in> set is then None else b64_sextets (map the is))"

end
