(* ===== verification/Access_Policy.thy ===== *)
theory Access_Policy
  imports Share_Limits Text_Codec
begin

text \<open>
  The authorization gate of the two services that serve content: the HTTP API
  (\<open>source/apps/filebelt-api/src/policy.rs\<close>) and the mount service
  (\<open>source/apps/filebelt-vfs/src/policy.rs\<close>). Each reads one snapshot of database rows,
  converts it to an evaluator request, evaluates it and turns the decision into a grant of
  generations. The two files are translated separately and compared at the end.

  The database is a parameter (a function from the keys of a query to its result). A signed
  integer of \<open>w\<close> bits is a word read by \<open>sint\<close>.
\<close>

section \<open>Database rows and API errors\<close>


record AclInputRow =
  row_id :: uuid
  row_resource_id :: uuid
  row_principal_id :: uuid
  row_action :: string
  row_effect :: string
  row_inheritance :: string
  row_depth :: i32
  row_direct :: bool
  row_generation :: i64
  row_created_by :: uuid
  row_direct_share_id :: "uuid option"
  row_direct_share_active :: bool

record GroupInputRow =
  group_row_group_id :: uuid
  group_row_principal_id :: uuid
  group_row_role :: string
  group_row_generation :: i64

record AuthorizationPrincipalFact =
  fact_principal_id :: uuid
  fact_groups :: "GroupInputRow list"
  fact_entries :: "AclInputRow list"

record AuthorizationSnapshot =
  snap_tenant_id :: uuid
  snap_drive_id :: uuid
  snap_resource_id :: uuid
  snap_owner_principal_id :: uuid
  snap_owner_kind :: string
  snap_owner_group_id :: "uuid option"
  snap_actor_principal_id :: uuid
  snap_actor_groups :: "GroupInputRow list"
  snap_entries :: "AclInputRow list"
  snap_creator_facts :: "AuthorizationPrincipalFact list"
  snap_membership_generation :: i64
  snap_drive_acl_generation :: i64
  snap_namespace_generation :: i64
  snap_resource_namespace_generation :: i64
  snap_resource_acl_generation :: i64

datatype DatabaseError =
    NotFound | Conflict | QuotaExceeded | StorageUnavailable | AdmissionLimited
  | StaleGeneration | SecurityAdmissionBlocked | Sql | Migration | InvalidPersistedValue

record ApiError =
  api_status :: nat
  api_code :: string
  api_title :: string
  api_retry_after_seconds :: "u32 option"

definition api_error_new :: "nat \<Rightarrow> string \<Rightarrow> string \<Rightarrow> ApiError" where
  "api_error_new s c t =
     \<lparr>api_status = s, api_code = c, api_title = t, api_retry_after_seconds = None\<rparr>"

definition remediation_in_progress :: "string \<Rightarrow> string \<Rightarrow> ApiError" where
  "remediation_in_progress c t =
     \<lparr>api_status = 503, api_code = c, api_title = t, api_retry_after_seconds = Some 60\<rparr>"

definition api_not_found :: ApiError where
  "api_not_found = api_error_new 404 ''resource.not_found'' ''The requested resource was not found''"

definition api_conflict :: "string \<Rightarrow> string \<Rightarrow> ApiError" where
  "api_conflict c t = api_error_new 409 c t"

definition api_internal :: ApiError where
  "api_internal = api_error_new 500 ''server.internal'' ''The request could not be completed''"

primrec api_error_from_database :: "DatabaseError \<Rightarrow> ApiError" where
  "api_error_from_database NotFound = api_not_found"
| "api_error_from_database Conflict =
     api_conflict ''request.conflict'' ''The request conflicts with current state''"
| "api_error_from_database QuotaExceeded =
     api_error_new 507 ''quota.exceeded'' ''The drive quota is exhausted''"
| "api_error_from_database StorageUnavailable =
     api_error_new 507 ''storage.unavailable'' ''Storage is unavailable for new reservations''"
| "api_error_from_database AdmissionLimited =
     api_error_new 429 ''request.admission_limited''
       ''The service is temporarily at its request admission limit''"
| "api_error_from_database StaleGeneration =
     api_error_new 412 ''generation.stale'' ''The supplied generation is stale''"
| "api_error_from_database SecurityAdmissionBlocked =
     remediation_in_progress ''security.remediation_in_progress''
       ''Security repair must complete before this authority can be created''"
| "api_error_from_database Sql = api_internal"
| "api_error_from_database Migration = api_internal"
| "api_error_from_database InvalidPersistedValue = api_internal"

section \<open>Metrics and panics\<close>

text \<open>The two limit counters, each unset until its registration; \<open>Counter::inc\<close> adds one
  with wrap-around.\<close>

record share_metrics =
  depth_limit_denials :: "u64 option"
  edge_limit_denials :: "u64 option"

datatype 'a outcome = Returns 'a | Panics

section \<open>The API gate\<close>

definition api_register_recursive_share_metrics :: "share_metrics \<Rightarrow> share_metrics" where
  "api_register_recursive_share_metrics m =
     \<lparr>depth_limit_denials = (case depth_limit_denials m of None \<Rightarrow> Some 0 | Some c \<Rightarrow> Some c),
      edge_limit_denials = (case edge_limit_denials m of None \<Rightarrow> Some 0 | Some c \<Rightarrow> Some c)\<rparr>"

record AuthorizationGrant =
  grant_membership_generation :: u64
  grant_drive_acl_generation :: u64
  grant_namespace_generation :: u64
  grant_resource_acl_generation :: u64

definition api_positive_u64 :: "i64 \<Rightarrow> (u64, ApiError) result" where
  "api_positive_u64 value =
     (if sint value < 0 then Err api_internal
      else if value = 0 then Err api_internal
      else Ok value)"

definition api_generation :: "i64 \<Rightarrow> (Generation, ApiError) result" where
  "api_generation value = map_ok (\<lambda>v. v) (api_positive_u64 value)"

definition api_principal :: "uuid_lib \<Rightarrow> uuid \<Rightarrow> (PrincipalId, ApiError) result" where
  "api_principal L value = map_err (\<lambda>_. api_internal) (id_from_uuid L value)"

definition api_group_id :: "uuid_lib \<Rightarrow> uuid \<Rightarrow> (GroupId, ApiError) result" where
  "api_group_id L value = map_err (\<lambda>_. api_internal) (id_from_uuid L value)"

definition api_node :: "uuid_lib \<Rightarrow> uuid \<Rightarrow> (NodeId, ApiError) result" where
  "api_node L value = map_err (\<lambda>_. api_internal) (id_from_uuid L value)"

definition api_acl_entry :: "uuid_lib \<Rightarrow> uuid \<Rightarrow> (AclEntryId, ApiError) result" where
  "api_acl_entry L value = map_err (\<lambda>_. api_internal) (id_from_uuid L value)"

definition api_parse_action :: "string \<Rightarrow> (Action, ApiError) result" where
  "api_parse_action value = ok_or (find (\<lambda>candidate. as_str candidate = value) ALL_ACTIONS) api_internal"

definition api_drive_owner :: "uuid_lib \<Rightarrow> AuthorizationSnapshot \<Rightarrow> (DriveOwner, ApiError) result" where
  "api_drive_owner L snapshot =
     (if snap_owner_kind snapshot = ''user'' then
        map_ok User (api_principal L (snap_owner_principal_id snapshot))
      else if snap_owner_kind snapshot = ''group'' then
        and_then (ok_or (snap_owner_group_id snapshot) api_internal) (\<lambda>g.
          map_ok Group (api_group_id L g))
      else if snap_owner_kind snapshot = ''organization'' then
        map_ok Organization (api_principal L (snap_owner_principal_id snapshot))
      else if snap_owner_kind snapshot = ''service'' then
        map_ok Service (api_principal L (snap_owner_principal_id snapshot))
      else Err api_internal)"

definition api_recursive_share_entry ::
  "uuid_lib \<Rightarrow> AclInputRow \<Rightarrow> (RecursiveShareResolvedAclEntry, ApiError) result" where
  "api_recursive_share_entry L row =
     (if row_direct_share_id row \<noteq> None \<and> \<not> row_direct_share_active row then Err api_internal
      else
        and_then (api_acl_entry L (row_id row)) (\<lambda>i.
        and_then (api_node L (row_resource_id row)) (\<lambda>res.
        and_then (api_principal L (row_principal_id row)) (\<lambda>p.
        and_then (api_parse_action (row_action row)) (\<lambda>act.
        and_then
          (if row_effect row = ''allow'' then Ok Allow
           else if row_effect row = ''deny'' then Ok Deny
           else Err api_internal) (\<lambda>eff.
        and_then
          (if row_inheritance row = ''self'' then Ok ThisResource
           else if row_inheritance row = ''children'' then Ok Children
           else if row_inheritance row = ''descendants''
             \<or> row_inheritance row = ''self_and_descendants'' then Ok Descendants
           else Err api_internal) (\<lambda>inh.
        and_then (api_generation (row_generation row)) (\<lambda>gen.
        and_then (api_principal L (row_created_by row)) (\<lambda>creator.
          let entry = \<lparr>acl_id = i, acl_resource = Node res, acl_principal = p, acl_action = act,
                       acl_effect = eff, acl_inheritance = inh, acl_generation = gen,
                       acl_created_by = creator\<rparr> in
          and_then
            (if row_direct row then Ok (direct entry)
             else if sint (row_depth row) < 0 then Err api_internal
             else ok_or (inherited entry (row_depth row)) api_internal) (\<lambda>resolved.
            if row_direct_share_active row \<and> row_inheritance row = ''self_and_descendants'' then
              map_ok (recursive_direct_share resolved) (api_principal L (row_created_by row))
            else Ok (independent_entry resolved)))))))))))"

definition api_principal_context ::
  "uuid_lib \<Rightarrow> uuid \<Rightarrow> GroupInputRow list \<Rightarrow> (PrincipalContext, ApiError) result" where
  "api_principal_context L p groups =
     and_then
       (collect_ok (\<lambda>group.
          and_then (api_group_id L (group_row_group_id group)) (\<lambda>g.
          and_then (api_principal L (group_row_principal_id group)) (\<lambda>gp.
          and_then
            (if group_row_role group = ''member'' then Ok Member
             else if group_row_role group = ''manager'' then Ok Manager
             else Err api_internal) (\<lambda>r.
            Ok (GroupMembership g gp r))))) groups) (\<lambda>memberships.
     and_then (api_principal L p) (\<lambda>p'.
       Ok (principal_context_new p' memberships)))"

definition api_record_recursive_share_limit ::
  "RecursiveShareEvaluationError \<Rightarrow> share_metrics \<Rightarrow> share_metrics" where
  "api_record_recursive_share_limit error m =
     (case error of
        DelegationDepthExceeded \<Rightarrow>
          m\<lparr>depth_limit_denials := map_option (\<lambda>c. c + 1) (depth_limit_denials m)\<rparr>
      | RecursiveEdgeLimitExceeded \<Rightarrow>
          m\<lparr>edge_limit_denials := map_option (\<lambda>c. c + 1) (edge_limit_denials m)\<rparr>)"

definition api_creator_facts ::
  "uuid_lib \<Rightarrow> AuthorizationPrincipalFact \<Rightarrow> (PrincipalAuthorizationFacts, ApiError) result" where
  "api_creator_facts L facts =
     and_then (api_principal_context L (fact_principal_id facts) (fact_groups facts)) (\<lambda>ctx.
     and_then (collect_ok (api_recursive_share_entry L) (fact_entries facts)) (\<lambda>es.
       Ok \<lparr>facts_principal = ctx, facts_entries = es\<rparr>))"

text \<open>The part of \<open>evaluate_snapshot\<close> before the evaluation: the request and its
  conversions, in the order of the code.\<close>

definition api_request ::
  "uuid_lib \<Rightarrow> AuthorizationSnapshot \<Rightarrow> Action \<Rightarrow> (RecursiveShareAuthorizationRequest, ApiError) result"
  where
  "api_request L snapshot act =
     and_then (api_principal_context L (snap_actor_principal_id snapshot)
                 (snap_actor_groups snapshot)) (\<lambda>ctx.
     and_then (api_node L (snap_resource_id snapshot)) (\<lambda>res.
     and_then (collect_ok (api_recursive_share_entry L) (snap_entries snapshot)) (\<lambda>es.
     and_then (collect_ok (api_creator_facts L) (snap_creator_facts snapshot)) (\<lambda>cfs.
     and_then (api_generation (snap_resource_acl_generation snapshot)) (\<lambda>ra.
     and_then (api_generation (snap_membership_generation snapshot)) (\<lambda>mg.
     and_then (api_generation (snap_namespace_generation snapshot)) (\<lambda>ng.
     and_then (api_drive_owner L snapshot) (\<lambda>owner.
       Ok \<lparr>rs_principal = ctx, rs_resource = Node res, rs_drive_owner = owner, rs_action = act,
           rs_entries = es, rs_creator_facts = cfs,
           rs_generations = \<lparr>resource_acl = ra, membership = mg, namespace = ng\<rparr>\<rparr>))))))))"

definition api_evaluate_snapshot ::
  "uuid_lib \<Rightarrow> AuthorizationSnapshot \<Rightarrow> Action \<Rightarrow> share_metrics
     \<Rightarrow> ((AuthorizationGrant, ApiError) result \<times> share_metrics) outcome" where
  "api_evaluate_snapshot L snapshot act m =
     (case api_request L snapshot act of
        Err e \<Rightarrow> Returns (Err e, m)
      | Ok request \<Rightarrow>
          (case evaluate_recursive_direct_shares request of
             Err Panicked \<Rightarrow> Panics
           | Err (EvaluationError error) \<Rightarrow>
               Returns (Err api_not_found, api_record_recursive_share_limit error m)
           | Ok decision \<Rightarrow>
               if \<not> allowed decision then Returns (Err api_not_found, m)
               else
                 let generations = rs_generations request in
                 Returns
                   (map_ok (\<lambda>dg.
                      \<lparr>grant_membership_generation = membership generations,
                       grant_drive_acl_generation = dg,
                       grant_namespace_generation = namespace generations,
                       grant_resource_acl_generation = resource_acl generations\<rparr>)
                      (api_positive_u64 (snap_drive_acl_generation snapshot)), m)))"

record Database =
  authorization_snapshot ::
    "uuid \<Rightarrow> uuid \<Rightarrow> uuid \<Rightarrow> uuid \<Rightarrow> (AuthorizationSnapshot, DatabaseError) result"
  publish_authorization_generations ::
    "AuthorizationSnapshot \<Rightarrow> uuid \<Rightarrow> (unit, DatabaseError) result"

definition api_authorize ::
  "Database \<Rightarrow> uuid_lib \<Rightarrow> uuid \<Rightarrow> uuid \<Rightarrow> uuid \<Rightarrow> uuid \<Rightarrow> Action \<Rightarrow> share_metrics
     \<Rightarrow> ((AuthorizationGrant, ApiError) result \<times> share_metrics) outcome" where
  "api_authorize DB L tenant actor drive res act m =
     (case authorization_snapshot DB tenant actor drive res of
        Err e \<Rightarrow> Returns (Err (api_error_from_database e), m)
      | Ok snapshot \<Rightarrow> api_evaluate_snapshot L snapshot act m)"

text \<open>The session-bound gate also publishes the generations it decided on. The publications asked
  of the database are part of the result.\<close>

type_synonym publication = "AuthorizationSnapshot \<times> uuid"

definition api_authorize_session_bound ::
  "Database \<Rightarrow> uuid_lib \<Rightarrow> uuid \<Rightarrow> uuid \<Rightarrow> uuid \<Rightarrow> uuid \<Rightarrow> uuid \<Rightarrow> Action \<Rightarrow> share_metrics
     \<Rightarrow> ((AuthorizationGrant, ApiError) result \<times> share_metrics \<times> publication list) outcome" where
  "api_authorize_session_bound DB L tenant actor session drive res act m =
     (case authorization_snapshot DB tenant actor drive res of
        Err e \<Rightarrow> Returns (Err (api_error_from_database e), m, [])
      | Ok snapshot \<Rightarrow>
          (case api_evaluate_snapshot L snapshot act m of
             Panics \<Rightarrow> Panics
           | Returns (Err e, m') \<Rightarrow> Returns (Err e, m', [])
           | Returns (Ok grant, m') \<Rightarrow>
               (case publish_authorization_generations DB snapshot session of
                  Err e \<Rightarrow> Returns (Err (api_error_from_database e), m', [(snapshot, session)])
                | Ok _ \<Rightarrow> Returns (Ok grant, m', [(snapshot, session)]))))"

definition api_authorize_capability ::
  "Database \<Rightarrow> uuid_lib \<Rightarrow> uuid \<Rightarrow> uuid \<Rightarrow> uuid \<Rightarrow> uuid \<Rightarrow> uuid \<Rightarrow> Action \<Rightarrow> share_metrics
     \<Rightarrow> ((AuthorizationGrant, ApiError) result \<times> share_metrics \<times> publication list) outcome" where
  "api_authorize_capability DB L tenant actor session drive res act m =
     api_authorize_session_bound DB L tenant actor session drive res act m"

section \<open>The mount gate\<close>

definition vfs_register_recursive_share_metrics :: "share_metrics \<Rightarrow> share_metrics" where
  "vfs_register_recursive_share_metrics m =
     \<lparr>depth_limit_denials = (case depth_limit_denials m of None \<Rightarrow> Some 0 | Some c \<Rightarrow> Some c),
      edge_limit_denials = (case edge_limit_denials m of None \<Rightarrow> Some 0 | Some c \<Rightarrow> Some c)\<rparr>"

record VfsAuthorizationGrant =
  vfs_membership_generation :: i64
  vfs_drive_acl_generation :: i64
  vfs_namespace_generation :: i64
  vfs_resource_acl_generation :: i64
  vfs_resource_namespace_generation :: i64

record AuthorizationCommonFence =
  fence_membership_generation :: i64
  fence_drive_acl_generation :: i64
  fence_namespace_generation :: i64

definition common_fence :: "VfsAuthorizationGrant \<Rightarrow> AuthorizationCommonFence" where
  "common_fence g =
     \<lparr>fence_membership_generation = vfs_membership_generation g,
      fence_drive_acl_generation = vfs_drive_acl_generation g,
      fence_namespace_generation = vfs_namespace_generation g\<rparr>"

definition vfs_positive_u64 :: "i64 \<Rightarrow> (u64, unit) result" where
  "vfs_positive_u64 value =
     (if sint value < 0 then Err ()
      else if value = 0 then Err ()
      else Ok value)"

definition vfs_generation :: "i64 \<Rightarrow> (Generation, unit) result" where
  "vfs_generation value = map_ok (\<lambda>v. v) (vfs_positive_u64 value)"

definition vfs_principal :: "uuid_lib \<Rightarrow> uuid \<Rightarrow> (PrincipalId, unit) result" where
  "vfs_principal L value = map_err (\<lambda>_. ()) (id_from_uuid L value)"

definition vfs_group_id :: "uuid_lib \<Rightarrow> uuid \<Rightarrow> (GroupId, unit) result" where
  "vfs_group_id L value = map_err (\<lambda>_. ()) (id_from_uuid L value)"

definition vfs_node :: "uuid_lib \<Rightarrow> uuid \<Rightarrow> (NodeId, unit) result" where
  "vfs_node L value = map_err (\<lambda>_. ()) (id_from_uuid L value)"

definition vfs_acl_entry :: "uuid_lib \<Rightarrow> uuid \<Rightarrow> (AclEntryId, unit) result" where
  "vfs_acl_entry L value = map_err (\<lambda>_. ()) (id_from_uuid L value)"

definition vfs_parse_action :: "string \<Rightarrow> (Action, unit) result" where
  "vfs_parse_action value = ok_or (find (\<lambda>candidate. as_str candidate = value) ALL_ACTIONS) ()"

definition vfs_drive_owner :: "uuid_lib \<Rightarrow> AuthorizationSnapshot \<Rightarrow> (DriveOwner, unit) result" where
  "vfs_drive_owner L snapshot =
     (if snap_owner_kind snapshot = ''user'' then
        map_ok User (vfs_principal L (snap_owner_principal_id snapshot))
      else if snap_owner_kind snapshot = ''group'' then
        and_then (ok_or (snap_owner_group_id snapshot) ()) (\<lambda>g.
          map_ok Group (vfs_group_id L g))
      else if snap_owner_kind snapshot = ''organization'' then
        map_ok Organization (vfs_principal L (snap_owner_principal_id snapshot))
      else if snap_owner_kind snapshot = ''service'' then
        map_ok Service (vfs_principal L (snap_owner_principal_id snapshot))
      else Err ())"

definition vfs_recursive_share_entry ::
  "uuid_lib \<Rightarrow> AclInputRow \<Rightarrow> (RecursiveShareResolvedAclEntry, unit) result" where
  "vfs_recursive_share_entry L row =
     (if row_direct_share_id row \<noteq> None \<and> \<not> row_direct_share_active row then Err ()
      else
        and_then (vfs_acl_entry L (row_id row)) (\<lambda>i.
        and_then (vfs_node L (row_resource_id row)) (\<lambda>res.
        and_then (vfs_principal L (row_principal_id row)) (\<lambda>p.
        and_then (vfs_parse_action (row_action row)) (\<lambda>act.
        and_then
          (if row_effect row = ''allow'' then Ok Allow
           else if row_effect row = ''deny'' then Ok Deny
           else Err ()) (\<lambda>eff.
        and_then
          (if row_inheritance row = ''self'' then Ok ThisResource
           else if row_inheritance row = ''children'' then Ok Children
           else if row_inheritance row = ''descendants''
             \<or> row_inheritance row = ''self_and_descendants'' then Ok Descendants
           else Err ()) (\<lambda>inh.
        and_then (vfs_generation (row_generation row)) (\<lambda>gen.
        and_then (vfs_principal L (row_created_by row)) (\<lambda>creator.
          let entry = \<lparr>acl_id = i, acl_resource = Node res, acl_principal = p, acl_action = act,
                       acl_effect = eff, acl_inheritance = inh, acl_generation = gen,
                       acl_created_by = creator\<rparr> in
          and_then
            (if row_direct row then Ok (direct entry)
             else if sint (row_depth row) < 0 then Err ()
             else ok_or (inherited entry (row_depth row)) ()) (\<lambda>resolved.
            if row_direct_share_active row \<and> row_inheritance row = ''self_and_descendants'' then
              map_ok (recursive_direct_share resolved) (vfs_principal L (row_created_by row))
            else Ok (independent_entry resolved)))))))))))"

definition vfs_principal_context ::
  "uuid_lib \<Rightarrow> uuid \<Rightarrow> GroupInputRow list \<Rightarrow> (PrincipalContext, unit) result" where
  "vfs_principal_context L p groups =
     and_then
       (collect_ok (\<lambda>group.
          and_then (vfs_group_id L (group_row_group_id group)) (\<lambda>g.
          and_then (vfs_principal L (group_row_principal_id group)) (\<lambda>gp.
          and_then
            (if group_row_role group = ''member'' then Ok Member
             else if group_row_role group = ''manager'' then Ok Manager
             else Err ()) (\<lambda>r.
            Ok (GroupMembership g gp r))))) groups) (\<lambda>memberships.
     and_then (vfs_principal L p) (\<lambda>p'.
       Ok (principal_context_new p' memberships)))"

definition vfs_record_recursive_share_limit ::
  "RecursiveShareEvaluationError \<Rightarrow> share_metrics \<Rightarrow> share_metrics" where
  "vfs_record_recursive_share_limit error m =
     (case error of
        DelegationDepthExceeded \<Rightarrow>
          m\<lparr>depth_limit_denials := map_option (\<lambda>c. c + 1) (depth_limit_denials m)\<rparr>
      | RecursiveEdgeLimitExceeded \<Rightarrow>
          m\<lparr>edge_limit_denials := map_option (\<lambda>c. c + 1) (edge_limit_denials m)\<rparr>)"

definition vfs_creator_facts ::
  "uuid_lib \<Rightarrow> AuthorizationPrincipalFact \<Rightarrow> (PrincipalAuthorizationFacts, unit) result" where
  "vfs_creator_facts L facts =
     and_then (vfs_principal_context L (fact_principal_id facts) (fact_groups facts)) (\<lambda>ctx.
     and_then (collect_ok (vfs_recursive_share_entry L) (fact_entries facts)) (\<lambda>es.
       Ok \<lparr>facts_principal = ctx, facts_entries = es\<rparr>))"

definition vfs_request ::
  "uuid_lib \<Rightarrow> AuthorizationSnapshot \<Rightarrow> Action \<Rightarrow> (RecursiveShareAuthorizationRequest, unit) result"
  where
  "vfs_request L snapshot act =
     and_then (vfs_principal_context L (snap_actor_principal_id snapshot)
                 (snap_actor_groups snapshot)) (\<lambda>ctx.
     and_then (vfs_node L (snap_resource_id snapshot)) (\<lambda>res.
     and_then (collect_ok (vfs_recursive_share_entry L) (snap_entries snapshot)) (\<lambda>es.
     and_then (collect_ok (vfs_creator_facts L) (snap_creator_facts snapshot)) (\<lambda>cfs.
     and_then (vfs_generation (snap_resource_acl_generation snapshot)) (\<lambda>ra.
     and_then (vfs_generation (snap_membership_generation snapshot)) (\<lambda>mg.
     and_then (vfs_generation (snap_namespace_generation snapshot)) (\<lambda>ng.
     and_then (vfs_drive_owner L snapshot) (\<lambda>owner.
       Ok \<lparr>rs_principal = ctx, rs_resource = Node res, rs_drive_owner = owner, rs_action = act,
           rs_entries = es, rs_creator_facts = cfs,
           rs_generations = \<lparr>resource_acl = ra, membership = mg, namespace = ng\<rparr>\<rparr>))))))))"

definition vfs_evaluate_snapshot ::
  "uuid_lib \<Rightarrow> AuthorizationSnapshot \<Rightarrow> Action \<Rightarrow> share_metrics
     \<Rightarrow> ((VfsAuthorizationGrant, unit) result \<times> share_metrics) outcome" where
  "vfs_evaluate_snapshot L snapshot act m =
     (case vfs_request L snapshot act of
        Err e \<Rightarrow> Returns (Err e, m)
      | Ok request \<Rightarrow>
          (case evaluate_recursive_direct_shares request of
             Err Panicked \<Rightarrow> Panics
           | Err (EvaluationError error) \<Rightarrow>
               Returns (Err (), vfs_record_recursive_share_limit error m)
           | Ok decision \<Rightarrow>
               if \<not> allowed decision then Returns (Err (), m)
               else
                 Returns
                   (Ok \<lparr>vfs_membership_generation = snap_membership_generation snapshot,
                        vfs_drive_acl_generation = snap_drive_acl_generation snapshot,
                        vfs_namespace_generation = snap_namespace_generation snapshot,
                        vfs_resource_acl_generation = snap_resource_acl_generation snapshot,
                        vfs_resource_namespace_generation =
                          snap_resource_namespace_generation snapshot\<rparr>, m)))"

definition vfs_authorize ::
  "Database \<Rightarrow> uuid_lib \<Rightarrow> uuid \<Rightarrow> uuid \<Rightarrow> uuid \<Rightarrow> uuid \<Rightarrow> Action \<Rightarrow> share_metrics
     \<Rightarrow> ((VfsAuthorizationGrant, unit) result \<times> share_metrics) outcome" where
  "vfs_authorize DB L tenant actor drive res act m =
     (case authorization_snapshot DB tenant actor drive res of
        Err e \<Rightarrow> Returns (Err (), m)
      | Ok snapshot \<Rightarrow> vfs_evaluate_snapshot L snapshot act m)"

text \<open>The NFS query is a function of the resource: the session, its binding digest and the drive
  are fixed over one request.\<close>

type_synonym nfs_query = "uuid \<Rightarrow> (AuthorizationSnapshot, DatabaseError) result"

definition authorize_nfs ::
  "nfs_query \<Rightarrow> uuid_lib \<Rightarrow> uuid \<Rightarrow> Action \<Rightarrow> share_metrics
     \<Rightarrow> ((VfsAuthorizationGrant, unit) result \<times> share_metrics) outcome" where
  "authorize_nfs nfs L res act m =
     (case nfs res of
        Err e \<Rightarrow> Returns (Err (), m)
      | Ok snapshot \<Rightarrow> vfs_evaluate_snapshot L snapshot act m)"

fun traverse_loop ::
  "nfs_query \<Rightarrow> uuid_lib \<Rightarrow> uuid list \<Rightarrow> VfsAuthorizationGrant list \<Rightarrow> share_metrics
     \<Rightarrow> ((VfsAuthorizationGrant list, unit) result \<times> share_metrics) outcome" where
  "traverse_loop nfs L [] acc m = Returns (Ok acc, m)"
| "traverse_loop nfs L (res # ids) acc m =
     (case authorize_nfs nfs L res Traverse m of
        Panics \<Rightarrow> Panics
      | Returns (Err e, m') \<Rightarrow> Returns (Err e, m')
      | Returns (Ok grant, m') \<Rightarrow> traverse_loop nfs L ids (acc @ [grant]) m')"

definition authorize_traverse ::
  "nfs_query \<Rightarrow> uuid_lib \<Rightarrow> uuid list \<Rightarrow> share_metrics
     \<Rightarrow> ((VfsAuthorizationGrant list, unit) result \<times> share_metrics) outcome" where
  "authorize_traverse nfs L ids m =
     (if ids = [] \<or> length ids > 128 then Returns (Err (), m)
      else traverse_loop nfs L ids [] m)"

section \<open>Conversions\<close>

lemma api_id_Ok [simp]:
  "api_principal L u = Ok v \<longleftrightarrow> v = u \<and> id_from_uuid L u = Ok u"
  "api_group_id L u = Ok v \<longleftrightarrow> v = u \<and> id_from_uuid L u = Ok u"
  "api_node L u = Ok v \<longleftrightarrow> v = u \<and> id_from_uuid L u = Ok u"
  "api_acl_entry L u = Ok v \<longleftrightarrow> v = u \<and> id_from_uuid L u = Ok u"
  by (auto simp: api_principal_def api_group_id_def api_node_def api_acl_entry_def id_from_uuid_def
      validate_uuid_v4_def)

lemma sint_positive: "0 < sint v \<longleftrightarrow> \<not> sint v < 0 \<and> v \<noteq> (0 :: i64)"
proof -
  have "sint v = 0 \<longleftrightarrow> v = 0"
    by (rule signed_eq_0_iff)
  then show ?thesis by auto
qed

lemma api_generation_Ok [simp]: "api_generation v = Ok g \<longleftrightarrow> g = v \<and> 0 < sint v"
  by (auto simp: api_generation_def api_positive_u64_def sint_positive)

lemma api_positive_u64_Ok [simp]: "api_positive_u64 v = Ok g \<longleftrightarrow> g = v \<and> 0 < sint v"
  by (auto simp: api_positive_u64_def sint_positive)

lemma api_request_Ok:
  assumes "api_request L s act = Ok q"
  shows "principal_id (rs_principal q) = snap_actor_principal_id s" and "rs_action q = act"
    and "rs_generations q = \<lparr>resource_acl = snap_resource_acl_generation s,
           membership = snap_membership_generation s, namespace = snap_namespace_generation s\<rparr>"
    and "0 < sint (snap_resource_acl_generation s)" "0 < sint (snap_membership_generation s)"
      "0 < sint (snap_namespace_generation s)"
    and "list_all2 (\<lambda>row e. api_recursive_share_entry L row = Ok e) (snap_entries s) (rs_entries q)"
    and "list_all2 (\<lambda>f e. api_creator_facts L f = Ok e) (snap_creator_facts s) (rs_creator_facts q)"
  using assms
  by (auto simp: api_request_def result_simps api_principal_context_def principal_context_new_def)

text \<open>The two translations differ in the error value only.\<close>

abbreviation erase :: "('a, 'e) result \<Rightarrow> ('a, unit) result" where
  "erase \<equiv> map_err (\<lambda>_. ())"

lemma erase_and_then: "erase (and_then r k) = and_then (erase r) (\<lambda>x. erase (k x))"
  by (cases r) simp_all

lemma erase_map_ok: "erase (map_ok f r) = map_ok f (erase r)"
  by (cases r) simp_all

lemma erase_collect_ok: "erase (collect_ok f xs) = collect_ok (\<lambda>x. erase (f x)) xs"
  by (induction xs) (simp_all add: erase_and_then erase_map_ok)

lemma erase_ok_or: "erase (ok_or r e) = ok_or r ()"
  by (cases r) simp_all

lemmas erase_simps = erase_and_then erase_map_ok erase_collect_ok erase_ok_or if_distrib [of erase]

lemma erase_conversions:
  "erase (api_positive_u64 v) = vfs_positive_u64 v"
  "erase (api_generation v) = vfs_generation v"
  "erase (api_principal L u) = vfs_principal L u"
  "erase (api_group_id L u) = vfs_group_id L u"
  "erase (api_node L u) = vfs_node L u"
  "erase (api_acl_entry L u) = vfs_acl_entry L u"
  "erase (api_parse_action a) = vfs_parse_action a"
  by (simp_all add: api_positive_u64_def vfs_positive_u64_def api_generation_def vfs_generation_def
      api_principal_def vfs_principal_def api_group_id_def vfs_group_id_def api_node_def vfs_node_def
      api_acl_entry_def vfs_acl_entry_def api_parse_action_def vfs_parse_action_def erase_ok_or
      id_from_uuid_def validate_uuid_v4_def)

lemma erase_entry: "erase (api_recursive_share_entry L row) = vfs_recursive_share_entry L row"
  unfolding api_recursive_share_entry_def vfs_recursive_share_entry_def Let_def
    erase_simps erase_conversions map_err.simps ..

lemma erase_principal_context: "erase (api_principal_context L p gs) = vfs_principal_context L p gs"
  unfolding api_principal_context_def vfs_principal_context_def
    erase_simps erase_conversions map_err.simps ..

lemma erase_creator_facts: "erase (api_creator_facts L f) = vfs_creator_facts L f"
  unfolding api_creator_facts_def vfs_creator_facts_def
    erase_simps erase_conversions erase_entry erase_principal_context map_err.simps ..

lemma erase_drive_owner: "erase (api_drive_owner L s) = vfs_drive_owner L s"
  unfolding api_drive_owner_def vfs_drive_owner_def erase_simps erase_conversions map_err.simps ..

lemma erase_request: "erase (api_request L s act) = vfs_request L s act"
  unfolding api_request_def vfs_request_def erase_simps erase_conversions erase_entry
    erase_principal_context erase_creator_facts erase_drive_owner map_err.simps ..

section \<open>The contract of a gate\<close>

text \<open>Both gates convert a snapshot, evaluate the request and grant on a positive decision, under a
  condition on the snapshot of their own.\<close>

locale snapshot_gate =
  fixes request :: "AuthorizationSnapshot \<Rightarrow> Action \<Rightarrow> (RecursiveShareAuthorizationRequest, 'e) result"
    and gate :: "AuthorizationSnapshot \<Rightarrow> Action \<Rightarrow> share_metrics \<Rightarrow> (('g, 'e) result \<times> share_metrics) outcome"
    and fenced :: "AuthorizationSnapshot \<Rightarrow> bool"
  assumes request_subject: "request s act = Ok q \<Longrightarrow>
      principal_id (rs_principal q) = snap_actor_principal_id s \<and> rs_action q = act"
    and gate_panics: "gate s act m = Panics \<Longrightarrow>
      \<exists>q. request s act = Ok q \<and> evaluate_recursive_direct_shares q = Err Panicked"
    and gate_grants: "(\<exists>g m'. gate s act m = Returns (Ok g, m')) \<longleftrightarrow>
      (\<exists>q d. request s act = Ok q \<and> evaluate_recursive_direct_shares q = Ok d \<and> allowed d) \<and> fenced s"
begin

lemma never_panics: "gate s act m \<noteq> Panics"
  using gate_panics evaluator_never_panics by blast

lemma granted_holds:
  assumes "gate s act m = Returns (Ok g, m')"
  shows "\<exists>q. request s act = Ok q \<and> holds q (snap_actor_principal_id s) act"
proof -
  obtain q d where q: "request s act = Ok q" "evaluate_recursive_direct_shares q = Ok d" "allowed d"
    using gate_grants [of s act m] assms by blast
  then have "holds q (principal_id (rs_principal q)) (rs_action q)"
    using evaluator_decides [OF q(2)] by (simp add: root_key_def share_proven_iff_holds)
  with q(1) request_subject [OF q(1)] show ?thesis by auto
qed

lemma holds_granted:
  assumes "request s act = Ok q" and "moderate q" and "fenced s"
    and "holds q (snap_actor_principal_id s) act"
  shows "\<exists>g m'. gate s act m = Returns (Ok g, m')"
proof -
  obtain d where d: "evaluate_recursive_direct_shares q = Ok d"
    using evaluator_answers [OF assms(2)] by blast
  moreover have "allowed d"
    using assms(4) evaluator_decides [OF d] request_subject [OF assms(1)]
    by (simp add: root_key_def share_proven_iff_holds)
  ultimately show ?thesis
    using gate_grants [of s act m] assms(1,3) by blast
qed

end

lemma map_ok_range: "(\<exists>g. map_ok f r = Ok g) \<longleftrightarrow> (\<exists>x. r = Ok x)"
  by (cases r) auto

interpretation api_gate: snapshot_gate "api_request L" "api_evaluate_snapshot L"
  "\<lambda>s. 0 < sint (snap_drive_acl_generation s)" for L
proof
  fix s act q m
  show "api_request L s act = Ok q \<Longrightarrow>
      principal_id (rs_principal q) = snap_actor_principal_id s \<and> rs_action q = act"
    using api_request_Ok(1,2) by blast
  show "\<exists>q. api_request L s act = Ok q \<and> evaluate_recursive_direct_shares q = Err Panicked"
    if "api_evaluate_snapshot L s act m = Panics"
    using that by (auto simp: api_evaluate_snapshot_def Let_def
        split: result.splits share_failure.splits if_splits)
  show "(\<exists>g m'. api_evaluate_snapshot L s act m = Returns (Ok g, m')) \<longleftrightarrow>
      (\<exists>q d. api_request L s act = Ok q \<and> evaluate_recursive_direct_shares q = Ok d \<and> allowed d)
      \<and> 0 < sint (snap_drive_acl_generation s)"
    by (auto simp: api_evaluate_snapshot_def Let_def map_ok_range
        split: result.splits share_failure.splits)
qed

lemma vfs_request_Ok: "vfs_request L s act = Ok q \<longleftrightarrow> api_request L s act = Ok q"
  by (simp add: erase_request [symmetric] map_err_Ok_iff)

interpretation vfs_gate: snapshot_gate "vfs_request L" "vfs_evaluate_snapshot L" "\<lambda>s. True" for L
proof
  fix s act q m
  show "vfs_request L s act = Ok q \<Longrightarrow>
      principal_id (rs_principal q) = snap_actor_principal_id s \<and> rs_action q = act"
    using api_request_Ok(1,2) vfs_request_Ok by blast
  show "\<exists>q. vfs_request L s act = Ok q \<and> evaluate_recursive_direct_shares q = Err Panicked"
    if "vfs_evaluate_snapshot L s act m = Panics"
    using that by (auto simp: vfs_evaluate_snapshot_def
        split: result.splits share_failure.splits if_splits)
  show "(\<exists>g m'. vfs_evaluate_snapshot L s act m = Returns (Ok g, m')) \<longleftrightarrow>
      (\<exists>q d. vfs_request L s act = Ok q \<and> evaluate_recursive_direct_shares q = Ok d \<and> allowed d) \<and> True"
    by (auto simp: vfs_evaluate_snapshot_def split: result.splits share_failure.splits)
qed

lemma entry_share_active:
  "api_recursive_share_entry L row = Ok e \<Longrightarrow> row_direct_share_id row \<noteq> None \<Longrightarrow>
     row_direct_share_active row"
  by (auto simp: api_recursive_share_entry_def split: if_splits)

definition snapshot_rows :: "AuthorizationSnapshot \<Rightarrow> AclInputRow set" where
  "snapshot_rows s = set (snap_entries s) \<union> (\<Union>f \<in> set (snap_creator_facts s). set (fact_entries f))"

lemma request_rows:
  assumes "api_request L s act = Ok q" and "row \<in> snapshot_rows s"
  shows "\<exists>e. api_recursive_share_entry L row = Ok e"
proof -
  consider "row \<in> set (snap_entries s)"
    | f where "f \<in> set (snap_creator_facts s)" "row \<in> set (fact_entries f)"
    using assms(2) by (auto simp: snapshot_rows_def)
  then show ?thesis
  proof cases
    case 1
    with api_request_Ok(7) [OF assms(1)] show ?thesis
      by (auto simp: list_all2_conv_all_nth in_set_conv_nth)
  next
    case 2
    with api_request_Ok(8) [OF assms(1)] obtain e where "api_creator_facts L f = Ok e"
      by (auto simp: list_all2_conv_all_nth in_set_conv_nth)
    then have "list_all2 (\<lambda>row e. api_recursive_share_entry L row = Ok e) (fact_entries f) (facts_entries e)"
      by (auto simp: api_creator_facts_def result_simps)
    with 2 show ?thesis
      by (auto simp: list_all2_conv_all_nth in_set_conv_nth)
  qed
qed

definition traverse_granted :: "nfs_query \<Rightarrow> uuid_lib \<Rightarrow> uuid \<Rightarrow> VfsAuthorizationGrant \<Rightarrow> bool" where
  "traverse_granted nfs L res g \<longleftrightarrow>
     (\<exists>s q. nfs res = Ok s \<and> vfs_request L s Traverse = Ok q
        \<and> holds q (snap_actor_principal_id s) Traverse
        \<and> vfs_resource_acl_generation g = snap_resource_acl_generation s)"

lemma authorize_nfs_granted:
  assumes "authorize_nfs nfs L res Traverse m = Returns (Ok g, m')"
  shows "traverse_granted nfs L res g"
proof -
  obtain s where s: "nfs res = Ok s" "vfs_evaluate_snapshot L s Traverse m = Returns (Ok g, m')"
    using assms by (auto simp: authorize_nfs_def split: result.splits)
  moreover have "vfs_resource_acl_generation g = snap_resource_acl_generation s"
    using s(2) by (auto simp: vfs_evaluate_snapshot_def
        split: result.splits share_failure.splits if_splits)
  ultimately show ?thesis
    using vfs_gate.granted_holds [OF s(2)] by (auto simp: traverse_granted_def)
qed

lemma traverse_loop_Ok:
  assumes "traverse_loop nfs L ids acc m = Returns (Ok gs, m')"
  shows "\<exists>hs. gs = acc @ hs \<and> list_all2 (traverse_granted nfs L) ids hs"
  using assms
proof (induction ids arbitrary: acc m)
  case (Cons res ids)
  obtain g n where g: "authorize_nfs nfs L res Traverse m = Returns (Ok g, n)"
    and rest: "traverse_loop nfs L ids (acc @ [g]) n = Returns (Ok gs, m')"
    using Cons.prems by (auto split: outcome.splits result.splits prod.splits)
  from Cons.IH [OF rest] authorize_nfs_granted [OF g] show ?case
    by (auto simp: list_all2_Cons1)
qed simp

section \<open>Properties\<close>

definition sample_row :: "bool \<Rightarrow> AclInputRow" where
  "sample_row active =
     \<lparr>row_id = sample_id 10, row_resource_id = sample_id 2, row_principal_id = sample_id 1,
      row_action = ''READ_CONTENT'', row_effect = ''allow'',
      row_inheritance = ''self_and_descendants'', row_depth = 0, row_direct = True,
      row_generation = 1, row_created_by = sample_id 3,
      row_direct_share_id = Some (sample_id 11), row_direct_share_active = active\<rparr>"

definition sample_snapshot :: "bool \<Rightarrow> AuthorizationSnapshot" where
  "sample_snapshot active =
     \<lparr>snap_tenant_id = sample_id 20, snap_drive_id = sample_id 21, snap_resource_id = sample_id 2,
      snap_owner_principal_id = sample_id 3, snap_owner_kind = ''user'', snap_owner_group_id = None,
      snap_actor_principal_id = sample_id 1, snap_actor_groups = [],
      snap_entries = [sample_row active],
      snap_creator_facts =
        [\<lparr>fact_principal_id = sample_id 3, fact_groups = [], fact_entries = []\<rparr>],
      snap_membership_generation = 4, snap_drive_acl_generation = 5,
      snap_namespace_generation = 6, snap_resource_namespace_generation = 7,
      snap_resource_acl_generation = 8\<rparr>"

definition no_metrics :: share_metrics where
  "no_metrics = \<lparr>depth_limit_denials = None, edge_limit_denials = None\<rparr>"

definition sample_grant :: AuthorizationGrant where
  "sample_grant =
     \<lparr>grant_membership_generation = 4, grant_drive_acl_generation = 5,
      grant_namespace_generation = 6, grant_resource_acl_generation = 8\<rparr>"

lemma sample_snapshot_granted:
  "api_evaluate_snapshot rfc4122 (sample_snapshot True) ReadContent no_metrics =
     Returns (Ok sample_grant, no_metrics)"
  by code_simp

text \<open>C6: A grant of the API gate is justified: the actor of the snapshot holds the action by the
  delegation rules on the converted rows, the grant carries exactly the positive generations of
  the snapshot that the decision was made on, and no row of the snapshot, of the actor or of a
  creator, belongs to a share that is no longer active.\<close>

theorem api_grant_justified:
  assumes "api_evaluate_snapshot L s act m = Returns (Ok g, m')"
  shows "(\<exists>q. api_request L s act = Ok q \<and> holds q (snap_actor_principal_id s) act)
    \<and> g = \<lparr>grant_membership_generation = snap_membership_generation s,
           grant_drive_acl_generation = snap_drive_acl_generation s,
           grant_namespace_generation = snap_namespace_generation s,
           grant_resource_acl_generation = snap_resource_acl_generation s\<rparr>
    \<and> 0 < sint (snap_membership_generation s) \<and> 0 < sint (snap_drive_acl_generation s)
    \<and> 0 < sint (snap_namespace_generation s) \<and> 0 < sint (snap_resource_acl_generation s)
    \<and> (\<forall>row \<in> snapshot_rows s. row_direct_share_id row \<noteq> None \<longrightarrow> row_direct_share_active row)"
proof -
  obtain q where q: "api_request L s act = Ok q" and h: "holds q (snap_actor_principal_id s) act"
    using api_gate.granted_holds [OF assms] by blast
  have g: "g = \<lparr>grant_membership_generation = membership (rs_generations q),
           grant_drive_acl_generation = snap_drive_acl_generation s,
           grant_namespace_generation = namespace (rs_generations q),
           grant_resource_acl_generation = resource_acl (rs_generations q)\<rparr>
        \<and> 0 < sint (snap_drive_acl_generation s)"
    using assms q by (auto simp: api_evaluate_snapshot_def Let_def result_simps
        split: result.splits share_failure.splits if_splits)
  have "\<forall>row \<in> snapshot_rows s. row_direct_share_id row \<noteq> None \<longrightarrow> row_direct_share_active row"
    using request_rows [OF q] entry_share_active by blast
  with q h g api_request_Ok(3-6) [OF q] show ?thesis by auto
qed

theorem api_grant_justified_witness:
  "api_evaluate_snapshot rfc4122 (sample_snapshot True) ReadContent no_metrics =
     Returns (Ok sample_grant, no_metrics)
   \<and> (\<exists>q. holds q (sample_id 1) ReadContent)"
  using api_grant_justified [OF sample_snapshot_granted] sample_snapshot_granted
  by (auto simp: sample_snapshot_def)

text \<open>C21: The API and the mount service authorize alike: on the same snapshot they convert to the
  same request, and the API grants iff the mount service grants and the drive ACL generation is
  positive, which only the API checks.\<close>

theorem api_and_mount_gates_agree:
  "(\<exists>g m'. api_evaluate_snapshot L s act m = Returns (Ok g, m')) \<longleftrightarrow>
     (\<exists>g m'. vfs_evaluate_snapshot L s act m = Returns (Ok g, m'))
     \<and> 0 < sint (snap_drive_acl_generation s)"
  unfolding api_gate.gate_grants vfs_gate.gate_grants vfs_request_Ok by simp


lemma sample_snapshot_request: "is_ok (api_request rfc4122 (sample_snapshot True) Delete)"
  by code_simp


text \<open>C28: The session-bound gate publishes generations only for access it granted: it asks the
  database for at most one publication, that of the snapshot it decided on for the given session,
  exactly when the evaluation of that snapshot granted; and it returns the grant only if the
  publication succeeded.\<close>

theorem session_publication_only_for_grants:
  assumes "authorization_snapshot DB tenant actor drive res = Ok s"
  shows "\<exists>r m' pubs. api_authorize_session_bound DB L tenant actor session drive res act m =
      Returns (r, m', pubs)
    \<and> (pubs = [(s, session)] \<longleftrightarrow> (\<exists>g n. api_evaluate_snapshot L s act m = Returns (Ok g, n)))
    \<and> (pubs = [] \<or> pubs = [(s, session)])
    \<and> (\<forall>g. r = Ok g \<longleftrightarrow> api_evaluate_snapshot L s act m = Returns (Ok g, m')
         \<and> publish_authorization_generations DB s session = Ok ())"
  using assms api_gate.never_panics [of L s act m]
  by (auto simp: api_authorize_session_bound_def split: outcome.splits result.splits prod.splits)

definition sample_database :: Database where
  "sample_database =
     \<lparr>authorization_snapshot = (\<lambda>tenant actor drive res. Ok (sample_snapshot True)),
      publish_authorization_generations = (\<lambda>s session. Ok ())\<rparr>"

theorem session_publication_only_for_grants_witness:
  "\<exists>r m'. api_authorize_session_bound sample_database rfc4122 1 2 9 3 4 ReadContent no_metrics =
     Returns (r, m', [(sample_snapshot True, 9)])"
proof -
  have "authorization_snapshot sample_database 1 2 3 4 = Ok (sample_snapshot True)"
    by (simp add: sample_database_def)
  from session_publication_only_for_grants [OF this, of rfc4122 9 ReadContent no_metrics]
  show ?thesis
    using sample_snapshot_granted by auto
qed

text \<open>C29: A traversal grant covers the whole ancestor chain: the mount service grants a traversal
  only if the chain has between 1 and 128 resources and on every one of them, in order, the actor
  of its own snapshot holds the traverse action; each grant carries the generation of its
  resource.\<close>

theorem traverse_grants_every_ancestor:
  assumes "authorize_traverse nfs L ids m = Returns (Ok gs, m')"
  shows "1 \<le> length ids \<and> length ids \<le> 128 \<and> length gs = length ids
    \<and> (\<forall>i < length ids. \<exists>s q. nfs (ids ! i) = Ok s \<and> vfs_request L s Traverse = Ok q
         \<and> holds q (snap_actor_principal_id s) Traverse
         \<and> vfs_resource_acl_generation (gs ! i) = snap_resource_acl_generation s)"
proof -
  have ids: "ids \<noteq> []" "length ids \<le> 128" and loop: "traverse_loop nfs L ids [] m = Returns (Ok gs, m')"
    using assms by (auto simp: authorize_traverse_def split: if_splits)
  have "list_all2 (traverse_granted nfs L) ids gs"
    using traverse_loop_Ok [OF loop] by auto
  with ids show ?thesis
    by (auto simp: list_all2_conv_all_nth traverse_granted_def Suc_le_eq)
qed

definition traverse_snapshot :: AuthorizationSnapshot where
  "traverse_snapshot = (sample_snapshot True)\<lparr>snap_entries := [(sample_row True)\<lparr>row_action := ''TRAVERSE''\<rparr>]\<rparr>"

definition traverse_grant :: VfsAuthorizationGrant where
  "traverse_grant =
     \<lparr>vfs_membership_generation = 4, vfs_drive_acl_generation = 5, vfs_namespace_generation = 6,
      vfs_resource_acl_generation = 8, vfs_resource_namespace_generation = 7\<rparr>"

lemma traverse_sample:
  "authorize_traverse (\<lambda>_. Ok traverse_snapshot) rfc4122 [sample_id 30, sample_id 31] no_metrics =
     Returns (Ok [traverse_grant, traverse_grant], no_metrics)"
  by code_simp

theorem traverse_grants_every_ancestor_witness:
  "\<exists>q. vfs_request rfc4122 traverse_snapshot Traverse = Ok q \<and> holds q (sample_id 1) Traverse"
  using traverse_grants_every_ancestor [OF traverse_sample]
  by (auto simp: traverse_snapshot_def sample_snapshot_def)

end
