(* ===== verification/Keyset.thy ===== *)
theory Keyset
  imports BTree_Map Text_Codec
begin

text \<open>
  Purpose-bound verification keysets (\<open>source/crates/filebelt-capability-keyset/src/lib.rs\<close>):
  the text format with its strict parser and its encoder, the lookup of a generation and the
  verification of a signature.

  Base64 and Ed25519 verification are parameters: \<open>b64_encode_lib\<close>, \<open>b64_decode_lib\<close>
  and \<open>ed25519_verify\<close> of the record \<open>key_lib\<close>.
\<close>

section \<open>Purposes\<close>

datatype KeyPurpose =
    ApiStorage | ApiCollaborationGrant | ApiMcpDelegation | CollaborationStorage
  | DocumentStorage | RevisionStorage | MountStorage | MediaStorage

primrec purpose_as_str :: "KeyPurpose \<Rightarrow> string" where
  "purpose_as_str ApiStorage = ''api-storage''"
| "purpose_as_str ApiCollaborationGrant = ''api-collaboration-grant''"
| "purpose_as_str ApiMcpDelegation = ''api-mcp-delegation''"
| "purpose_as_str CollaborationStorage = ''collaboration-storage''"
| "purpose_as_str DocumentStorage = ''document-storage''"
| "purpose_as_str RevisionStorage = ''revision-storage''"
| "purpose_as_str MountStorage = ''mount-storage''"
| "purpose_as_str MediaStorage = ''media-storage''"

datatype KeysetError = InvalidEncoding | UnknownKey | InvalidSignature

definition purpose_from_str :: "string \<Rightarrow> (KeyPurpose, KeysetError) result" where
  "purpose_from_str value =
     (if value = ''api-storage'' then Ok ApiStorage
      else if value = ''api-collaboration-grant'' then Ok ApiCollaborationGrant
      else if value = ''api-mcp-delegation'' then Ok ApiMcpDelegation
      else if value = ''collaboration-storage'' then Ok CollaborationStorage
      else if value = ''document-storage'' then Ok DocumentStorage
      else if value = ''revision-storage'' then Ok RevisionStorage
      else if value = ''mount-storage'' then Ok MountStorage
      else if value = ''media-storage'' then Ok MediaStorage
      else Err InvalidEncoding)"

section \<open>Keysets\<close>

record key_lib =
  b64_encode_lib :: "bytes \<Rightarrow> string"
  b64_decode_lib :: "string \<Rightarrow> bytes option"
  ed25519_verify :: "bytes \<Rightarrow> bytes \<Rightarrow> bytes \<Rightarrow> bool"

definition FORMAT :: string where
  "FORMAT = ''filebelt-capability-keyset-v2''"

definition MAX_KEYSET_TEXT_BYTES :: nat where
  "MAX_KEYSET_TEXT_BYTES = 1024"

record Keyset =
  keys :: "(u32, bytes) btree_map"

definition parse_key_line ::
  "key_lib \<Rightarrow> string \<Rightarrow> (u32, bytes) btree_map \<Rightarrow> ((u32, bytes) btree_map, KeysetError) result" where
  "parse_key_line B line ks =
     and_then (ok_or (split_once (CHR '':'') line) InvalidEncoding) (\<lambda>(generation_text, encoded).
     if generation_text = [] \<or> \<not> list_all is_ascii_digit generation_text then Err InvalidEncoding
     else and_then (ok_or (parse_u32 generation_text) InvalidEncoding) (\<lambda>generation.
     if generation = 0 \<or> decimal (unat generation) \<noteq> generation_text then Err InvalidEncoding
     else and_then (ok_or (b64_decode_lib B encoded) InvalidEncoding) (\<lambda>decoded.
     if length decoded \<noteq> 32 then Err InvalidEncoding
     else if bt_contains_key ks generation \<or> decoded \<in> set (bt_values ks) then Err InvalidEncoding
     else Ok (bt_insert generation decoded ks))))"

fun parse_key_lines ::
  "key_lib \<Rightarrow> string list \<Rightarrow> (u32, bytes) btree_map \<Rightarrow> ((u32, bytes) btree_map, KeysetError) result"
  where
  "parse_key_lines B [] ks = Ok ks"
| "parse_key_lines B (line # lines) ks =
     and_then (parse_key_line B line ks) (parse_key_lines B lines)"

definition keyset_parse :: "key_lib \<Rightarrow> string \<Rightarrow> string \<Rightarrow> (Keyset, KeysetError) result" where
  "keyset_parse B source purpose =
     (if source = [] \<or> length source > MAX_KEYSET_TEXT_BYTES \<or> \<not> is_ascii source
      then Err InvalidEncoding
      else
        and_then
          (ok_or (case strip_suffix newline source of
                    None \<Rightarrow> None
                  | Some t \<Rightarrow> if ends_with newline t then None else Some t) InvalidEncoding)
          (\<lambda>canonical.
            let lines = split_on newline canonical in
            if \<not> (3 \<le> length lines \<and> length lines \<le> 4) \<or> lines ! 0 \<noteq> FORMAT
               \<or> lines ! 1 \<noteq> ''purpose='' @ purpose
            then Err InvalidEncoding
            else map_ok (\<lambda>ks. \<lparr>keys = ks\<rparr>) (parse_key_lines B (drop 2 lines) bt_empty)))"

definition keyset_verify ::
  "key_lib \<Rightarrow> Keyset \<Rightarrow> u32 \<Rightarrow> bytes \<Rightarrow> bytes \<Rightarrow> (unit, KeysetError) result" where
  "keyset_verify B k generation message signature =
     and_then (ok_or (bt_get (keys k) generation) UnknownKey) (\<lambda>key.
       if ed25519_verify B key message signature then Ok () else Err InvalidSignature)"

fun collect_entries ::
  "(u32 \<times> bytes) list \<Rightarrow> (u32, bytes) btree_map \<Rightarrow> ((u32, bytes) btree_map, KeysetError) result"
  where
  "collect_entries [] ks = Ok ks"
| "collect_entries ((generation, public_key) # es) ks =
     (if generation = 0 \<or> bt_contains_key ks generation \<or> public_key \<in> set (bt_values ks)
      then Err InvalidEncoding
      else collect_entries es (bt_insert generation public_key ks))"

definition key_line :: "key_lib \<Rightarrow> u32 \<times> bytes \<Rightarrow> string" where
  "key_line B e = decimal (unat (fst e)) @ CHR '':'' # b64_encode_lib B (snd e)"

definition encode_keyset ::
  "key_lib \<Rightarrow> KeyPurpose \<Rightarrow> (u32 \<times> bytes) list \<Rightarrow> (string, KeysetError) result" where
  "encode_keyset B purpose es =
     (if \<not> (1 \<le> length es \<and> length es \<le> 2) then Err InvalidEncoding
      else
        and_then (collect_entries es bt_empty) (\<lambda>ks.
          Ok (FORMAT @ [newline] @ ''purpose='' @ purpose_as_str purpose @ [newline]
              @ concat (map (\<lambda>e. key_line B e @ [newline]) ks))))"

fun all_inserted :: "bytes list \<Rightarrow> bytes set \<Rightarrow> bool" where
  "all_inserted [] observed = True"
| "all_inserted (key # ks) observed =
     (key \<notin> observed \<and> all_inserted ks (insert key observed))"

definition public_key_material_is_disjoint :: "bytes list \<Rightarrow> bool" where
  "public_key_material_is_disjoint ks = all_inserted ks {}"

text \<open>\<open>typed_keyset!\<close>: one type per purpose, parsed with the label of its purpose.\<close>

definition typed_parse :: "key_lib \<Rightarrow> KeyPurpose \<Rightarrow> string \<Rightarrow> (Keyset, KeysetError) result" where
  "typed_parse B purpose source = keyset_parse B source (purpose_as_str purpose)"

section \<open>Parsing what was encoded\<close>

definition keyset_ok :: "(u32, bytes) btree_map \<Rightarrow> bool" where
  "keyset_ok ks \<longleftrightarrow>
     bt_invar ks \<and> length ks \<le> 2 \<and> 0 \<notin> fst ` set ks \<and> distinct (map snd ks)"

text \<open>What the base64 library promises for one key.\<close>

definition b64_law :: "key_lib \<Rightarrow> bytes \<Rightarrow> bool" where
  "b64_law B key \<longleftrightarrow>
     b64_decode_lib B (b64_encode_lib B key) = Some key
     \<and> length (b64_encode_lib B key) = (4 * length key + 2) div 3
     \<and> set (b64_encode_lib B key) \<subseteq> set b64_alphabet"

lemma bt_insert_larger:
  "\<forall>j \<in> fst ` set m. j < k \<Longrightarrow> bt_insert k v m = m @ [(k, v)]"
  by (induction m) auto

lemma parse_key_line_key_line:
  assumes "b64_law B (snd e)" and "length (snd e) = 32" and "fst e \<noteq> 0"
    and "\<not> bt_contains_key ks (fst e)" and "snd e \<notin> set (bt_values ks)"
  shows "parse_key_line B (key_line B e) ks = Ok (bt_insert (fst e) (snd e) ks)"
proof -
  have "CHR '':'' \<notin> set (decimal (unat (fst e)))"
    by (rule decimal_no_char) (simp add: is_ascii_digit_def byte_def)
  then show ?thesis
    using assms
    by (simp add: parse_key_line_def key_line_def split_once_append decimal_digits parse_u32_decimal
        b64_law_def)
qed

lemma parse_key_lines_encoded:
  assumes "bt_invar (ks @ es)" and "distinct (map snd (ks @ es))" and "0 \<notin> fst ` set es"
    and "\<forall>e \<in> set es. b64_law B (snd e) \<and> length (snd e) = 32"
  shows "parse_key_lines B (map (key_line B) es) ks = Ok (ks @ es)"
  using assms
proof (induction es arbitrary: ks)
  case (Cons e es)
  have larger: "\<forall>j \<in> fst ` set ks. j < fst e"
    using Cons.prems(1) by (auto simp: bt_invar_def sorted_wrt_append)
  then have "parse_key_line B (key_line B e) ks = Ok (bt_insert (fst e) (snd e) ks)"
    using Cons.prems
    by (intro parse_key_line_key_line)
      (auto simp: bt_contains_key_iff bt_values_def image_iff)
  also have "bt_insert (fst e) (snd e) ks = ks @ [e]"
    using bt_insert_larger [OF larger] by simp
  finally show ?case
    using Cons.IH [of "ks @ [e]"] Cons.prems by simp
qed simp

lemma set_bt_insert_new:
  "k \<notin> fst ` set m \<Longrightarrow> set (bt_insert k v m) = insert (k, v) (set m)"
  by (induction k v m rule: bt_insert.induct) auto

lemma length_bt_insert_new: "k \<notin> fst ` set m \<Longrightarrow> length (bt_insert k v m) = Suc (length m)"
  by (induction k v m rule: bt_insert.induct) auto

lemma distinct_bt_insert_new:
  "k \<notin> fst ` set m \<Longrightarrow> v \<notin> snd ` set m \<Longrightarrow> distinct (map snd m) \<Longrightarrow>
     distinct (map snd (bt_insert k v m))"
proof (induction k v m rule: bt_insert.induct)
  case (2 k v k' v' m)
  then have "snd ` set (bt_insert k v m) = insert v (snd ` set m)"
    using set_bt_insert_new [of k m v] by simp
  with 2 show ?case by auto
qed simp

lemma collect_entries_Ok:
  assumes "collect_entries es ks = Ok ks'" and "bt_invar ks" and "distinct (map snd ks)"
    and "0 \<notin> fst ` set ks"
  shows "bt_invar ks' \<and> distinct (map snd ks') \<and> 0 \<notin> fst ` set ks'
    \<and> set ks' = set ks \<union> set es \<and> length ks' = length ks + length es"
  using assms
proof (induction es ks rule: collect_entries.induct)
  case (2 g k es ks)
  then have new: "g \<noteq> 0" "g \<notin> fst ` set ks" "k \<notin> snd ` set ks"
    and rest: "collect_entries es (bt_insert g k ks) = Ok ks'"
    by (auto simp: bt_contains_key_iff bt_values_def split: if_splits)
  note ins = set_bt_insert_new [OF new(2), of k] length_bt_insert_new [OF new(2), of k]
    distinct_bt_insert_new [OF new(2,3)]
  have "bt_invar ks' \<and> distinct (map snd ks') \<and> 0 \<notin> fst ` set ks'
    \<and> set ks' = set (bt_insert g k ks) \<union> set es \<and> length ks' = length (bt_insert g k ks) + length es"
    using "2.IH" [OF _ rest] "2.prems" new ins
    by (auto simp: bt_contains_key_iff bt_values_def)
  then show ?case
    using ins(1,2) by auto
qed simp

lemma join_with_terminated:
  "ps \<noteq> [] \<Longrightarrow> join_with c ps @ [c] = concat (map (\<lambda>p. p @ [c]) ps)"
  by (induction c ps rule: join_with.induct) auto

lemma last_join_with:
  "ps \<noteq> [] \<Longrightarrow> last ps \<noteq> [] \<Longrightarrow> join_with c ps \<noteq> [] \<and> last (join_with c ps) = last (last ps)"
  by (induction c ps rule: join_with.induct) auto

lemma keyset_parse_lines:
  assumes "ls \<noteq> []" and "length ls \<le> 2" and "\<forall>l \<in> set ls. l \<noteq> [] \<and> newline \<notin> set l \<and> is_ascii l"
    and "newline \<notin> set purpose" and "is_ascii purpose"
    and "length (concat (map (\<lambda>l. l @ [newline]) (FORMAT # (''purpose='' @ purpose) # ls))) \<le> 1024"
  shows "keyset_parse B (concat (map (\<lambda>l. l @ [newline]) (FORMAT # (''purpose='' @ purpose) # ls))) purpose =
    map_ok (\<lambda>ks. \<lparr>keys = ks\<rparr>) (parse_key_lines B ls bt_empty)"
proof -
  let ?ls = "FORMAT # (''purpose='' @ purpose) # ls"
  define t where "t = join_with newline ?ls"
  have source: "concat (map (\<lambda>l. l @ [newline]) ?ls) = t @ [newline]"
    unfolding t_def by (rule join_with_terminated [symmetric]) simp
  have clean: "\<forall>l \<in> set ?ls. newline \<notin> set l"
    using assms(3,4) by (simp add: FORMAT_def newline_def)
  have ascii: "is_ascii (t @ [newline])"
    using assms(3,5) unfolding source [symmetric]
    by (auto simp: is_ascii_def list_all_iff FORMAT_def newline_def byte_def)
  have split: "split_on newline t = ?ls"
    unfolding t_def by (rule split_join_with [OF _ clean]) simp
  have "last ls \<noteq> []" "newline \<notin> set (last ls)"
    using assms(1,3) by simp_all
  then have "last t \<noteq> newline"
    using assms(1) last_join_with [of ?ls newline] unfolding t_def by (metis last_ConsR last_in_set list.distinct(1))
  moreover have "length (t @ [newline]) \<le> 1024"
    using assms(6) unfolding source .
  ultimately show ?thesis
    using assms(1,2) ascii unfolding source
    by (cases ls) (auto simp: keyset_parse_def split ends_with_def MAX_KEYSET_TEXT_BYTES_def)
qed

lemma key_line_clean:
  assumes "b64_law B (snd e)"
  shows "key_line B e \<noteq> []" and "newline \<notin> set (key_line B e)" and "is_ascii (key_line B e)"
proof -
  have alphabet: "newline \<notin> set b64_alphabet" "\<forall>c \<in> set b64_alphabet. byte c < 128"
    by (simp_all add: b64_alphabet_def newline_def byte_def)
  have digits: "newline \<notin> set (decimal n)" for n
    by (rule decimal_no_char) (simp add: is_ascii_digit_def newline_def byte_def)
  have ascii: "\<forall>c \<in> set (decimal n). byte c < 128" for n
    using decimal_digits [of n] by (auto simp: list_all_iff is_ascii_digit_def)
  show "key_line B e \<noteq> []" by (simp add: key_line_def)
  show "newline \<notin> set (key_line B e)"
    using assms alphabet(1) digits by (auto simp: key_line_def b64_law_def newline_def)
  show "is_ascii (key_line B e)"
    using assms alphabet(2) ascii
    by (auto simp: key_line_def b64_law_def is_ascii_def list_all_iff byte_def)
qed

lemma length_key_line:
  assumes "b64_law B (snd e)" and "length (snd e) = 32"
  shows "length (key_line B e) \<le> 54"
proof -
  have "unat (fst e) < 10 ^ 10"
    using unsigned_less [of "fst e", where ?'a = nat] by simp
  then have "length (decimal (unat (fst e))) \<le> 10"
    by (rule length_decimal) simp
  with assms show ?thesis
    by (simp add: key_line_def b64_law_def)
qed

lemma purpose_as_str_clean:
  "newline \<notin> set (purpose_as_str p)" "is_ascii (purpose_as_str p)" "length (purpose_as_str p) \<le> 23"
  by (cases p; simp add: newline_def is_ascii_def byte_def)+

lemma purpose_as_str_inject [simp]: "purpose_as_str p = purpose_as_str q \<longleftrightarrow> p = q"
  by (cases p; cases q) simp_all

lemma purpose_round_trip: "purpose_from_str (purpose_as_str p) = Ok p"
  by (cases p) (simp_all add: purpose_from_str_def)

lemma encoded_lines_length:
  assumes "\<forall>e \<in> set ks. b64_law B (snd e) \<and> length (snd e) = 32" and "length ks \<le> 2"
  shows "length (concat (map (\<lambda>l. l @ [newline])
    (FORMAT # (''purpose='' @ purpose_as_str p) # map (key_line B) ks))) \<le> 1024"
proof -
  have "sum_list (map (\<lambda>e. length (key_line B e) + 1) ks) \<le> sum_list (map (\<lambda>e. 55) ks)"
    using assms(1) length_key_line by (intro sum_list_mono) fastforce
  also have "\<dots> \<le> 110"
    using assms(2) by (simp add: sum_list_triv)
  finally show ?thesis
    using purpose_as_str_clean(3) [of p] by (simp add: length_concat comp_def FORMAT_def)
qed

lemma parse_encoded:
  assumes "encode_keyset B p es = Ok source"
    and "\<forall>e \<in> set es. length (snd e) = 32 \<and> b64_law B (snd e)"
  shows "\<exists>ks. typed_parse B p source = Ok \<lparr>keys = ks\<rparr> \<and> keyset_ok ks \<and> set ks = set es"
proof -
  obtain ks where es: "1 \<le> length es" "length es \<le> 2" and ks: "collect_entries es bt_empty = Ok ks"
    and source: "source = concat (map (\<lambda>l. l @ [newline])
      (FORMAT # (''purpose='' @ purpose_as_str p) # map (key_line B) ks))"
    using assms(1) by (auto simp: encode_keyset_def result_simps comp_def split: if_splits)
  have inv: "bt_invar ks" "distinct (map snd ks)" "0 \<notin> fst ` set ks" "set ks = set es"
    "length ks = length es"
    using collect_entries_Ok [OF ks] by (auto simp: bt_empty_def bt_invar_def)
  have law: "\<forall>e \<in> set ks. b64_law B (snd e) \<and> length (snd e) = 32"
    using assms(2) inv(4) by blast
  have "typed_parse B p source =
      map_ok (\<lambda>ks. \<lparr>keys = ks\<rparr>) (parse_key_lines B (map (key_line B) ks) bt_empty)"
    unfolding typed_parse_def source
    using es inv(5) law key_line_clean purpose_as_str_clean encoded_lines_length [OF law]
    by (intro keyset_parse_lines) auto
  also have "parse_key_lines B (map (key_line B) ks) bt_empty = Ok ks"
    using parse_key_lines_encoded [of "[]" ks B] inv law by (simp add: bt_empty_def)
  finally show ?thesis
    using inv es by (auto simp: keyset_ok_def)
qed

section \<open>What the parser accepts\<close>

lemma parse_key_line_Ok:
  assumes "parse_key_line B line ks = Ok ks'"
  obtains g k where "g \<noteq> 0" "g \<notin> fst ` set ks" "k \<notin> snd ` set ks" "length k = 32"
    "ks' = bt_insert g k ks"
  using assms
  by (auto simp: parse_key_line_def result_simps bt_contains_key_iff bt_values_def
      split: prod.splits if_splits)

lemma parse_key_lines_Ok:
  assumes "parse_key_lines B ls ks = Ok ks'" and "bt_invar ks" and "distinct (map snd ks)"
    and "0 \<notin> fst ` set ks" and "\<forall>k \<in> snd ` set ks. length k = 32"
  shows "bt_invar ks' \<and> distinct (map snd ks') \<and> 0 \<notin> fst ` set ks'
    \<and> (\<forall>k \<in> snd ` set ks'. length k = 32) \<and> length ks' = length ks + length ls"
  using assms
proof (induction B ls ks rule: parse_key_lines.induct)
  case (2 B l ls ks)
  then obtain ks1 where line: "parse_key_line B l ks = Ok ks1" and rest: "parse_key_lines B ls ks1 = Ok ks'"
    by (auto simp: result_simps)
  obtain g k where new: "g \<noteq> 0" "g \<notin> fst ` set ks" "k \<notin> snd ` set ks" "length k = 32"
    "ks1 = bt_insert g k ks"
    by (rule parse_key_line_Ok [OF line])
  have "bt_invar ks1" "distinct (map snd ks1)" "0 \<notin> fst ` set ks1" "\<forall>k \<in> snd ` set ks1. length k = 32"
    "length ks1 = Suc (length ks)"
    using "2.prems" new set_bt_insert_new [OF new(2), of k] length_bt_insert_new [OF new(2), of k]
      distinct_bt_insert_new [OF new(2,3)] by auto
  with "2.IH" [OF rest] show ?case by auto
qed simp

lemma keyset_parse_Ok:
  assumes "keyset_parse B source purpose = Ok ks"
  shows "keyset_ok (keys ks) \<and> keys ks \<noteq> [] \<and> (\<forall>k \<in> snd ` set (keys ks). length k = 32)
    \<and> length source \<le> 1024
    \<and> (\<exists>t ls. source = t @ [newline] \<and> split_on newline t = FORMAT # (''purpose='' @ purpose) # ls)"
proof -
  obtain t where t: "strip_suffix newline source = Some t" and len: "length source \<le> 1024"
    and rest: "let lines = split_on newline t in 3 \<le> length lines \<and> length lines \<le> 4
      \<and> lines ! 0 = FORMAT \<and> lines ! 1 = ''purpose='' @ purpose
      \<and> parse_key_lines B (drop 2 lines) bt_empty = Ok (keys ks)"
    using assms
    by (auto simp: keyset_parse_def result_simps Let_def MAX_KEYSET_TEXT_BYTES_def
        split: if_splits option.splits)
  then obtain ls where ls: "split_on newline t = FORMAT # (''purpose='' @ purpose) # ls"
    "1 \<le> length ls" "length ls \<le> 2"
    by (cases "split_on newline t"; cases "tl (split_on newline t)") (auto simp: Let_def)
  then have "parse_key_lines B ls bt_empty = Ok (keys ks)"
    using rest by (simp add: Let_def)
  from parse_key_lines_Ok [OF this] ls len t show ?thesis
    by (auto simp: keyset_ok_def bt_empty_def bt_invar_def strip_suffix_def split: if_splits)
      (metis append_butlast_last_id)
qed

lemma all_inserted_iff: "all_inserted ks S \<longleftrightarrow> distinct ks \<and> set ks \<inter> S = {}"
  by (induction ks arbitrary: S) auto

lemma public_key_material_is_disjoint_iff: "public_key_material_is_disjoint ks \<longleftrightarrow> distinct ks"
  by (simp add: public_key_material_is_disjoint_def all_inserted_iff)

section \<open>Properties\<close>

definition base64_keys :: key_lib where
  "base64_keys =
     \<lparr>b64_encode_lib = b64_encode, b64_decode_lib = b64_decode,
      ed25519_verify = (\<lambda>key message signature. signature = key @ message)\<rparr>"

definition sample_key :: "char \<Rightarrow> bytes" where
  "sample_key c = replicate 31 (CHR ''k'') @ [c]"

definition sample_entries :: "(u32 \<times> bytes) list" where
  "sample_entries = [(12, sample_key (CHR ''b'')), (7, sample_key (CHR ''a''))]"

lemma sample_key_law: "b64_law base64_keys (sample_key (CHR ''a''))" "b64_law base64_keys (sample_key (CHR ''b''))"
  by code_simp+

text \<open>C25: A keyset survives its text form and stays bound to its purpose: where base64 decodes what
  it encoded, parsing an encoded keyset under its own purpose gives back exactly the encoded
  generations and keys, and parsing it under any other purpose fails.\<close>

theorem keyset_text_roundtrip:
  assumes "encode_keyset B p es = Ok source"
    and "\<forall>e \<in> set es. length (snd e) = 32 \<and> b64_law B (snd e)"
  shows "\<exists>ks. typed_parse B p source = Ok ks
    \<and> (\<forall>g k. bt_get (keys ks) g = Some k \<longleftrightarrow> (g, k) \<in> set es)
    \<and> (\<forall>p'. p' \<noteq> p \<longrightarrow> (\<forall>ks'. typed_parse B p' source \<noteq> Ok ks'))"
proof -
  obtain ks where ks: "typed_parse B p source = Ok \<lparr>keys = ks\<rparr>" "keyset_ok ks" "set ks = set es"
    using parse_encoded [OF assms] by blast
  have unique: "p' = p" if "typed_parse B p' source = Ok ks'" for p' ks'
    using keyset_parse_Ok [OF that [unfolded typed_parse_def]]
      keyset_parse_Ok [OF ks(1) [unfolded typed_parse_def]] by auto
  show ?thesis
  proof (intro exI [of _ "\<lparr>keys = ks\<rparr>"] conjI allI impI)
    show "typed_parse B p source = Ok \<lparr>keys = ks\<rparr>"
      by (rule ks(1))
    show "bt_get (keys \<lparr>keys = ks\<rparr>) g = Some k \<longleftrightarrow> (g, k) \<in> set es" for g k
      using bt_entries_get [of ks g k] ks(2,3) by (simp add: keyset_ok_def)
    show "typed_parse B p' source \<noteq> Ok ks'" if "p' \<noteq> p" for p' ks'
      using unique that by blast
  qed
qed

theorem keyset_text_roundtrip_witness:
  "\<exists>source ks. encode_keyset base64_keys MountStorage sample_entries = Ok source
     \<and> typed_parse base64_keys MountStorage source = Ok ks
     \<and> bt_get (keys ks) 7 = Some (sample_key (CHR ''a''))"
proof -
  have "is_ok (encode_keyset base64_keys MountStorage sample_entries)"
    by code_simp
  then obtain source where enc: "encode_keyset base64_keys MountStorage sample_entries = Ok source"
    by (cases "encode_keyset base64_keys MountStorage sample_entries") auto
  have "\<forall>e \<in> set sample_entries. length (snd e) = 32 \<and> b64_law base64_keys (snd e)"
    using sample_key_law by (simp add: sample_entries_def) (simp add: sample_key_def)
  from keyset_text_roundtrip [OF enc this] enc show ?thesis
    by (auto simp: sample_entries_def)
qed

text \<open>C26: The parser is strict: a keyset it accepts has one or two keys, ascending generations none
  of which is zero, key material that is never repeated, and keys of exactly 32 bytes, from a
  text of at most 1024 bytes.\<close>

theorem keyset_parse_strict:
  assumes "typed_parse B p source = Ok ks"
  shows "1 \<le> length (keys ks) \<and> length (keys ks) \<le> 2
    \<and> sorted_wrt (<) (map fst (keys ks)) \<and> 0 \<notin> fst ` set (keys ks)
    \<and> public_key_material_is_disjoint (bt_values (keys ks))
    \<and> (\<forall>key \<in> set (bt_values (keys ks)). length key = 32) \<and> length source \<le> 1024"
  using keyset_parse_Ok [OF assms [unfolded typed_parse_def]]
  by (auto simp: keyset_ok_def bt_invar_def bt_values_def public_key_material_is_disjoint_iff
      Suc_le_eq)

theorem keyset_parse_strict_witness:
  "\<exists>source ks. typed_parse base64_keys ApiStorage source = Ok ks \<and> length (keys ks) \<le> 2"
proof -
  have "is_ok (typed_parse base64_keys ApiStorage
      (''filebelt-capability-keyset-v2'' @ [newline] @ ''purpose=api-storage'' @ [newline]
       @ ''9:a2tra2tra2tra2tra2tra2tra2tra2tra2tra2tra2E'' @ [newline]))" (is "is_ok (typed_parse _ _ ?s)")
    by code_simp
  then obtain ks where ks: "typed_parse base64_keys ApiStorage ?s = Ok ks"
    by (cases "typed_parse base64_keys ApiStorage ?s") auto
  with keyset_parse_strict [OF ks] show ?thesis by blast
qed

end
