(* ===== verification/Capability.thy ===== *)
theory Capability
  imports Keyset
begin

text \<open>
  Storage capabilities (\<open>source/crates/filebelt-storage-protocol/src/lib.rs\<close>): the two signed
  envelopes \<open>fbcap1\<close> (API, collaboration, document and revision services) and
  \<open>fbcap2\<close> (mounts), their claims as generated in
  \<open>protocol/generated/rust/filebelt/storage/v1/filebelt.storage.v1.rs\<close>, issuing, verification
  and claim validation.

  The Protobuf codec (prost), Ed25519 signing, BLAKE3 and \<open>Uuid::parse_str\<close> are parameters,
  with the key library of the keysets, in the record \<open>cap_lib\<close>.
\<close>

section \<open>Messages\<close>

datatype CapabilityOperation =
    Unspecified
  | UploadPart
  | FinalizeUpload
  | Download
  | DeletePayload
  | ScrubPayload
  | WriteCollaborationObject
  | FinalizeCollaborationObject
  | ReadCollaborationObject
  | ReadDocumentVersion
  | WriteDocumentRevision
  | FinalizeDocumentRevision
  | WriteRevisionChunk
  | ReadRevisionChunk
  | DeleteRevisionChunk
  | ReadRevisionLegacyPayload

primrec operation_as_i32 :: "CapabilityOperation \<Rightarrow> i32" where
  "operation_as_i32 Unspecified = 0"
| "operation_as_i32 UploadPart = 1"
| "operation_as_i32 FinalizeUpload = 2"
| "operation_as_i32 Download = 3"
| "operation_as_i32 DeletePayload = 4"
| "operation_as_i32 ScrubPayload = 5"
| "operation_as_i32 WriteCollaborationObject = 6"
| "operation_as_i32 FinalizeCollaborationObject = 7"
| "operation_as_i32 ReadCollaborationObject = 8"
| "operation_as_i32 ReadDocumentVersion = 9"
| "operation_as_i32 WriteDocumentRevision = 10"
| "operation_as_i32 FinalizeDocumentRevision = 11"
| "operation_as_i32 WriteRevisionChunk = 12"
| "operation_as_i32 ReadRevisionChunk = 13"
| "operation_as_i32 DeleteRevisionChunk = 14"
| "operation_as_i32 ReadRevisionLegacyPayload = 15"

datatype MountCapabilityOperation =
    Unspecified
  | Read
  | Write
  | Flush
  | Finalize
  | Abort
  | DeleteStaging
  | WriteData
  | Deallocate
  | Allocate
  | SeekData
  | SeekHole

primrec mount_operation_as_i32 :: "MountCapabilityOperation \<Rightarrow> i32" where
  "mount_operation_as_i32 Unspecified = 0"
| "mount_operation_as_i32 Read = 1"
| "mount_operation_as_i32 Write = 2"
| "mount_operation_as_i32 Flush = 3"
| "mount_operation_as_i32 Finalize = 4"
| "mount_operation_as_i32 Abort = 5"
| "mount_operation_as_i32 DeleteStaging = 6"
| "mount_operation_as_i32 WriteData = 7"
| "mount_operation_as_i32 Deallocate = 8"
| "mount_operation_as_i32 Allocate = 9"
| "mount_operation_as_i32 SeekData = 10"
| "mount_operation_as_i32 SeekHole = 11"

record CapabilityClaims =
  cap_capability_id :: string
  cap_audience :: string
  cap_operation :: i32
  cap_tenant_id :: string
  cap_principal_id :: string
  cap_session_id :: string
  cap_resource_id :: string
  cap_upload_id :: string
  cap_payload_id :: string
  cap_part_number :: u64
  cap_range_start :: u64
  cap_range_end :: u64
  cap_resource_acl_generation :: u64
  cap_membership_generation :: u64
  cap_namespace_generation :: u64
  cap_fencing_token :: u64
  cap_nonce :: bytes
  cap_issued_at_unix_seconds :: i64
  cap_expires_at_unix_seconds :: i64
  cap_drive_acl_generation :: u64
  cap_grant_id :: string

record SignedCapability =
  sc_key_generation :: u32
  sc_claims :: bytes
  sc_signature :: bytes

record MountCapabilityClaims =
  mnt_capability_id :: string
  mnt_audience :: string
  mnt_operation :: i32
  mnt_tenant_id :: string
  mnt_principal_id :: string
  mnt_mount_session_id :: string
  mnt_credential_id :: string
  mnt_drive_id :: string
  mnt_resource_id :: string
  mnt_version_id :: string
  mnt_write_session_id :: string
  mnt_range_start :: u64
  mnt_range_end :: u64
  mnt_credential_generation :: u64
  mnt_authorization_generation :: u64
  mnt_membership_generation :: u64
  mnt_drive_acl_generation :: u64
  mnt_namespace_generation :: u64
  mnt_resource_acl_generation :: u64
  mnt_gateway_epoch :: u64
  mnt_fencing_token :: u64
  mnt_nonce :: bytes
  mnt_issued_at_unix_seconds :: i64
  mnt_expires_at_unix_seconds :: i64
  mnt_grant_id :: string
  mnt_content_blake3 :: bytes

record SignedMountCapability =
  sm_key_generation :: u32
  sm_claims :: bytes
  sm_signature :: bytes

record 'c Verified =
  verified_claims :: 'c
  verified_generation :: u32

record cap_lib =
  key_ops :: key_lib
  cap_uuid_parse :: "string \<Rightarrow> uuid option"
  ed25519_sign :: "bytes \<Rightarrow> bytes \<Rightarrow> bytes"
  encode_claims :: "CapabilityClaims \<Rightarrow> bytes"
  decode_claims :: "bytes \<Rightarrow> CapabilityClaims option"
  encode_signed :: "SignedCapability \<Rightarrow> bytes"
  decode_signed :: "bytes \<Rightarrow> SignedCapability option"
  encode_mount_claims :: "MountCapabilityClaims \<Rightarrow> bytes"
  decode_mount_claims :: "bytes \<Rightarrow> MountCapabilityClaims option"
  encode_signed_mount :: "SignedMountCapability \<Rightarrow> bytes"
  decode_signed_mount :: "bytes \<Rightarrow> SignedMountCapability option"
  blake3_hash :: "bytes \<Rightarrow> bytes"

definition MAX_CAPABILITY_LIFETIME_SECONDS :: i64 where
  "MAX_CAPABILITY_LIFETIME_SECONDS = 60"

definition MAX_MOUNT_CAPABILITY_LIFETIME_SECONDS :: i64 where
  "MAX_MOUNT_CAPABILITY_LIFETIME_SECONDS = 15"

definition CAPABILITY_SIGNATURE_DOMAIN :: bytes where
  "CAPABILITY_SIGNATURE_DOMAIN = ''filebelt.storage.capability.v1'' @ [CHR 0x00]"

definition MOUNT_CAPABILITY_SIGNATURE_DOMAIN :: bytes where
  "MOUNT_CAPABILITY_SIGNATURE_DOMAIN = ''filebelt.storage.mount-capability.v2'' @ [CHR 0x00]"

definition MOUNT_CAPABILITY_CLAIMS_DIGEST_DOMAIN :: bytes where
  "MOUNT_CAPABILITY_CLAIMS_DIGEST_DOMAIN =
     ''filebelt.storage.mount-capability-claims-digest.v1'' @ [CHR 0x00]"

section \<open>Uses\<close>

datatype ApiStorageCapabilityUse =
    UploadPart | FinalizeUpload | Download

primrec api_use_operation :: "ApiStorageCapabilityUse \<Rightarrow> CapabilityOperation" where
  "api_use_operation UploadPart = CapabilityOperation.UploadPart"
| "api_use_operation FinalizeUpload = CapabilityOperation.FinalizeUpload"
| "api_use_operation Download = CapabilityOperation.Download"

datatype CollaborationStorageCapabilityUse =
    WriteObject | FinalizeObject | ReadObject

primrec collaboration_use_operation :: "CollaborationStorageCapabilityUse \<Rightarrow> CapabilityOperation" where
  "collaboration_use_operation WriteObject = CapabilityOperation.WriteCollaborationObject"
| "collaboration_use_operation FinalizeObject = CapabilityOperation.FinalizeCollaborationObject"
| "collaboration_use_operation ReadObject = CapabilityOperation.ReadCollaborationObject"

datatype DocumentStorageCapabilityUse =
    ReadVersion | WriteRevision | FinalizeRevision

primrec document_use_operation :: "DocumentStorageCapabilityUse \<Rightarrow> CapabilityOperation" where
  "document_use_operation ReadVersion = CapabilityOperation.ReadDocumentVersion"
| "document_use_operation WriteRevision = CapabilityOperation.WriteDocumentRevision"
| "document_use_operation FinalizeRevision = CapabilityOperation.FinalizeDocumentRevision"

datatype RevisionStorageCapabilityUse =
    WriteChunk | ReadChunk | DeleteChunk | ReadLegacyPayload

primrec revision_use_operation :: "RevisionStorageCapabilityUse \<Rightarrow> CapabilityOperation" where
  "revision_use_operation WriteChunk = CapabilityOperation.WriteRevisionChunk"
| "revision_use_operation ReadChunk = CapabilityOperation.ReadRevisionChunk"
| "revision_use_operation DeleteChunk = CapabilityOperation.DeleteRevisionChunk"
| "revision_use_operation ReadLegacyPayload = CapabilityOperation.ReadRevisionLegacyPayload"

datatype MountStorageCapabilityUse =
    Read | WriteData | Deallocate | Allocate | SeekData | SeekHole | Flush | Finalize | Abort | DeleteStaging

primrec mount_use_operation :: "MountStorageCapabilityUse \<Rightarrow> MountCapabilityOperation" where
  "mount_use_operation Read = MountCapabilityOperation.Read"
| "mount_use_operation WriteData = MountCapabilityOperation.WriteData"
| "mount_use_operation Deallocate = MountCapabilityOperation.Deallocate"
| "mount_use_operation Allocate = MountCapabilityOperation.Allocate"
| "mount_use_operation SeekData = MountCapabilityOperation.SeekData"
| "mount_use_operation SeekHole = MountCapabilityOperation.SeekHole"
| "mount_use_operation Flush = MountCapabilityOperation.Flush"
| "mount_use_operation Finalize = MountCapabilityOperation.Finalize"
| "mount_use_operation Abort = MountCapabilityOperation.Abort"
| "mount_use_operation DeleteStaging = MountCapabilityOperation.DeleteStaging"

definition requires_version :: "MountStorageCapabilityUse \<Rightarrow> bool" where
  "requires_version u \<longleftrightarrow>
     u \<in> {Read, WriteData, Deallocate, Allocate, SeekData, SeekHole, Flush, Finalize}"

definition requires_write_session :: "MountStorageCapabilityUse \<Rightarrow> bool" where
  "requires_write_session u \<longleftrightarrow> u \<noteq> Read"

definition requires_range :: "MountStorageCapabilityUse \<Rightarrow> bool" where
  "requires_range u \<longleftrightarrow> u \<in> {Read, WriteData, Deallocate, Allocate, SeekData, SeekHole}"

definition requires_single_offset :: "MountStorageCapabilityUse \<Rightarrow> bool" where
  "requires_single_offset u \<longleftrightarrow> u \<in> {SeekData, SeekHole}"

definition requires_content_digest :: "MountStorageCapabilityUse \<Rightarrow> bool" where
  "requires_content_digest u \<longleftrightarrow> u = WriteData"

datatype CapabilityError =
    InvalidEncoding | InvalidSignature | UnknownKey | InvalidClaims | WrongAudience
  | WrongOperation | Expired | LifetimeTooLong

primrec map_keyset_error :: "KeysetError \<Rightarrow> CapabilityError" where
  "map_keyset_error KeysetError.UnknownKey = UnknownKey"
| "map_keyset_error KeysetError.InvalidSignature = InvalidSignature"
| "map_keyset_error KeysetError.InvalidEncoding = InvalidSignature"

section \<open>Claim validation\<close>

definition validate_lifetime :: "i64 \<Rightarrow> i64 \<Rightarrow> i64 \<Rightarrow> i64 \<Rightarrow> (unit, CapabilityError) result" where
  "validate_lifetime issued expires maximum now =
     (if sint expires < sint issued
         \<or> (case i64_checked_sub expires issued of
              None \<Rightarrow> True
            | Some lifetime \<Rightarrow> sint lifetime > sint maximum)
      then Err LifetimeTooLong
      else if sint now < sint issued \<or> sint now \<ge> sint expires then Err Expired
      else Ok ())"

definition validate_capability_claims ::
  "cap_lib \<Rightarrow> CapabilityClaims \<Rightarrow> string \<Rightarrow> CapabilityOperation \<Rightarrow> i64 \<Rightarrow> (unit, CapabilityError) result"
  where
  "validate_capability_claims L claims expected_audience expected_operation now =
     and_then
       (each_ok (\<lambda>identifier. ok_or (cap_uuid_parse L identifier) InvalidClaims)
          [cap_capability_id claims, cap_tenant_id claims, cap_principal_id claims,
           cap_grant_id claims]) (\<lambda>_.
     if cap_audience claims \<noteq> expected_audience then Err WrongAudience
     else if cap_operation claims \<noteq> operation_as_i32 expected_operation then Err WrongOperation
     else
       and_then
         (validate_lifetime (cap_issued_at_unix_seconds claims) (cap_expires_at_unix_seconds claims)
            MAX_CAPABILITY_LIFETIME_SECONDS now) (\<lambda>_.
       if \<not> (16 \<le> length (cap_nonce claims) \<and> length (cap_nonce claims) \<le> 64)
          \<or> cap_range_end claims < cap_range_start claims
       then Err InvalidClaims
       else if expected_operation \<notin>
            {WriteRevisionChunk, ReadRevisionChunk, DeleteRevisionChunk, ReadRevisionLegacyPayload}
          \<and> (cap_resource_acl_generation claims = 0 \<or> cap_drive_acl_generation claims = 0
             \<or> cap_membership_generation claims = 0 \<or> cap_namespace_generation claims = 0)
       then Err InvalidClaims
       else Ok ()))"

definition validate_non_nil_uuid :: "cap_lib \<Rightarrow> string \<Rightarrow> (uuid, CapabilityError) result" where
  "validate_non_nil_uuid L value =
     and_then (ok_or (cap_uuid_parse L value) InvalidClaims) (\<lambda>identifier.
       if identifier = 0 then Err InvalidClaims else Ok identifier)"

definition require_that :: "bool \<Rightarrow> 'e \<Rightarrow> (unit, 'e) result" where
  "require_that c e = (if c then Ok () else Err e)"

definition validate_mount_claims ::
  "cap_lib \<Rightarrow> MountCapabilityClaims \<Rightarrow> string \<Rightarrow> MountStorageCapabilityUse \<Rightarrow> i64
     \<Rightarrow> (unit, CapabilityError) result" where
  "validate_mount_claims L claims expected_audience purpose now =
     and_then
       (each_ok (validate_non_nil_uuid L)
          [mnt_capability_id claims, mnt_tenant_id claims, mnt_principal_id claims,
           mnt_mount_session_id claims, mnt_credential_id claims, mnt_drive_id claims,
           mnt_resource_id claims, mnt_grant_id claims]) (\<lambda>_.
     and_then
       (require_that (\<not> (mnt_audience claims = [] \<or> mnt_audience claims \<noteq> expected_audience))
          WrongAudience) (\<lambda>_.
     and_then
       (require_that
          (\<not> (mnt_operation claims \<noteq> mount_operation_as_i32 (mount_use_operation purpose)))
          WrongOperation) (\<lambda>_.
     and_then
       (if requires_version purpose
        then map_ok (\<lambda>_. ()) (validate_non_nil_uuid L (mnt_version_id claims))
        else require_that (mnt_version_id claims = []) InvalidClaims) (\<lambda>_.
     and_then
       (if requires_write_session purpose
        then map_ok (\<lambda>_. ()) (validate_non_nil_uuid L (mnt_write_session_id claims))
        else require_that (mnt_write_session_id claims = []) InvalidClaims) (\<lambda>_.
     and_then
       (if requires_range purpose
        then
          if mnt_range_end claims < mnt_range_start claims
             \<or> Option.bind (checked_sub (mnt_range_end claims) (mnt_range_start claims))
                 (\<lambda>difference. checked_add difference 1) = None
          then Err InvalidClaims
          else require_that
            (\<not> (requires_single_offset purpose \<and> mnt_range_start claims \<noteq> mnt_range_end claims))
            InvalidClaims
        else require_that (\<not> (mnt_range_start claims \<noteq> 0 \<or> mnt_range_end claims \<noteq> 0))
          InvalidClaims) (\<lambda>_.
     and_then
       (require_that
          (\<not> (requires_content_digest purpose \<and> length (mnt_content_blake3 claims) \<noteq> 32
              \<or> \<not> requires_content_digest purpose \<and> mnt_content_blake3 claims \<noteq> []))
          InvalidClaims) (\<lambda>_.
     and_then
       (validate_lifetime (mnt_issued_at_unix_seconds claims) (mnt_expires_at_unix_seconds claims)
          MAX_MOUNT_CAPABILITY_LIFETIME_SECONDS now) (\<lambda>_.
     require_that
       (\<not> (\<not> (16 \<le> length (mnt_nonce claims) \<and> length (mnt_nonce claims) \<le> 64)
           \<or> mnt_credential_generation claims = 0 \<or> mnt_authorization_generation claims = 0
           \<or> mnt_membership_generation claims = 0 \<or> mnt_drive_acl_generation claims = 0
           \<or> mnt_namespace_generation claims = 0 \<or> mnt_resource_acl_generation claims = 0
           \<or> mnt_gateway_epoch claims = 0 \<or> mnt_fencing_token claims = 0))
       InvalidClaims))))))))"

section \<open>Issuing and verification\<close>

definition mount_capability_claims_digest :: "cap_lib \<Rightarrow> MountCapabilityClaims \<Rightarrow> bytes" where
  "mount_capability_claims_digest L claims =
     blake3_hash L (MOUNT_CAPABILITY_CLAIMS_DIGEST_DOMAIN @ encode_mount_claims L claims)"

definition sign_capability ::
  "cap_lib \<Rightarrow> CapabilityClaims \<Rightarrow> CapabilityOperation \<Rightarrow> u32 \<Rightarrow> bytes \<Rightarrow> (string, CapabilityError) result"
  where
  "sign_capability L claims expected_operation generation key_pair =
     (if generation = 0 \<or> cap_operation claims \<noteq> operation_as_i32 expected_operation
      then Err InvalidClaims
      else
        let claims_bytes = encode_claims L claims;
            input = CAPABILITY_SIGNATURE_DOMAIN @ claims_bytes;
            signed = \<lparr>sc_key_generation = generation, sc_claims = claims_bytes,
                      sc_signature = ed25519_sign L key_pair input\<rparr> in
        Ok (''fbcap1.'' @ b64_encode_lib (key_ops L) (encode_signed L signed)))"

definition verify_capability ::
  "cap_lib \<Rightarrow> string \<Rightarrow> Keyset \<Rightarrow> string \<Rightarrow> CapabilityOperation \<Rightarrow> i64
     \<Rightarrow> (CapabilityClaims Verified, CapabilityError) result" where
  "verify_capability L wire ks expected_audience expected_operation now =
     and_then (ok_or (strip_prefix ''fbcap1.'' wire) InvalidEncoding) (\<lambda>encoded.
     and_then (ok_or (b64_decode_lib (key_ops L) encoded) InvalidEncoding) (\<lambda>wire_bytes.
     and_then (ok_or (decode_signed L wire_bytes) InvalidEncoding) (\<lambda>signed.
     let input = CAPABILITY_SIGNATURE_DOMAIN @ sc_claims signed in
     and_then
       (map_err map_keyset_error
          (keyset_verify (key_ops L) ks (sc_key_generation signed) input (sc_signature signed))) (\<lambda>_.
     and_then (ok_or (decode_claims L (sc_claims signed)) InvalidClaims) (\<lambda>claims.
     and_then (validate_capability_claims L claims expected_audience expected_operation now) (\<lambda>_.
     Ok \<lparr>verified_claims = claims, verified_generation = sc_key_generation signed\<rparr>))))))"

definition sign_api_storage_capability ::
  "cap_lib \<Rightarrow> CapabilityClaims \<Rightarrow> ApiStorageCapabilityUse \<Rightarrow> u32 \<Rightarrow> bytes
     \<Rightarrow> (string, CapabilityError) result" where
  "sign_api_storage_capability L claims purpose generation key_pair =
     sign_capability L claims (api_use_operation purpose) generation key_pair"

definition verify_api_storage_capability ::
  "cap_lib \<Rightarrow> string \<Rightarrow> Keyset \<Rightarrow> string \<Rightarrow> ApiStorageCapabilityUse \<Rightarrow> i64
     \<Rightarrow> (CapabilityClaims Verified, CapabilityError) result" where
  "verify_api_storage_capability L wire ks expected_audience purpose now =
     verify_capability L wire ks expected_audience (api_use_operation purpose) now"

definition sign_collaboration_storage_capability ::
  "cap_lib \<Rightarrow> CapabilityClaims \<Rightarrow> CollaborationStorageCapabilityUse \<Rightarrow> u32 \<Rightarrow> bytes
     \<Rightarrow> (string, CapabilityError) result" where
  "sign_collaboration_storage_capability L claims purpose generation key_pair =
     sign_capability L claims (collaboration_use_operation purpose) generation key_pair"

definition verify_collaboration_storage_capability ::
  "cap_lib \<Rightarrow> string \<Rightarrow> Keyset \<Rightarrow> string \<Rightarrow> CollaborationStorageCapabilityUse \<Rightarrow> i64
     \<Rightarrow> (CapabilityClaims Verified, CapabilityError) result" where
  "verify_collaboration_storage_capability L wire ks expected_audience purpose now =
     verify_capability L wire ks expected_audience (collaboration_use_operation purpose) now"

definition sign_document_storage_capability ::
  "cap_lib \<Rightarrow> CapabilityClaims \<Rightarrow> DocumentStorageCapabilityUse \<Rightarrow> u32 \<Rightarrow> bytes
     \<Rightarrow> (string, CapabilityError) result" where
  "sign_document_storage_capability L claims purpose generation key_pair =
     sign_capability L claims (document_use_operation purpose) generation key_pair"

definition verify_document_storage_capability ::
  "cap_lib \<Rightarrow> string \<Rightarrow> Keyset \<Rightarrow> string \<Rightarrow> DocumentStorageCapabilityUse \<Rightarrow> i64
     \<Rightarrow> (CapabilityClaims Verified, CapabilityError) result" where
  "verify_document_storage_capability L wire ks expected_audience purpose now =
     verify_capability L wire ks expected_audience (document_use_operation purpose) now"

definition sign_revision_storage_capability ::
  "cap_lib \<Rightarrow> CapabilityClaims \<Rightarrow> RevisionStorageCapabilityUse \<Rightarrow> u32 \<Rightarrow> bytes
     \<Rightarrow> (string, CapabilityError) result" where
  "sign_revision_storage_capability L claims purpose generation key_pair =
     sign_capability L claims (revision_use_operation purpose) generation key_pair"

definition verify_revision_storage_capability ::
  "cap_lib \<Rightarrow> string \<Rightarrow> Keyset \<Rightarrow> string \<Rightarrow> RevisionStorageCapabilityUse \<Rightarrow> i64
     \<Rightarrow> (CapabilityClaims Verified, CapabilityError) result" where
  "verify_revision_storage_capability L wire ks expected_audience purpose now =
     verify_capability L wire ks expected_audience (revision_use_operation purpose) now"

definition sign_mount_storage_capability ::
  "cap_lib \<Rightarrow> MountCapabilityClaims \<Rightarrow> MountStorageCapabilityUse \<Rightarrow> u32 \<Rightarrow> bytes
     \<Rightarrow> (string, CapabilityError) result" where
  "sign_mount_storage_capability L claims purpose generation key_pair =
     (if mnt_operation claims \<noteq> mount_operation_as_i32 (mount_use_operation purpose)
         \<or> generation = 0
      then Err InvalidClaims
      else
        and_then
          (validate_mount_claims L claims (mnt_audience claims) purpose
             (mnt_issued_at_unix_seconds claims)) (\<lambda>_.
        let claims_bytes = encode_mount_claims L claims;
            input = MOUNT_CAPABILITY_SIGNATURE_DOMAIN @ claims_bytes;
            signed = \<lparr>sm_key_generation = generation, sm_claims = claims_bytes,
                      sm_signature = ed25519_sign L key_pair input\<rparr> in
        Ok (''fbcap2.'' @ b64_encode_lib (key_ops L) (encode_signed_mount L signed))))"

definition verify_mount_storage_capability ::
  "cap_lib \<Rightarrow> string \<Rightarrow> Keyset \<Rightarrow> string \<Rightarrow> MountStorageCapabilityUse \<Rightarrow> i64
     \<Rightarrow> (MountCapabilityClaims Verified, CapabilityError) result" where
  "verify_mount_storage_capability L wire ks expected_audience purpose now =
     and_then (ok_or (strip_prefix ''fbcap2.'' wire) InvalidEncoding) (\<lambda>encoded.
     and_then (ok_or (b64_decode_lib (key_ops L) encoded) InvalidEncoding) (\<lambda>wire_bytes.
     and_then (ok_or (decode_signed_mount L wire_bytes) InvalidEncoding) (\<lambda>signed.
     let input = MOUNT_CAPABILITY_SIGNATURE_DOMAIN @ sm_claims signed in
     and_then
       (map_err map_keyset_error
          (keyset_verify (key_ops L) ks (sm_key_generation signed) input (sm_signature signed))) (\<lambda>_.
     and_then (ok_or (decode_mount_claims L (sm_claims signed)) InvalidClaims) (\<lambda>claims.
     and_then (validate_mount_claims L claims expected_audience purpose now) (\<lambda>_.
     Ok \<lparr>verified_claims = claims, verified_generation = sm_key_generation signed\<rparr>))))))"

definition sign_mount_storage_read_capability ::
  "cap_lib \<Rightarrow> MountCapabilityClaims \<Rightarrow> u32 \<Rightarrow> bytes \<Rightarrow> (string, CapabilityError) result" where
  "sign_mount_storage_read_capability L claims generation key_pair =
     sign_mount_storage_capability L claims Read generation key_pair"

definition verify_mount_storage_read_capability ::
  "cap_lib \<Rightarrow> string \<Rightarrow> Keyset \<Rightarrow> string \<Rightarrow> i64
     \<Rightarrow> (MountCapabilityClaims Verified, CapabilityError) result" where
  "verify_mount_storage_read_capability L wire ks expected_audience now =
     verify_mount_storage_capability L wire ks expected_audience Read now"

text \<open>The clock: the seconds since the epoch, absent when the clock is before it.\<close>

definition unix_time_now :: "u64 option \<Rightarrow> (i64, CapabilityError) result" where
  "unix_time_now clock =
     and_then (ok_or clock InvalidClaims) (\<lambda>seconds.
       if unat seconds < 2 ^ 63 then Ok seconds else Err InvalidClaims)"

section \<open>Validation as a predicate\<close>

lemma require_that_Ok [simp]: "require_that c e = Ok u \<longleftrightarrow> c"
  by (simp add: require_that_def)

lemma i64_checked_sub_None: "i64_checked_sub a b = None \<Longrightarrow> sint b \<le> sint a \<Longrightarrow> 2 ^ 63 \<le> sint a - sint b"
  by (auto simp: i64_checked_sub_def Let_def split: if_splits)

lemma validate_lifetime_Ok:
  "validate_lifetime issued expires maximum now = Ok () \<longleftrightarrow>
     sint issued \<le> sint now \<and> sint now < sint expires \<and> sint expires - sint issued \<le> sint maximum"
proof (cases "i64_checked_sub expires issued")
  case None
  moreover have "sint maximum < 2 ^ 63"
    using sint_lt [of maximum] by simp
  ultimately show ?thesis
    using i64_checked_sub_None [OF None] by (auto simp: validate_lifetime_def)
next
  case (Some lifetime)
  then have "sint lifetime = sint expires - sint issued"
    by (simp add: i64_checked_sub_Some)
  with Some show ?thesis
    by (auto simp: validate_lifetime_def)
qed

definition non_nil :: "cap_lib \<Rightarrow> string \<Rightarrow> bool" where
  "non_nil L s \<longleftrightarrow> (\<exists>u. cap_uuid_parse L s = Some u \<and> u \<noteq> 0)"

lemma validate_non_nil_uuid_Ok: "(\<exists>u. validate_non_nil_uuid L s = Ok u) \<longleftrightarrow> non_nil L s"
  by (auto simp: validate_non_nil_uuid_def non_nil_def result_simps)

lemma each_ok_iff: "each_ok f xs = Ok () \<longleftrightarrow> (\<forall>x \<in> set xs. \<exists>y. f x = Ok y)"
  by (induction xs) (auto simp: result_simps)

lemma map_ok_unit: "map_ok (\<lambda>_. ()) r = Ok u \<longleftrightarrow> (\<exists>y. r = Ok y)"
  by (cases r) auto

definition mount_shape :: "cap_lib \<Rightarrow> MountCapabilityClaims \<Rightarrow> MountStorageCapabilityUse \<Rightarrow> bool" where
  "mount_shape L c u \<longleftrightarrow>
     (\<forall>s \<in> {mnt_capability_id c, mnt_tenant_id c, mnt_principal_id c, mnt_mount_session_id c,
            mnt_credential_id c, mnt_drive_id c, mnt_resource_id c, mnt_grant_id c}. non_nil L s)
     \<and> mnt_audience c \<noteq> [] \<and> mnt_operation c = mount_operation_as_i32 (mount_use_operation u)
     \<and> (if requires_version u then non_nil L (mnt_version_id c) else mnt_version_id c = [])
     \<and> (if requires_write_session u then non_nil L (mnt_write_session_id c)
        else mnt_write_session_id c = [])
     \<and> (if requires_range u
        then mnt_range_start c \<le> mnt_range_end c
          \<and> unat (mnt_range_end c) - unat (mnt_range_start c) + 1 < 2 ^ 64
          \<and> (requires_single_offset u \<longrightarrow> mnt_range_start c = mnt_range_end c)
        else mnt_range_start c = 0 \<and> mnt_range_end c = 0)
     \<and> (if requires_content_digest u then length (mnt_content_blake3 c) = 32
        else mnt_content_blake3 c = [])
     \<and> 16 \<le> length (mnt_nonce c) \<and> length (mnt_nonce c) \<le> 64
     \<and> 0 \<notin> {mnt_credential_generation c, mnt_authorization_generation c,
             mnt_membership_generation c, mnt_drive_acl_generation c, mnt_namespace_generation c,
             mnt_resource_acl_generation c, mnt_gateway_epoch c, mnt_fencing_token c}"

lemma range_length_fits:
  "\<not> e < s \<Longrightarrow> Option.bind (checked_sub e s) (\<lambda>d. checked_add d 1) = None \<longleftrightarrow>
     \<not> unat e - unat s + 1 < 2 ^ 64" for s e :: u64
  by (simp add: checked_sub_def checked_add_def not_less unat_sub)

lemma and_then_unit: "and_then r (\<lambda>_. k) = Ok () \<longleftrightarrow> r = Ok () \<and> k = Ok ()" for r :: "(unit, 'e) result"
  by (cases r) auto

lemma if_Ok: "(if b then x else y) = Ok () \<longleftrightarrow> (if b then x = Ok () else y = Ok ())"
  by simp

lemma validate_mount_claims_Ok:
  "validate_mount_claims L c aud u now = Ok () \<longleftrightarrow>
     mount_shape L c u \<and> mnt_audience c = aud
     \<and> validate_lifetime (mnt_issued_at_unix_seconds c) (mnt_expires_at_unix_seconds c)
         MAX_MOUNT_CAPABILITY_LIFETIME_SECONDS now = Ok ()"
proof -
  have ids: "each_ok (validate_non_nil_uuid L) xs = Ok () \<longleftrightarrow> (\<forall>s \<in> set xs. non_nil L s)" for xs
    by (simp add: each_ok_iff validate_non_nil_uuid_Ok)
  have range: "(if e < s \<or> Option.bind (checked_sub e s) (\<lambda>d. checked_add d 1) = None
      then Err InvalidClaims else require_that P InvalidClaims) = Ok () \<longleftrightarrow>
      s \<le> e \<and> unat e - unat s + 1 < 2 ^ 64 \<and> P" for s e :: u64 and P
    using range_length_fits [of e s] by (auto simp: not_less [symmetric])
  have range': "(if r then (if e < s \<or> Option.bind (checked_sub e s) (\<lambda>d. checked_add d 1) = None
      then Err InvalidClaims else require_that P InvalidClaims) else require_that Q InvalidClaims) = Ok () \<longleftrightarrow>
      (if r then s \<le> e \<and> unat e - unat s + 1 < 2 ^ 64 \<and> P else Q)" for s e :: u64 and P Q r
    using range [of e s P] by (cases r) simp_all
  have offset: "\<not> (q \<and> s \<noteq> e) \<longleftrightarrow> (q \<longrightarrow> s = e)" for q and s e :: u64
    by blast
  have digest: "\<not> (r \<and> n \<noteq> 32) \<and> \<not> (\<not> r \<and> x \<noteq> []) \<longleftrightarrow> (if r then n = 32 else x = [])"
    for r and n :: nat and x :: bytes
    by simp
  show ?thesis
    unfolding validate_mount_claims_def mount_shape_def and_then_unit range' ids list.set
    unfolding if_Ok require_that_Ok map_ok_unit validate_non_nil_uuid_Ok insert_iff empty_iff
      not_not de_Morgan_disj offset digest simp_thms eq_commute [of 0]
    by blast
qed

definition revision_operations :: "CapabilityOperation set" where
  "revision_operations =
     {WriteRevisionChunk, ReadRevisionChunk, DeleteRevisionChunk, ReadRevisionLegacyPayload}"

definition claims_shape :: "cap_lib \<Rightarrow> CapabilityClaims \<Rightarrow> CapabilityOperation \<Rightarrow> bool" where
  "claims_shape L c operation \<longleftrightarrow>
     (\<forall>s \<in> {cap_capability_id c, cap_tenant_id c, cap_principal_id c, cap_grant_id c}.
        cap_uuid_parse L s \<noteq> None)
     \<and> cap_operation c = operation_as_i32 operation
     \<and> 16 \<le> length (cap_nonce c) \<and> length (cap_nonce c) \<le> 64
     \<and> cap_range_start c \<le> cap_range_end c
     \<and> (operation \<notin> revision_operations \<longrightarrow>
          0 \<notin> {cap_resource_acl_generation c, cap_drive_acl_generation c,
                cap_membership_generation c, cap_namespace_generation c})"

lemma validate_capability_claims_Ok:
  "validate_capability_claims L c aud operation now = Ok () \<longleftrightarrow>
     claims_shape L c operation \<and> cap_audience c = aud
     \<and> validate_lifetime (cap_issued_at_unix_seconds c) (cap_expires_at_unix_seconds c)
         MAX_CAPABILITY_LIFETIME_SECONDS now = Ok ()"
proof -
  have ids: "each_ok (\<lambda>s. ok_or (cap_uuid_parse L s) InvalidClaims) xs = Ok () \<longleftrightarrow>
      (\<forall>s \<in> set xs. cap_uuid_parse L s \<noteq> None)" for xs
    unfolding each_ok_iff by (auto elim: ok_or.elims)
  have err: "(if b then Err e else k) = Ok () \<longleftrightarrow> \<not> b \<and> k = Ok ()" for b k and e :: CapabilityError
    by simp
  show ?thesis
    unfolding validate_capability_claims_def claims_shape_def revision_operations_def and_then_unit ids
      list.set err
    by (simp only: insert_iff empty_iff not_not de_Morgan_disj de_Morgan_conj simp_thms not_less
        eq_commute [of 0] imp_conv_disj) blast
qed

section \<open>Verification as a predicate\<close>

lemma keyset_verify_Ok:
  "keyset_verify B ks g m s = Ok () \<longleftrightarrow>
     (\<exists>key. bt_get (keys ks) g = Some key \<and> ed25519_verify B key m s)"
  by (cases "bt_get (keys ks) g") (auto simp: keyset_verify_def)

lemma ok_or_Ok [simp]: "ok_or r e = Ok x \<longleftrightarrow> r = Some x"
  by (cases r) auto

lemma verify_capability_Ok:
  "verify_capability L wire ks aud operation now = Ok v \<longleftrightarrow>
     (\<exists>encoded bytes signed key.
        wire = ''fbcap1.'' @ encoded \<and> b64_decode_lib (key_ops L) encoded = Some bytes
        \<and> decode_signed L bytes = Some signed
        \<and> bt_get (keys ks) (sc_key_generation signed) = Some key
        \<and> ed25519_verify (key_ops L) key (CAPABILITY_SIGNATURE_DOMAIN @ sc_claims signed)
            (sc_signature signed)
        \<and> decode_claims L (sc_claims signed) = Some (verified_claims v)
        \<and> verified_generation v = sc_key_generation signed
        \<and> validate_capability_claims L (verified_claims v) aud operation now = Ok ())"
  unfolding verify_capability_def Let_def and_then_Ok_iff ok_or_Ok strip_prefix_Some map_err_Ok_iff
  by (cases v) (auto simp: keyset_verify_Ok)

lemma verify_mount_Ok:
  "verify_mount_storage_capability L wire ks aud u now = Ok v \<longleftrightarrow>
     (\<exists>encoded bytes signed key.
        wire = ''fbcap2.'' @ encoded \<and> b64_decode_lib (key_ops L) encoded = Some bytes
        \<and> decode_signed_mount L bytes = Some signed
        \<and> bt_get (keys ks) (sm_key_generation signed) = Some key
        \<and> ed25519_verify (key_ops L) key (MOUNT_CAPABILITY_SIGNATURE_DOMAIN @ sm_claims signed)
            (sm_signature signed)
        \<and> decode_mount_claims L (sm_claims signed) = Some (verified_claims v)
        \<and> verified_generation v = sm_key_generation signed
        \<and> validate_mount_claims L (verified_claims v) aud u now = Ok ())"
  unfolding verify_mount_storage_capability_def Let_def and_then_Ok_iff ok_or_Ok strip_prefix_Some
    map_err_Ok_iff
  by (cases v) (auto simp: keyset_verify_Ok)

lemma verify_capability_signed:
  assumes "verify_capability L wire ks aud operation now = Ok v"
  shows "(\<exists>key m s. bt_get (keys ks) (verified_generation v) = Some key
      \<and> ed25519_verify (key_ops L) key (CAPABILITY_SIGNATURE_DOMAIN @ m) s
      \<and> decode_claims L m = Some (verified_claims v))
    \<and> validate_capability_claims L (verified_claims v) aud operation now = Ok ()"
  using assms unfolding verify_capability_Ok
proof (elim exE conjE, intro conjI)
  fix env key
  assume "bt_get (keys ks) (sc_key_generation env) = Some key"
    "ed25519_verify (key_ops L) key (CAPABILITY_SIGNATURE_DOMAIN @ sc_claims env) (sc_signature env)"
    "decode_claims L (sc_claims env) = Some (verified_claims v)"
    "verified_generation v = sc_key_generation env"
  then show "\<exists>key m s. bt_get (keys ks) (verified_generation v) = Some key
      \<and> ed25519_verify (key_ops L) key (CAPABILITY_SIGNATURE_DOMAIN @ m) s
      \<and> decode_claims L m = Some (verified_claims v)"
    by (intro exI [of _ key] exI [of _ "sc_claims env"] exI [of _ "sc_signature env"]) simp
qed

lemma verify_mount_signed:
  assumes "verify_mount_storage_capability L wire ks aud u now = Ok v"
  shows "(\<exists>key m s. bt_get (keys ks) (verified_generation v) = Some key
      \<and> ed25519_verify (key_ops L) key (MOUNT_CAPABILITY_SIGNATURE_DOMAIN @ m) s
      \<and> decode_mount_claims L m = Some (verified_claims v))
    \<and> validate_mount_claims L (verified_claims v) aud u now = Ok ()"
  using assms unfolding verify_mount_Ok
proof (elim exE conjE, intro conjI)
  fix env key
  assume "bt_get (keys ks) (sm_key_generation env) = Some key"
    "ed25519_verify (key_ops L) key (MOUNT_CAPABILITY_SIGNATURE_DOMAIN @ sm_claims env) (sm_signature env)"
    "decode_mount_claims L (sm_claims env) = Some (verified_claims v)"
    "verified_generation v = sm_key_generation env"
  then show "\<exists>key m s. bt_get (keys ks) (verified_generation v) = Some key
      \<and> ed25519_verify (key_ops L) key (MOUNT_CAPABILITY_SIGNATURE_DOMAIN @ m) s
      \<and> decode_mount_claims L m = Some (verified_claims v)"
    by (intro exI [of _ key] exI [of _ "sm_claims env"] exI [of _ "sm_signature env"]) simp
qed

lemma operation_as_i32_inject [simp]: "operation_as_i32 a = operation_as_i32 b \<longleftrightarrow> a = b"
  by (cases a; cases b; simp)

lemma mount_operation_as_i32_inject [simp]:
  "mount_operation_as_i32 a = mount_operation_as_i32 b \<longleftrightarrow> a = b"
  by (cases a; cases b; simp)

lemma mount_use_operation_inject [simp]: "mount_use_operation a = mount_use_operation b \<longleftrightarrow> a = b"
  by (cases a; cases b; simp)

section \<open>Properties\<close>

text \<open>A concrete instance of the parameters: a length-prefixed envelope, an identifier and a message codec that know one value,
  and a transparent signature.\<close>

definition sample_uuid_text :: string where
  "sample_uuid_text = ''00000000-0000-4000-8000-00000000002a''"

definition sample_mount_claims :: MountCapabilityClaims where
  "sample_mount_claims =
     \<lparr>mnt_capability_id = sample_uuid_text, mnt_audience = ''io-worker'', mnt_operation = 7,
      mnt_tenant_id = sample_uuid_text, mnt_principal_id = sample_uuid_text,
      mnt_mount_session_id = sample_uuid_text, mnt_credential_id = sample_uuid_text,
      mnt_drive_id = sample_uuid_text, mnt_resource_id = sample_uuid_text,
      mnt_version_id = sample_uuid_text, mnt_write_session_id = sample_uuid_text,
      mnt_range_start = 0, mnt_range_end = 4095, mnt_credential_generation = 1,
      mnt_authorization_generation = 1, mnt_membership_generation = 1,
      mnt_drive_acl_generation = 1, mnt_namespace_generation = 1,
      mnt_resource_acl_generation = 1, mnt_gateway_epoch = 1, mnt_fencing_token = 1,
      mnt_nonce = replicate 16 (CHR ''n''), mnt_issued_at_unix_seconds = 1000,
      mnt_expires_at_unix_seconds = 1015, mnt_grant_id = sample_uuid_text,
      mnt_content_blake3 = replicate 32 (CHR ''d'')\<rparr>"

definition sample_claims :: CapabilityClaims where
  "sample_claims =
     \<lparr>cap_capability_id = sample_uuid_text, cap_audience = ''io-worker'', cap_operation = 3,
      cap_tenant_id = sample_uuid_text, cap_principal_id = sample_uuid_text,
      cap_session_id = sample_uuid_text, cap_resource_id = sample_uuid_text, cap_upload_id = [],
      cap_payload_id = sample_uuid_text, cap_part_number = 0, cap_range_start = 0,
      cap_range_end = 4095, cap_resource_acl_generation = 1, cap_membership_generation = 1,
      cap_namespace_generation = 1, cap_fencing_token = 1,
      cap_nonce = replicate 16 (CHR ''n''), cap_issued_at_unix_seconds = 1000,
      cap_expires_at_unix_seconds = 1060, cap_drive_acl_generation = 1,
      cap_grant_id = sample_uuid_text\<rparr>"

definition sample_lib :: cap_lib where
  "sample_lib =
     \<lparr>key_ops = base64_keys, cap_uuid_parse = (\<lambda>s. if s = sample_uuid_text then Some 42 else None),
      ed25519_sign = (\<lambda>key m. key @ m),
      encode_claims = (\<lambda>c. ''claims''),
      decode_claims = (\<lambda>b. if b = ''claims'' then Some sample_claims else None),
      encode_signed = (\<lambda>s. char_of (unat (sc_key_generation s)) # char_of (length (sc_claims s))
        # sc_claims s @ sc_signature s),
      decode_signed = (\<lambda>b. case b of g # n # r \<Rightarrow>
          Some \<lparr>sc_key_generation = of_nat (byte g), sc_claims = take (byte n) r,
                sc_signature = drop (byte n) r\<rparr> | _ \<Rightarrow> None),
      encode_mount_claims = (\<lambda>c. ''mount''),
      decode_mount_claims = (\<lambda>b. if b = ''mount'' then Some sample_mount_claims else None),
      encode_signed_mount = (\<lambda>s. char_of (unat (sm_key_generation s)) # char_of (length (sm_claims s))
        # sm_claims s @ sm_signature s),
      decode_signed_mount = (\<lambda>b. case b of g # n # r \<Rightarrow>
          Some \<lparr>sm_key_generation = of_nat (byte g), sm_claims = take (byte n) r,
                sm_signature = drop (byte n) r\<rparr> | _ \<Rightarrow> None),
      blake3_hash = take 32\<rparr>"

definition sample_keyset :: Keyset where
  "sample_keyset = \<lparr>keys = [(7, ''key'')]\<rparr>"

text \<open>C22: An issued mount capability is accepted for the whole of its lifetime: where the codecs
  invert themselves on this capability and the keyset's key verifies its signature, the wire text
  that issuing returned verifies for its audience and use at every second from its issue until
  its expiry, and yields exactly the issued claims and key generation.\<close>

theorem mount_capability_issue_verify:
  assumes issued: "sign_mount_storage_capability L claims purpose generation key_pair = Ok wire"
    and env: "m = MOUNT_CAPABILITY_SIGNATURE_DOMAIN @ encode_mount_claims L claims"
      "env = \<lparr>sm_key_generation = generation, sm_claims = encode_mount_claims L claims,
                 sm_signature = ed25519_sign L key_pair m\<rparr>"
    and codec: "decode_mount_claims L (encode_mount_claims L claims) = Some claims"
      "decode_signed_mount L (encode_signed_mount L env) = Some env"
      "b64_decode_lib (key_ops L) (b64_encode_lib (key_ops L) (encode_signed_mount L env)) =
         Some (encode_signed_mount L env)"
    and key: "bt_get (keys ks) generation = Some key"
      "ed25519_verify (key_ops L) key m (ed25519_sign L key_pair m)"
    and time: "sint (mnt_issued_at_unix_seconds claims) \<le> sint now"
      "sint now < sint (mnt_expires_at_unix_seconds claims)"
  shows "verify_mount_storage_capability L wire ks (mnt_audience claims) purpose now =
    Ok \<lparr>verified_claims = claims, verified_generation = generation\<rparr>"
proof -
  have valid: "validate_mount_claims L claims (mnt_audience claims) purpose
      (mnt_issued_at_unix_seconds claims) = Ok ()"
    and wire: "wire = ''fbcap2.'' @ b64_encode_lib (key_ops L) (encode_signed_mount L env)"
    using issued by (auto simp: sign_mount_storage_capability_def Let_def result_simps env
        split: if_splits)
  have "validate_mount_claims L claims (mnt_audience claims) purpose now = Ok ()"
    using valid time by (simp add: validate_mount_claims_Ok validate_lifetime_Ok)
  then show ?thesis
    using codec key unfolding verify_mount_Ok wire
    by (intro exI [of _ "b64_encode_lib (key_ops L) (encode_signed_mount L env)"]
        exI [of _ "encode_signed_mount L env"] exI [of _ env] exI [of _ key])
      (simp add: env)
qed

lemma sample_mount_issued:
  "is_ok (sign_mount_storage_capability sample_lib sample_mount_claims WriteData 7 ''key'')"
  by code_simp

definition sample_signed :: SignedMountCapability where
  "sample_signed =
     \<lparr>sm_key_generation = 7, sm_claims = encode_mount_claims sample_lib sample_mount_claims,
      sm_signature = ed25519_sign sample_lib ''key''
        (MOUNT_CAPABILITY_SIGNATURE_DOMAIN @ encode_mount_claims sample_lib sample_mount_claims)\<rparr>"

theorem mount_capability_issue_verify_witness:
  "\<exists>wire. sign_mount_storage_capability sample_lib sample_mount_claims WriteData 7 ''key'' = Ok wire
     \<and> verify_mount_storage_capability sample_lib wire sample_keyset ''io-worker'' WriteData 1014 =
         Ok \<lparr>verified_claims = sample_mount_claims, verified_generation = 7\<rparr>"
proof -
  obtain wire where wire:
    "sign_mount_storage_capability sample_lib sample_mount_claims WriteData 7 ''key'' = Ok wire"
    using sample_mount_issued
    by (cases "sign_mount_storage_capability sample_lib sample_mount_claims WriteData 7 ''key''") auto
  have "decode_mount_claims sample_lib (encode_mount_claims sample_lib sample_mount_claims) =
      Some sample_mount_claims"
    "decode_signed_mount sample_lib (encode_signed_mount sample_lib sample_signed) = Some sample_signed"
    "b64_decode_lib (key_ops sample_lib) (b64_encode_lib (key_ops sample_lib)
       (encode_signed_mount sample_lib sample_signed)) = Some (encode_signed_mount sample_lib sample_signed)"
    "bt_get (keys sample_keyset) 7 = Some ''key''"
    "ed25519_verify (key_ops sample_lib) ''key''
       (MOUNT_CAPABILITY_SIGNATURE_DOMAIN @ encode_mount_claims sample_lib sample_mount_claims)
       (ed25519_sign sample_lib ''key''
         (MOUNT_CAPABILITY_SIGNATURE_DOMAIN @ encode_mount_claims sample_lib sample_mount_claims))"
    "sint (mnt_issued_at_unix_seconds sample_mount_claims) \<le> sint (1014 :: i64)"
    "sint (1014 :: i64) < sint (mnt_expires_at_unix_seconds sample_mount_claims)"
    by code_simp+
  from mount_capability_issue_verify [OF wire refl sample_signed_def this] wire show ?thesis
    by (simp add: sample_mount_claims_def)
qed

text \<open>C10: A verified mount capability authorizes one bounded operation: its claims were signed by
  the keyset's key of the named generation under the mount domain, name this audience and exactly
  this use (never the legacy multiplexed write), have non-nil identities, are valid for at most 15
  seconds and now is inside that window, carry a range exactly when the use has one (one offset
  for a seek), a 32-byte body digest exactly for data writes, and no zero generation, epoch or
  fencing token.\<close>

theorem mount_capability_verified_bounds:
  assumes "verify_mount_storage_capability L wire ks aud u now = Ok v"
  defines "c \<equiv> verified_claims v"
  shows "(\<exists>key m s. bt_get (keys ks) (verified_generation v) = Some key
      \<and> ed25519_verify (key_ops L) key (MOUNT_CAPABILITY_SIGNATURE_DOMAIN @ m) s
      \<and> decode_mount_claims L m = Some c)
    \<and> mnt_audience c = aud \<and> aud \<noteq> []
    \<and> mnt_operation c = mount_operation_as_i32 (mount_use_operation u)
    \<and> mnt_operation c \<noteq> mount_operation_as_i32 Write
    \<and> sint (mnt_issued_at_unix_seconds c) \<le> sint now
    \<and> sint now < sint (mnt_expires_at_unix_seconds c)
    \<and> sint (mnt_expires_at_unix_seconds c) \<le> sint (mnt_issued_at_unix_seconds c) + 15
    \<and> mount_shape L c u"
proof -
  note verified = verify_mount_signed [OF assms(1), folded c_def]
  then have shape: "mount_shape L c u" "mnt_audience c = aud"
    and life: "validate_lifetime (mnt_issued_at_unix_seconds c) (mnt_expires_at_unix_seconds c)
         MAX_MOUNT_CAPABILITY_LIFETIME_SECONDS now = Ok ()"
    by (simp_all add: validate_mount_claims_Ok)
  moreover have "mount_operation_as_i32 (mount_use_operation u) \<noteq> mount_operation_as_i32 Write"
    by (cases u) simp_all
  moreover have "mnt_operation c = mount_operation_as_i32 (mount_use_operation u)" "mnt_audience c \<noteq> []"
    using shape(1) by (simp_all add: mount_shape_def)
  moreover have "sint (MAX_MOUNT_CAPABILITY_LIFETIME_SECONDS) = 15"
    by (simp add: MAX_MOUNT_CAPABILITY_LIFETIME_SECONDS_def)
  ultimately show ?thesis
    using conjunct1 [OF verified] unfolding validate_lifetime_Ok by simp
qed

lemma sample_mount_verified:
  "is_ok (verify_mount_storage_capability sample_lib (''fbcap2.'' @ b64_encode (encode_signed_mount sample_lib sample_signed))
     sample_keyset ''io-worker'' WriteData 1003)"
  by code_simp

theorem mount_capability_verified_bounds_witness:
  "\<exists>wire v. verify_mount_storage_capability sample_lib wire sample_keyset ''io-worker'' WriteData 1003 = Ok v
     \<and> sint (mnt_expires_at_unix_seconds (verified_claims v)) \<le> sint (mnt_issued_at_unix_seconds (verified_claims v)) + 15"
proof -
  let ?w = "''fbcap2.'' @ b64_encode (encode_signed_mount sample_lib sample_signed)"
  obtain v where v: "verify_mount_storage_capability sample_lib ?w sample_keyset ''io-worker'' WriteData 1003 = Ok v"
    using sample_mount_verified
    by (cases "verify_mount_storage_capability sample_lib ?w sample_keyset ''io-worker'' WriteData 1003") auto
  from mount_capability_verified_bounds [OF v] v show ?thesis by blast
qed

text \<open>C24: A verified service capability is bounded the same way: signed under its own domain by the
  keyset's key of the named generation, for this audience and operation, valid for at most 60
  seconds with now inside the window, an ordered range, a nonce of 16 to 64 bytes, and, for every
  operation on behalf of a user (all but the four revision operations), no zero authorization
  generation.\<close>

theorem service_capability_verified_bounds:
  assumes "verify_capability L wire ks aud operation now = Ok v"
  defines "c \<equiv> verified_claims v"
  shows "(\<exists>key m s. bt_get (keys ks) (verified_generation v) = Some key
      \<and> ed25519_verify (key_ops L) key (CAPABILITY_SIGNATURE_DOMAIN @ m) s
      \<and> decode_claims L m = Some c)
    \<and> cap_audience c = aud \<and> cap_operation c = operation_as_i32 operation
    \<and> sint (cap_issued_at_unix_seconds c) \<le> sint now
    \<and> sint now < sint (cap_expires_at_unix_seconds c)
    \<and> sint (cap_expires_at_unix_seconds c) \<le> sint (cap_issued_at_unix_seconds c) + 60
    \<and> cap_range_start c \<le> cap_range_end c
    \<and> 16 \<le> length (cap_nonce c) \<and> length (cap_nonce c) \<le> 64
    \<and> (operation \<in> revision_operations
       \<or> 0 \<notin> {cap_resource_acl_generation c, cap_drive_acl_generation c,
               cap_membership_generation c, cap_namespace_generation c})"
proof -
  note verified = verify_capability_signed [OF assms(1), folded c_def]
  then have shape: "claims_shape L c operation" "cap_audience c = aud"
    and life: "validate_lifetime (cap_issued_at_unix_seconds c) (cap_expires_at_unix_seconds c)
         MAX_CAPABILITY_LIFETIME_SECONDS now = Ok ()"
    by (simp_all add: validate_capability_claims_Ok)
  moreover have "sint (MAX_CAPABILITY_LIFETIME_SECONDS) = 60"
    by (simp add: MAX_CAPABILITY_LIFETIME_SECONDS_def)
  ultimately show ?thesis
    using conjunct1 [OF verified] unfolding validate_lifetime_Ok claims_shape_def by auto
qed

definition sample_service_envelope :: SignedCapability where
  "sample_service_envelope =
     \<lparr>sc_key_generation = 7, sc_claims = encode_claims sample_lib sample_claims,
      sc_signature = ed25519_sign sample_lib ''key''
        (CAPABILITY_SIGNATURE_DOMAIN @ encode_claims sample_lib sample_claims)\<rparr>"

definition sample_service_wire :: string where
  "sample_service_wire = ''fbcap1.'' @ b64_encode (encode_signed sample_lib sample_service_envelope)"

lemma sample_service_verified:
  "verify_api_storage_capability sample_lib sample_service_wire sample_keyset ''io-worker'' Download 1059 =
     Ok \<lparr>verified_claims = sample_claims, verified_generation = 7\<rparr>"
  by code_simp

theorem service_capability_verified_bounds_witness:
  "sint (cap_expires_at_unix_seconds sample_claims) \<le> sint (cap_issued_at_unix_seconds sample_claims) + 60
   \<and> cap_operation sample_claims = operation_as_i32 CapabilityOperation.Download"
  using service_capability_verified_bounds
    [OF sample_service_verified [unfolded verify_api_storage_capability_def api_use_operation.simps]]
  by simp

text \<open>C23: The capability families do not overlap: a wire text that the API verifier accepts for a use
  is accepted for no other API use and by none of the collaboration, document, revision and mount
  verifiers, whatever their keysets, audiences and clocks; so a service can only exercise the
  operations of its own purpose.\<close>

theorem capability_uses_separated:
  assumes "verify_api_storage_capability L wire ks aud u now = Ok v"
  shows "(\<forall>ks' aud' u' now' v'.
      verify_api_storage_capability L wire ks' aud' u' now' = Ok v' \<longrightarrow> u' = u \<and> verified_claims v' = verified_claims v)
    \<and> (\<forall>ks' aud' u' now' v'. verify_collaboration_storage_capability L wire ks' aud' u' now' \<noteq> Ok v')
    \<and> (\<forall>ks' aud' u' now' v'. verify_document_storage_capability L wire ks' aud' u' now' \<noteq> Ok v')
    \<and> (\<forall>ks' aud' u' now' v'. verify_revision_storage_capability L wire ks' aud' u' now' \<noteq> Ok v')
    \<and> (\<forall>ks' aud' u' now' v'. verify_mount_storage_capability L wire ks' aud' u' now' \<noteq> Ok v')"
proof -
  have same: "operation' = api_use_operation u \<and> verified_claims v' = verified_claims v"
    if "verify_capability L wire ks' aud' operation' now' = Ok v'" for ks' aud' operation' now' v'
    using that assms
    by (auto simp: verify_api_storage_capability_def verify_capability_Ok
        validate_capability_claims_Ok claims_shape_def)
  have ops: "api_use_operation a = api_use_operation b \<longleftrightarrow> a = b" for a b
    by (cases a; cases b; simp)
  have others: "collaboration_use_operation x \<noteq> api_use_operation a
    \<and> document_use_operation y \<noteq> api_use_operation a
    \<and> revision_use_operation z \<noteq> api_use_operation a" for a x y z
    by (cases a; cases x; cases y; cases z; simp)
  have "take 7 wire = ''fbcap1.''"
    using assms by (auto simp: verify_api_storage_capability_def verify_capability_Ok)
  then have "verify_mount_storage_capability L wire ks' aud' u' now' \<noteq> Ok v'" for ks' aud' u' now' v'
    by (auto simp: verify_mount_Ok)
  then show ?thesis
    using same ops others unfolding verify_api_storage_capability_def verify_collaboration_storage_capability_def
      verify_document_storage_capability_def verify_revision_storage_capability_def
    by metis
qed

theorem capability_uses_separated_witness:
  "verify_document_storage_capability sample_lib sample_service_wire sample_keyset ''io-worker'' ReadVersion 1059
     \<noteq> Ok \<lparr>verified_claims = sample_claims, verified_generation = 7\<rparr>"
  using capability_uses_separated [OF sample_service_verified] by blast

end
