(* ===== verification/Posix_Fs.thy ===== *)
theory Posix_Fs
  imports Text_Codec "HOL-Library.AList" "HOL-Library.Sublist"
begin

text \<open>
  The part of \<open>std::fs\<close> and of POSIX that the storage crate uses, as explicit state passing.

  The state has names, inodes and hard links: a path is the list of its components, and the
  table of names gives the inode number of every existing path. A regular file is a list of
  cells, each a hole or a byte, so that sparse files are visible. Paths are looked up
  literally: a path below a symbolic link does not exist in the model, and a final symbolic
  link is followed by the calls that follow it (\<open>open\<close>, \<open>chmod\<close>).

  Every system call may fail. The list of faults says, call by call, whether the call is
  carried out (\<open>None\<close>) or fails with an I/O error; a write that fails may have written a
  prefix (\<open>Some n\<close>). When the list is used up no further call fails, so the empty list is a
  run without faults. A crash is a fault after which the program does nothing more.
\<close>

unbundle bit_operations_syntax

section \<open>Inodes, names and faults\<close>

type_synonym path = "string list"
type_synonym ino = nat

datatype cell = Hole | Data char

type_synonym sparse = "cell list"

fun cell_byte :: "cell \<Rightarrow> char" where
  "cell_byte Hole = CHR 0x00"
| "cell_byte (Data c) = c"

definition contents :: "sparse \<Rightarrow> bytes" where
  "contents f = map cell_byte f"

datatype file_type = Regular sparse | Directory | Symlink path

record inode =
  ftype :: file_type
  perm :: u32
  owner_uid :: nat

record fs =
  names :: "(path \<times> ino) list"
  inodes :: "ino \<Rightarrow> inode option"
  next_ino :: ino
  umask :: u32
  euid :: nat
  clock :: nat
  modified :: "ino \<Rightarrow> nat"

type_synonym fault = "nat option"

datatype io_error =
    NotFound
  | AlreadyExists
  | NotADirectory
  | IsADirectory
  | DirectoryNotEmpty
  | InvalidInput
  | TooManyLinks
  | DeviceError

datatype Errno = INVAL | NOTSUP | NXIO | OtherErrno

section \<open>Errors of the storage crate\<close>

datatype StorageError =
    Io io_error
  | UnsafeObject
  | CorruptObject
  | InvalidContent
  | StateConflict
  | UnsupportedFilesystem
  | Join

text \<open>A run stops with an error value, by a panic, or not at all within a loop bound.\<close>

datatype stop = Fails StorageError | Panicking | Unbounded

type_synonym world = "fs \<times> fault list"
type_synonym ('a, 'e) call = "world \<Rightarrow> ('a, 'e) result \<times> world"
type_synonym 'a sys = "('a, io_error) call"
type_synonym 'a io = "world \<Rightarrow> ('a, stop) result \<times> world"

definition ret :: "'a \<Rightarrow> 'a io" where
  "ret x w = (Ok x, w)"

definition stop_with :: "stop \<Rightarrow> 'a io" where
  "stop_with e w = (Err e, w)"

abbreviation fail :: "StorageError \<Rightarrow> 'a io" where
  "fail e \<equiv> stop_with (Fails e)"

definition io_then :: "'a io \<Rightarrow> ('a \<Rightarrow> 'b io) \<Rightarrow> 'b io" where
  "io_then m f w = (case m w of (Ok x, w') \<Rightarrow> f x w' | (Err e, w') \<Rightarrow> (Err e, w'))"

text \<open>The \<open>?\<close> operator on a system call, and a \<open>match\<close> on its result.\<close>

definition try_sys :: "'a sys \<Rightarrow> 'a io" where
  "try_sys m w = (case m w of (Ok x, w') \<Rightarrow> (Ok x, w') | (Err e, w') \<Rightarrow> (Err (Fails (Io e)), w'))"

definition match_sys :: "('a, 'e) call \<Rightarrow> (('a, 'e) result \<Rightarrow> 'b io) \<Rightarrow> 'b io" where
  "match_sys m f w = (case m w of (r, w') \<Rightarrow> f r w')"

text \<open>A \<open>match\<close> on the result of a computation, for code that handles an error.\<close>

definition match_io :: "'a io \<Rightarrow> (('a, StorageError) result \<Rightarrow> 'b io) \<Rightarrow> 'b io" where
  "match_io m f w =
     (case m w of
        (Ok x, w') \<Rightarrow> f (Ok x) w'
      | (Err (Fails e), w') \<Rightarrow> f (Err e) w'
      | (Err e, w') \<Rightarrow> (Err e, w'))"

definition lift_result :: "('a, StorageError) result \<Rightarrow> 'a io" where
  "lift_result r = (case r of Ok x \<Rightarrow> ret x | Err e \<Rightarrow> fail e)"

fun io_each :: "('a \<Rightarrow> unit io) \<Rightarrow> 'a list \<Rightarrow> unit io" where
  "io_each f [] = ret ()"
| "io_each f (x # xs) = io_then (f x) (\<lambda>_. io_each f xs)"

fun io_collect :: "('a \<Rightarrow> 'b io) \<Rightarrow> 'a list \<Rightarrow> 'b list io" where
  "io_collect f [] = ret []"
| "io_collect f (x # xs) = io_then (f x) (\<lambda>y. io_then (io_collect f xs) (\<lambda>ys. ret (y # ys)))"

section \<open>Reading and changing the tables\<close>

definition lookup :: "fs \<Rightarrow> path \<Rightarrow> inode option" where
  "lookup s p = Option.bind (map_of (names s) p) (inodes s)"

definition is_dir :: "fs \<Rightarrow> path \<Rightarrow> bool" where
  "is_dir s p \<longleftrightarrow> (\<exists>n. lookup s p = Some n \<and> ftype n = Directory)"

definition children :: "fs \<Rightarrow> path \<Rightarrow> string list" where
  "children s p = [last q. (q, i) \<leftarrow> names s, q \<noteq> [] \<and> butlast q = p]"

definition file_at :: "fs \<Rightarrow> path \<Rightarrow> bytes option" where
  "file_at s p =
     (case lookup s p of
        Some n \<Rightarrow> (case ftype n of Regular c \<Rightarrow> Some (contents c) | _ \<Rightarrow> None)
      | None \<Rightarrow> None)"

fun resolve :: "nat \<Rightarrow> fs \<Rightarrow> path \<Rightarrow> (ino, io_error) result" where
  "resolve 0 s p = Err TooManyLinks"
| "resolve (Suc n) s p =
     (case map_of (names s) p of
        None \<Rightarrow> Err NotFound
      | Some i \<Rightarrow>
          (case inodes s i of
             Some d \<Rightarrow> (case ftype d of Symlink t \<Rightarrow> resolve n s t | _ \<Rightarrow> Ok i)
           | None \<Rightarrow> Err NotFound))"

definition MAX_SYMLINKS :: nat where
  "MAX_SYMLINKS = 40"

definition touch :: "ino \<Rightarrow> fs \<Rightarrow> fs" where
  "touch i s = s\<lparr>modified := (modified s)(i := clock s)\<rparr>"

definition touch_path :: "path \<Rightarrow> fs \<Rightarrow> fs" where
  "touch_path p s = (case map_of (names s) p of Some i \<Rightarrow> touch i s | None \<Rightarrow> s)"

definition add_entry :: "path \<Rightarrow> inode \<Rightarrow> fs \<Rightarrow> fs" where
  "add_entry p n s =
     touch_path (butlast p) (touch (next_ino s)
       (s\<lparr>names := AList.update p (next_ino s) (names s),
          inodes := (inodes s)(next_ino s \<mapsto> n),
          next_ino := next_ino s + 1\<rparr>))"

definition set_inode :: "ino \<Rightarrow> inode \<Rightarrow> fs \<Rightarrow> fs" where
  "set_inode i n s = s\<lparr>inodes := (inodes s)(i \<mapsto> n)\<rparr>"

definition remove_entry :: "path \<Rightarrow> fs \<Rightarrow> fs" where
  "remove_entry p s = touch_path (butlast p) (s\<lparr>names := AList.delete p (names s)\<rparr>)"

definition parent_check :: "fs \<Rightarrow> path \<Rightarrow> (unit, io_error) result" where
  "parent_check s p =
     (if p = [] then Err InvalidInput
      else case lookup s (butlast p) of
        None \<Rightarrow> Err NotFound
      | Some n \<Rightarrow> if ftype n = Directory then Ok () else Err NotADirectory)"

definition move_path :: "path \<Rightarrow> path \<Rightarrow> path \<Rightarrow> path" where
  "move_path src dst q = (if prefix src q then dst @ drop (length src) q else q)"

section \<open>System calls\<close>

definition faulty_with :: "'e \<Rightarrow> (fs \<Rightarrow> ('a, 'e) result \<times> fs) \<Rightarrow> ('a, 'e) call" where
  "faulty_with e f w =
     (case w of (s, fl) \<Rightarrow>
        (case fl of
           Some _ # rest \<Rightarrow> (Err e, (s, rest))
         | None # rest \<Rightarrow> (case f s of (r, s') \<Rightarrow> (r, (s', rest)))
         | [] \<Rightarrow> (case f s of (r, s') \<Rightarrow> (r, (s', [])))))"

abbreviation faulty :: "(fs \<Rightarrow> ('a, io_error) result \<times> fs) \<Rightarrow> 'a sys" where
  "faulty \<equiv> faulty_with DeviceError"

definition symlink_metadata :: "path \<Rightarrow> inode sys" where
  "symlink_metadata p = faulty (\<lambda>s. (ok_or (lookup s p) NotFound, s))"

definition file_open :: "path \<Rightarrow> ino sys" where
  "file_open p = faulty (\<lambda>s. (resolve MAX_SYMLINKS s p, s))"

text \<open>\<open>fs::metadata\<close> follows a final symbolic link.\<close>

definition metadata :: "path \<Rightarrow> inode sys" where
  "metadata p = faulty (\<lambda>s.
     (and_then (resolve MAX_SYMLINKS s p) (\<lambda>i. ok_or (inodes s i) NotFound), s))"

definition file_len :: "inode \<Rightarrow> nat" where
  "file_len n = (case ftype n of Regular c \<Rightarrow> length c | _ \<Rightarrow> 0)"

definition is_file :: "inode \<Rightarrow> bool" where
  "is_file n = (case ftype n of Regular c \<Rightarrow> True | _ \<Rightarrow> False)"

definition open_create_new :: "path \<Rightarrow> u32 \<Rightarrow> ino sys" where
  "open_create_new p m = faulty (\<lambda>s.
     case parent_check s p of
       Err e \<Rightarrow> (Err e, s)
     | Ok _ \<Rightarrow>
         if map_of (names s) p \<noteq> None then (Err AlreadyExists, s)
         else (Ok (next_ino s),
               add_entry p \<lparr>ftype = Regular [], perm = m AND NOT (umask s), owner_uid = euid s\<rparr> s))"

definition mkdir :: "path \<Rightarrow> u32 \<Rightarrow> unit sys" where
  "mkdir p m = faulty (\<lambda>s.
     case parent_check s p of
       Err e \<Rightarrow> (Err e, s)
     | Ok _ \<Rightarrow>
         if map_of (names s) p \<noteq> None then (Err AlreadyExists, s)
         else (Ok (),
               add_entry p \<lparr>ftype = Directory, perm = m AND NOT (umask s), owner_uid = euid s\<rparr> s))"

definition make_symlink :: "path \<Rightarrow> path \<Rightarrow> unit sys" where
  "make_symlink t p = faulty (\<lambda>s.
     case parent_check s p of
       Err e \<Rightarrow> (Err e, s)
     | Ok _ \<Rightarrow>
         if map_of (names s) p \<noteq> None then (Err AlreadyExists, s)
         else (Ok (), add_entry p \<lparr>ftype = Symlink t, perm = 511, owner_uid = euid s\<rparr> s))"

definition fchmod :: "ino \<Rightarrow> u32 \<Rightarrow> unit sys" where
  "fchmod i m = faulty (\<lambda>s.
     case inodes s i of
       None \<Rightarrow> (Err NotFound, s)
     | Some n \<Rightarrow> (Ok (), set_inode i (n\<lparr>perm := m\<rparr>) s))"

definition chmod :: "path \<Rightarrow> u32 \<Rightarrow> unit sys" where
  "chmod p m = faulty (\<lambda>s.
     case resolve MAX_SYMLINKS s p of
       Err e \<Rightarrow> (Err e, s)
     | Ok i \<Rightarrow>
         (case inodes s i of
            None \<Rightarrow> (Err NotFound, s)
          | Some n \<Rightarrow> (Ok (), set_inode i (n\<lparr>perm := m\<rparr>) s)))"

definition hard_link :: "path \<Rightarrow> path \<Rightarrow> unit sys" where
  "hard_link src dst = faulty (\<lambda>s.
     case map_of (names s) src of
       None \<Rightarrow> (Err NotFound, s)
     | Some i \<Rightarrow>
         if is_dir s src then (Err IsADirectory, s)
         else
           (case parent_check s dst of
              Err e \<Rightarrow> (Err e, s)
            | Ok _ \<Rightarrow>
                if map_of (names s) dst \<noteq> None then (Err AlreadyExists, s)
                else (Ok (), touch_path (butlast dst)
                               (s\<lparr>names := AList.update dst i (names s)\<rparr>))))"

definition remove_file :: "path \<Rightarrow> unit sys" where
  "remove_file p = faulty (\<lambda>s.
     case lookup s p of
       None \<Rightarrow> (Err NotFound, s)
     | Some n \<Rightarrow>
         if ftype n = Directory then (Err IsADirectory, s) else (Ok (), remove_entry p s))"

definition remove_dir :: "path \<Rightarrow> unit sys" where
  "remove_dir p = faulty (\<lambda>s.
     case lookup s p of
       None \<Rightarrow> (Err NotFound, s)
     | Some n \<Rightarrow>
         if ftype n \<noteq> Directory then (Err NotADirectory, s)
         else if children s p \<noteq> [] then (Err DirectoryNotEmpty, s)
         else (Ok (), remove_entry p s))"

text \<open>
  \<open>rename\<close> replaces a file by a file and an empty directory by a directory, moves the
  whole tree below a directory, and does nothing when both names are links to one file.
\<close>

definition rename_check :: "fs \<Rightarrow> path \<Rightarrow> path \<Rightarrow> (unit, io_error) result" where
  "rename_check s src dst =
     (case lookup s src of
        None \<Rightarrow> Err NotFound
      | Some n \<Rightarrow>
          and_then (parent_check s dst) (\<lambda>_.
          if ftype n = Directory \<and> strict_prefix src dst then Err InvalidInput
          else
            case lookup s dst of
              None \<Rightarrow> Ok ()
            | Some d \<Rightarrow>
                if ftype n = Directory \<and> ftype d \<noteq> Directory then Err NotADirectory
                else if ftype n \<noteq> Directory \<and> ftype d = Directory then Err IsADirectory
                else if ftype d = Directory \<and> children s dst \<noteq> [] then Err DirectoryNotEmpty
                else Ok ()))"

definition rename_entry :: "path \<Rightarrow> path \<Rightarrow> fs \<Rightarrow> fs" where
  "rename_entry src dst s =
     (if map_of (names s) src = map_of (names s) dst then s
      else touch_path (butlast src) (touch_path (butlast dst)
        (s\<lparr>names := map (\<lambda>(q, i). (move_path src dst q, i)) (AList.delete dst (names s))\<rparr>)))"

definition rename :: "path \<Rightarrow> path \<Rightarrow> unit sys" where
  "rename src dst = faulty (\<lambda>s.
     case rename_check s src dst of
       Err e \<Rightarrow> (Err e, s)
     | Ok _ \<Rightarrow> (Ok (), rename_entry src dst s))"

definition read_dir :: "path \<Rightarrow> string list sys" where
  "read_dir p = faulty (\<lambda>s.
     case lookup s p of
       None \<Rightarrow> (Err NotFound, s)
     | Some n \<Rightarrow>
         if ftype n = Directory then (Ok (children s p), s) else (Err NotADirectory, s))"

definition sync_all :: "ino \<Rightarrow> unit sys" where
  "sync_all i = faulty (\<lambda>s. (Ok (), s))"

definition fstat :: "ino \<Rightarrow> inode sys" where
  "fstat i = faulty (\<lambda>s. (ok_or (inodes s i) NotFound, s))"

text \<open>Reading a file to its end.\<close>

definition read_all :: "ino \<Rightarrow> bytes sys" where
  "read_all i = faulty (\<lambda>s.
     case inodes s i of
       None \<Rightarrow> (Err NotFound, s)
     | Some n \<Rightarrow>
         (case ftype n of
            Regular c \<Rightarrow> (Ok (contents c), s)
          | Directory \<Rightarrow> (Err IsADirectory, s)
          | Symlink _ \<Rightarrow> (Err InvalidInput, s)))"

definition resize :: "nat \<Rightarrow> sparse \<Rightarrow> sparse" where
  "resize n c = take n c @ replicate (n - length c) Hole"

definition write_cells :: "nat \<Rightarrow> bytes \<Rightarrow> sparse \<Rightarrow> sparse" where
  "write_cells pos bs c =
     (let c' = c @ replicate (pos - length c) Hole in
      if bs = [] then c else take pos c' @ map Data bs @ drop (pos + length bs) c')"

definition change_file :: "ino \<Rightarrow> (sparse \<Rightarrow> sparse) \<Rightarrow> fs \<Rightarrow> (unit, io_error) result \<times> fs" where
  "change_file i f s =
     (case inodes s i of
        None \<Rightarrow> (Err NotFound, s)
      | Some n \<Rightarrow>
          (case ftype n of
             Regular c \<Rightarrow> (Ok (), touch i (set_inode i (n\<lparr>ftype := Regular (f c)\<rparr>) s))
           | _ \<Rightarrow> (Err InvalidInput, s)))"

definition set_len :: "ino \<Rightarrow> nat \<Rightarrow> unit sys" where
  "set_len i n = faulty (change_file i (resize n))"

text \<open>\<open>seek\<close> to a position, which never changes the file.\<close>

definition seek_start :: "ino \<Rightarrow> nat \<Rightarrow> unit sys" where
  "seek_start i pos = faulty (\<lambda>s. (Ok (), s))"

text \<open>\<open>write_all\<close> at a position; a failing one may have written a prefix.\<close>

definition write_all :: "ino \<Rightarrow> nat \<Rightarrow> bytes \<Rightarrow> unit sys" where
  "write_all i pos bs w =
     (case w of (s, fl) \<Rightarrow>
        (case fl of
           Some n # rest \<Rightarrow> (Err DeviceError, (snd (change_file i (write_cells pos (take n bs)) s), rest))
         | None # rest \<Rightarrow> (case change_file i (write_cells pos bs) s of (r, s') \<Rightarrow> (r, (s', rest)))
         | [] \<Rightarrow> (case change_file i (write_cells pos bs) s of (r, s') \<Rightarrow> (r, (s', [])))))"

end
