(* ===== verification/Posix_Spec.thy ===== *)
theory Posix_Spec
  imports Posix_Fs
begin

text \<open>
  Reasoning about the file-system model: the well-formedness of its tables, what every change
  does to the names, and specifications of computations that hold for every list of faults.
\<close>

section \<open>Well-formed tables\<close>

definition fs_ok :: "fs \<Rightarrow> bool" where
  "fs_ok s \<longleftrightarrow>
     distinct (map fst (names s))
     \<and> (\<forall>p i. map_of (names s) p = Some i \<longrightarrow>
          i < next_ino s \<and> inodes s i \<noteq> None \<and> (p \<noteq> [] \<longrightarrow> is_dir s (butlast p)))
     \<and> (\<forall>i. next_ino s \<le> i \<longrightarrow> inodes s i = None)"

lemma fs_ok_parts:
  assumes "fs_ok s"
  shows fs_ok_distinct: "distinct (map fst (names s))"
    and fs_ok_bound: "map_of (names s) p = Some i \<Longrightarrow> i < next_ino s"
    and fs_ok_inode: "map_of (names s) p = Some i \<Longrightarrow> \<exists>n. inodes s i = Some n"
    and fs_ok_parent: "map_of (names s) p = Some i \<Longrightarrow> p \<noteq> [] \<Longrightarrow> is_dir s (butlast p)"
    and fs_ok_fresh: "next_ino s \<le> i \<Longrightarrow> inodes s i = None"
  using assms by (auto simp: fs_ok_def)

lemma touch_tables [simp]:
  "names (touch i s) = names s" "inodes (touch i s) = inodes s"
  "next_ino (touch i s) = next_ino s" "umask (touch i s) = umask s" "euid (touch i s) = euid s"
  by (simp_all add: touch_def)

lemma touch_path_tables [simp]:
  "names (touch_path p s) = names s" "inodes (touch_path p s) = inodes s"
  "next_ino (touch_path p s) = next_ino s" "umask (touch_path p s) = umask s"
  "euid (touch_path p s) = euid s"
  by (simp_all add: touch_path_def split: option.splits)

lemma add_entry_tables [simp]:
  "names (add_entry p n s) = AList.update p (next_ino s) (names s)"
  "inodes (add_entry p n s) = (inodes s)(next_ino s \<mapsto> n)"
  "next_ino (add_entry p n s) = next_ino s + 1"
  "umask (add_entry p n s) = umask s" "euid (add_entry p n s) = euid s"
  by (simp_all add: add_entry_def)

lemma set_inode_tables [simp]:
  "names (set_inode i n s) = names s" "inodes (set_inode i n s) = (inodes s)(i \<mapsto> n)"
  "next_ino (set_inode i n s) = next_ino s" "umask (set_inode i n s) = umask s"
  "euid (set_inode i n s) = euid s"
  by (simp_all add: set_inode_def)

lemma remove_entry_tables [simp]:
  "names (remove_entry p s) = AList.delete p (names s)" "inodes (remove_entry p s) = inodes s"
  "next_ino (remove_entry p s) = next_ino s" "umask (remove_entry p s) = umask s"
  "euid (remove_entry p s) = euid s"
  by (simp_all add: remove_entry_def)

lemma rename_entry_tables [simp]:
  "inodes (rename_entry src dst s) = inodes s"
  "next_ino (rename_entry src dst s) = next_ino s" "umask (rename_entry src dst s) = umask s"
  "euid (rename_entry src dst s) = euid s"
  by (simp_all add: rename_entry_def)

lemma lookup_cong:
  "map_of (names s') p = map_of (names s) p \<Longrightarrow>
   (\<And>i. map_of (names s) p = Some i \<Longrightarrow> inodes s' i = inodes s i) \<Longrightarrow> lookup s' p = lookup s p"
  by (cases "map_of (names s) p") (auto simp: lookup_def)

lemma is_dir_lookup: "lookup s p = Some n \<Longrightarrow> is_dir s p \<longleftrightarrow> ftype n = Directory"
  by (simp add: is_dir_def)

lemma is_dir_iff:
  "is_dir s p \<longleftrightarrow>
     (\<exists>i n. map_of (names s) p = Some i \<and> inodes s i = Some n \<and> ftype n = Directory)"
  by (auto simp: is_dir_def lookup_def bind_eq_Some_conv)

lemma lookup_Some:
  "lookup s p = Some n \<longleftrightarrow> (\<exists>i. map_of (names s) p = Some i \<and> inodes s i = Some n)"
  by (auto simp: lookup_def bind_eq_Some_conv)

lemma set_children:
  "distinct (map fst (names s)) \<Longrightarrow>
   set (children s p) = {x. map_of (names s) (p @ [x]) \<noteq> None}"
proof (intro equalityI subsetI)
  fix x assume d: "distinct (map fst (names s))"
  {
    assume "x \<in> set (children s p)"
    then obtain q i where "(q, i) \<in> set (names s)" "q \<noteq> []" "butlast q = p" "x = last q"
      by (auto simp: children_def split: if_splits)
    then have "(p @ [x], i) \<in> set (names s)" by auto
    with d have "map_of (names s) (p @ [x]) = Some i" by simp
    then show "x \<in> {x. map_of (names s) (p @ [x]) \<noteq> None}" by simp
  next
    assume "x \<in> {x. map_of (names s) (p @ [x]) \<noteq> None}"
    then obtain i where "(p @ [x], i) \<in> set (names s)"
      by (auto dest: map_of_SomeD)
    then show "x \<in> set (children s p)"
      by (force simp: children_def)
  }
qed

lemma distinct_children:
  assumes "distinct (map fst (names s))" shows "distinct (children s p)"
proof -
  have "distinct [last q. (q, i) \<leftarrow> xs, q \<noteq> [] \<and> butlast q = p]" if "distinct (map fst xs)" for xs :: "(path \<times> ino) list"
    using that
  proof (induction xs)
    case (Cons a xs)
    obtain q i where a: "a = (q, i)" by fastforce
    have "last q \<notin> set [last q. (q, i) \<leftarrow> xs, q \<noteq> [] \<and> butlast q = p]" if "q \<noteq> []" "butlast q = p"
    proof
      assume "last q \<in> set [last q. (q, i) \<leftarrow> xs, q \<noteq> [] \<and> butlast q = p]"
      then obtain r j where "(r, j) \<in> set xs" "r \<noteq> []" "butlast r = p" "last r = last q"
        by (auto split: if_splits)
      then have "r = q" using that by (metis append_butlast_last_id)
      with \<open>(r, j) \<in> set xs\<close> Cons.prems a show False by force
    qed
    with Cons a show ?case by auto
  qed simp
  from this [OF assms] show ?thesis by (simp add: children_def)
qed

section \<open>Well-formedness is kept\<close>

lemma fs_ok_add_entry:
  assumes ok: "fs_ok s" and p: "p \<noteq> []" "is_dir s (butlast p)" "map_of (names s) p = None"
  shows "fs_ok (add_entry p n s)"
proof -
  have fresh: "i < next_ino s" if "map_of (names s) q = Some i" for q i
    using that ok fs_ok_bound by blast
  have dirs: "is_dir (add_entry p n s) q" if q: "is_dir s q" for q
  proof -
    obtain i d where i: "map_of (names s) q = Some i" "inodes s i = Some d" "ftype d = Directory"
      using q by (auto simp: is_dir_iff)
    then have "q \<noteq> p" "i \<noteq> next_ino s" using p(3) fresh by auto
    with i show ?thesis by (simp add: is_dir_iff update_conv')
  qed
  have ino: "\<exists>n. inodes s i = Some n" if "map_of (names s) q = Some i" for q i
    using that ok fs_ok_inode by blast
  have par: "is_dir s (butlast q)" if "map_of (names s) q = Some i" "q \<noteq> []" for q i
    using that ok fs_ok_parent by blast
  have new: "inodes s i = None" if "next_ino s \<le> i" for i
    using that ok fs_ok_fresh by blast
  show ?thesis
    unfolding fs_ok_def
  proof (intro conjI allI impI)
    show "distinct (map fst (names (add_entry p n s)))"
      using fs_ok_distinct [OF ok] by (simp add: distinct_update)
  next
    fix q i assume "map_of (names (add_entry p n s)) q = Some i"
    then have "q = p \<and> i = next_ino s \<or> q \<noteq> p \<and> map_of (names s) q = Some i"
      by (auto simp: update_conv' split: if_splits)
    then show "i < next_ino (add_entry p n s)" "inodes (add_entry p n s) i \<noteq> None"
      "q \<noteq> [] \<Longrightarrow> is_dir (add_entry p n s) (butlast q)"
      using fresh ino par p(2) dirs by (auto simp: less_Suc_eq)
  next
    fix i assume "next_ino (add_entry p n s) \<le> i"
    then show "inodes (add_entry p n s) i = None" using new by simp
  qed
qed

lemma fs_ok_link:
  assumes ok: "fs_ok s" and p: "p \<noteq> []" "is_dir s (butlast p)" "map_of (names s) p = None"
    and i: "map_of (names s) q = Some i"
  shows "fs_ok (touch_path r (s\<lparr>names := AList.update p i (names s)\<rparr>))" (is "fs_ok ?t")
proof -
  have dirs: "is_dir ?t d" if "is_dir s d" for d
    using that p(3) by (auto simp: is_dir_def lookup_def bind_eq_Some_conv update_conv')
  have old: "j < next_ino s \<and> (\<exists>n. inodes s j = Some n)" if "map_of (names s) d = Some j" for d j
    using that ok fs_ok_bound fs_ok_inode by blast
  have par: "is_dir s (butlast d)" if "map_of (names s) d = Some j" "d \<noteq> []" for d j
    using that ok fs_ok_parent by blast
  show ?thesis
    unfolding fs_ok_def
  proof (intro conjI allI impI)
    show "distinct (map fst (names ?t))"
      using fs_ok_distinct [OF ok] by (simp add: distinct_update)
  next
    fix d j assume "map_of (names ?t) d = Some j"
    then have "d = p \<and> j = i \<or> d \<noteq> p \<and> map_of (names s) d = Some j"
      by (auto simp: update_conv' split: if_splits)
    then show "j < next_ino ?t" "inodes ?t j \<noteq> None" "d \<noteq> [] \<Longrightarrow> is_dir ?t (butlast d)"
      using old [OF i] old par p(2) dirs by auto
  next
    fix j assume "next_ino ?t \<le> j"
    then show "inodes ?t j = None" using ok fs_ok_fresh by simp
  qed
qed

lemma fs_ok_set_inode:
  assumes ok: "fs_ok s" and n: "inodes s i = Some m" "ftype m = Directory \<longleftrightarrow> ftype n = Directory"
  shows "fs_ok (set_inode i n s)"
proof -
  have dirs: "is_dir (set_inode i n s) d" if d: "is_dir s d" for d
  proof -
    obtain j e where j: "map_of (names s) d = Some j" "inodes s j = Some e" "ftype e = Directory"
      using d by (auto simp: is_dir_iff)
    with n show ?thesis by (cases "j = i") (auto simp: is_dir_iff)
  qed
  have "i < next_ino s"
    using fs_ok_fresh [OF ok, of i] n(1) by (cases "i < next_ino s") auto
  then have "inodes (set_inode i n s) j = None" if "next_ino s \<le> j" for j
    using that fs_ok_fresh [OF ok] by auto
  moreover have "j < next_ino s" "inodes (set_inode i n s) j \<noteq> None"
    "p \<noteq> [] \<longrightarrow> is_dir (set_inode i n s) (butlast p)" if "map_of (names s) p = Some j" for p j
    using that fs_ok_bound [OF ok that] fs_ok_inode [OF ok that] fs_ok_parent [OF ok that] dirs
    by auto
  ultimately show ?thesis
    unfolding fs_ok_def using fs_ok_distinct [OF ok] by simp
qed

lemma fs_ok_touch [simp]: "fs_ok (touch i s) \<longleftrightarrow> fs_ok s"
  by (simp add: fs_ok_def is_dir_def lookup_def)

lemma fs_ok_remove_entry:
  assumes ok: "fs_ok s" and leaf: "\<And>x. map_of (names s) (p @ [x]) = None"
  shows "fs_ok (remove_entry p s)"
proof -
  have dirs: "is_dir (remove_entry p s) (butlast d)"
    if d: "map_of (names s) d = Some i" "d \<noteq> []" for d i
  proof -
    have "butlast d \<noteq> p"
      using leaf [of "last d"] d by auto
    with fs_ok_parent [OF ok d] show ?thesis
      by (simp add: is_dir_def lookup_def delete_conv')
  qed
  have old: "j < next_ino s \<and> (\<exists>n. inodes s j = Some n)" if "map_of (names s) d = Some j" for d j
    using that ok fs_ok_bound fs_ok_inode by blast
  show ?thesis
    unfolding fs_ok_def
  proof (intro conjI allI impI)
    show "distinct (map fst (names (remove_entry p s)))"
      using fs_ok_distinct [OF ok] by (simp add: distinct_delete)
  next
    fix d j assume "map_of (names (remove_entry p s)) d = Some j"
    then have j: "map_of (names s) d = Some j"
      by (auto simp: delete_conv' split: if_splits)
    with old show "j < next_ino (remove_entry p s)" "inodes (remove_entry p s) j \<noteq> None"
      by fastforce+
    show "is_dir (remove_entry p s) (butlast d)" if "d \<noteq> []"
      using dirs [OF j that] .
  next
    fix j assume "next_ino (remove_entry p s) \<le> j"
    then show "inodes (remove_entry p s) j = None" using ok fs_ok_fresh by simp
  qed
qed

section \<open>Renaming\<close>

lemma descendant_dir:
  assumes "fs_ok s" and "map_of (names s) (p @ r) = Some i" and "r \<noteq> []"
  shows "is_dir s p"
  using assms(2,3)
proof (induction r arbitrary: i rule: rev_induct)
  case (snoc x r)
  have d: "is_dir s (p @ r)"
    using fs_ok_parent [OF assms(1) snoc.prems(1)] by (simp add: butlast_append)
  show ?case
  proof (cases "r = []")
    case False
    from d obtain j where "map_of (names s) (p @ r) = Some j" by (auto simp: is_dir_iff)
    from snoc.IH [OF this False] show ?thesis .
  qed (use d in simp)
qed simp

lemma no_descendants:
  "fs_ok s \<Longrightarrow> \<not> is_dir s p \<Longrightarrow> r \<noteq> [] \<Longrightarrow> map_of (names s) (p @ r) = None"
  using descendant_dir by (cases "map_of (names s) (p @ r)") blast+

lemma map_of_map_key:
  assumes "distinct (map fst xs)" and inj: "inj_on f (fst ` set xs)"
  shows "map_of (map (\<lambda>(q, i). (f q, i)) xs) k = Some v \<longleftrightarrow> (\<exists>q. map_of xs q = Some v \<and> f q = k)"
proof -
  have "distinct (map fst (map (\<lambda>(q, i). (f q, i)) xs))"
  proof -
    have "map fst (map (\<lambda>(q, i). (f q, i)) xs) = map f (map fst xs)"
      by auto
    moreover have "distinct (map f (map fst xs))"
      using assms by (subst distinct_map) (auto simp del: map_map)
    ultimately show ?thesis by (simp only:)
  qed
  then have "map_of (map (\<lambda>(q, i). (f q, i)) xs) k = Some v \<longleftrightarrow>
      (k, v) \<in> set (map (\<lambda>(q, i). (f q, i)) xs)"
    by simp
  also have "\<dots> \<longleftrightarrow> (\<exists>q. (q, v) \<in> set xs \<and> f q = k)"
    by auto
  also have "\<dots> \<longleftrightarrow> (\<exists>q. map_of xs q = Some v \<and> f q = k)"
    using assms(1) by simp
  finally show ?thesis .
qed

lemma option_ext: "(\<And>v. a = Some v \<longleftrightarrow> b = Some v) \<Longrightarrow> a = b"
  by (cases a; cases b) (blast | simp)+

lemma rename_keys:
  assumes ok: "fs_ok s" and leaf: "\<forall>r. r \<noteq> [] \<longrightarrow> map_of (names s) (dst @ r) = None"
  shows "map_of (AList.delete dst (names s)) k = Some v \<Longrightarrow> \<not> prefix dst k"
    and "inj_on (move_path src dst) (fst ` set (AList.delete dst (names s)))"
proof -
  let ?xs = "AList.delete dst (names s)"
  have keys: "\<not> prefix dst k" if k: "map_of ?xs k = Some v" for k v
  proof
    assume "prefix dst k"
    then obtain r where r: "k = dst @ r" by (auto simp: prefix_def)
    with k have "r \<noteq> []" by (auto simp: delete_conv')
    with leaf k r show False by (simp add: delete_conv')
  qed
  then show "map_of ?xs k = Some v \<Longrightarrow> \<not> prefix dst k" .
  show "inj_on (move_path src dst) (fst ` set ?xs)"
  proof (rule inj_onI)
    fix k l assume "k \<in> fst ` set ?xs" "l \<in> fst ` set ?xs" and eq: "move_path src dst k = move_path src dst l"
    then obtain u v where "map_of ?xs k = Some u" "map_of ?xs l = Some v"
      by (metis map_of_eq_None_iff not_Some_eq)
    then have "\<not> prefix dst k" "\<not> prefix dst l" using keys by blast+
    with eq show "k = l"
      by (auto simp: move_path_def prefix_def split: if_splits)
  qed
qed

lemma map_of_rename_entry:
  assumes ok: "fs_ok s" and diff: "map_of (names s) src \<noteq> map_of (names s) dst"
    and apart: "\<not> prefix src dst" "\<not> prefix dst src"
    and leaf: "\<And>r. r \<noteq> [] \<Longrightarrow> map_of (names s) (dst @ r) = None"
  shows "map_of (names (rename_entry src dst s)) q =
    (if prefix dst q then map_of (names s) (src @ drop (length dst) q)
     else if prefix src q then None else map_of (names s) q)"
    (is "?L = ?R")
proof -
  let ?xs = "AList.delete dst (names s)"
  have leaf': "\<forall>r. r \<noteq> [] \<longrightarrow> map_of (names s) (dst @ r) = None" using leaf by blast
  note keys = rename_keys(1) [OF ok leaf'] and inj = rename_keys(2) [OF ok leaf', of src]
  have distinct: "distinct (map fst ?xs)"
    using fs_ok_distinct [OF ok] by (rule distinct_delete)
  have char: "?L = Some v \<longleftrightarrow> (\<exists>k. map_of ?xs k = Some v \<and> move_path src dst k = q)" for v
    using diff map_of_map_key [OF distinct inj, of q v] by (simp add: rename_entry_def)
  have "?L = Some v \<longleftrightarrow> ?R = Some v" for v
  proof (cases "prefix dst q")
    case True
    then obtain r where q: "q = dst @ r" by (auto simp: prefix_def)
    have "?L = Some v \<longleftrightarrow> map_of ?xs (src @ r) = Some v"
    proof -
      have "k = src @ r" if "map_of ?xs k = Some v" "move_path src dst k = q" for k
        using that keys [OF that(1)] q by (auto simp: move_path_def prefix_def split: if_splits)
      moreover have "move_path src dst (src @ r) = q"
        by (simp add: move_path_def q)
      ultimately show ?thesis
        unfolding char by blast
    qed
    moreover have "map_of ?xs (src @ r) = map_of (names s) (src @ r)"
      using apart(1) by (auto simp: delete_conv' prefix_def)
    ultimately show ?thesis using q by simp
  next
    case False
    then have "?L = Some v \<longleftrightarrow> \<not> prefix src q \<and> map_of ?xs q = Some v"
      unfolding char by (auto simp: move_path_def prefix_def split: if_splits)
    moreover have "map_of ?xs q = map_of (names s) q"
      using False by (auto simp: delete_conv')
    ultimately show ?thesis using False by simp
  qed
  then show ?thesis by (rule option_ext)
qed

lemma fs_ok_rename_entry:
  assumes ok: "fs_ok s" and diff: "map_of (names s) src \<noteq> map_of (names s) dst"
    and apart: "\<not> prefix src dst" "\<not> prefix dst src"
    and leaf: "\<And>r. r \<noteq> [] \<Longrightarrow> map_of (names s) (dst @ r) = None"
    and par: "dst \<noteq> []" "is_dir s (butlast dst)"
  shows "fs_ok (rename_entry src dst s)"
proof -
  note ren = map_of_rename_entry [OF ok diff apart leaf]
  let ?t = "rename_entry src dst s"
  have old: "j < next_ino s \<and> (\<exists>n. inodes s j = Some n)" if "map_of (names s) d = Some j" for d j
    using that ok fs_ok_bound fs_ok_inode by blast
  have keep: "is_dir ?t d" if d: "is_dir s d" "\<not> prefix dst d" "\<not> prefix src d" for d
    using d by (simp add: is_dir_iff ren)
  have butlast_prefix: "prefix p d" if "prefix p (butlast d)" for p d :: path
    using that by (metis append_butlast_last_id butlast.simps(1) prefixI prefix_order.trans)
  have dirs: "is_dir ?t (butlast q)" if q: "map_of (names ?t) q = Some j" "q \<noteq> []" for q j
  proof (cases "prefix dst q")
    case True
    then obtain r where r: "q = dst @ r" by (auto simp: prefix_def)
    show ?thesis
    proof (cases "r = []")
      case True
      have "\<not> prefix dst (butlast dst)"
        using par(1) by (metis length_butlast diff_less length_greater_0_conv not_less prefix_length_le zero_less_one)
      moreover have "\<not> prefix src (butlast dst)"
        using apart(1) butlast_prefix by blast
      ultimately show ?thesis using keep par(2) r True by simp
    next
      case False
      with q(1) r have "map_of (names s) (src @ r) = Some j" by (simp add: ren)
      from fs_ok_parent [OF ok this] False have "is_dir s (src @ butlast r)"
        by (simp add: butlast_append)
      then show ?thesis
        using r False by (simp add: is_dir_iff ren butlast_append)
    qed
  next
    case False
    with q(1) have q': "map_of (names s) q = Some j" "\<not> prefix src q"
      by (auto simp: ren split: if_splits)
    from fs_ok_parent [OF ok q'(1) q(2)] keep False q'(2) butlast_prefix show ?thesis by blast
  qed
  have distinct: "distinct (map fst (names ?t))"
  proof -
    let ?xs = "AList.delete dst (names s)"
    have "distinct (map fst ?xs)"
      using fs_ok_distinct [OF ok] by (rule distinct_delete)
    with rename_keys(2) [of s dst src] ok leaf have "distinct (map (move_path src dst) (map fst ?xs))"
      by (subst distinct_map) (auto simp del: map_map)
    moreover have "map fst (map (\<lambda>(q, i). (move_path src dst q, i)) ?xs) = map (move_path src dst) (map fst ?xs)"
      by auto
    ultimately show ?thesis
      using diff by (simp add: rename_entry_def del: map_map)
  qed
  have new: "j < next_ino ?t \<and> inodes ?t j \<noteq> None" if "map_of (names ?t) q = Some j" for q j
    using that old by (fastforce simp: ren split: if_splits)
  show ?thesis
    unfolding fs_ok_def using distinct new dirs fs_ok_fresh [OF ok] by auto
qed

lemma rename_file_names:
  assumes ok: "fs_ok s" and src: "map_of (names s) src = Some i" "\<not> is_dir s src"
    and dst: "map_of (names s) dst \<noteq> Some i" "\<not> is_dir s dst"
    and par: "dst \<noteq> []" "is_dir s (butlast dst)"
  shows "map_of (names (rename_entry src dst s)) q =
    (if q = dst then Some i else if q = src then None else map_of (names s) q)"
    and "fs_ok (rename_entry src dst s)"
proof -
  have ne: "src \<noteq> dst" using src dst by auto
  have leaf_src: "map_of (names s) (src @ r) = None" if "r \<noteq> []" for r
    using no_descendants [OF ok src(2) that] .
  have leaf_dst: "map_of (names s) (dst @ r) = None" if "r \<noteq> []" for r
    using no_descendants [OF ok dst(2) that] .
  have diff: "map_of (names s) src \<noteq> map_of (names s) dst" using src dst by simp
  have apart2: "\<not> prefix dst src"
  proof
    assume "prefix dst src"
    then obtain r where "src = dst @ r" by (auto simp: prefix_def)
    with ne src(1) leaf_dst [of r] show False by (cases "r = []") auto
  qed
  have apart1: "\<not> prefix src dst"
  proof
    assume "prefix src dst"
    then obtain r where r: "dst = src @ r" "r \<noteq> []" using ne by (auto simp: prefix_def)
    with par(2) have "is_dir s (src @ butlast r)" by (simp add: butlast_append)
    with src(2) leaf_src [of "butlast r"] show False
      by (cases "butlast r = []") (auto simp: is_dir_iff)
  qed
  show "map_of (names (rename_entry src dst s)) q =
    (if q = dst then Some i else if q = src then None else map_of (names s) q)"
  proof -
    note ren = map_of_rename_entry [OF ok diff apart1 apart2 leaf_dst, of q]
    show ?thesis
    proof (cases "prefix dst q")
      case True
      then obtain r where r: "q = dst @ r" by (auto simp: prefix_def)
      with apart2 have "q \<noteq> src" by auto
      with ren r src(1) leaf_src [of r] leaf_dst [of r] show ?thesis by (cases "r = []") auto
    next
      case False
      then have "q \<noteq> dst" by auto
      show ?thesis
      proof (cases "prefix src q")
        case True
        then obtain r where r: "q = src @ r" by (auto simp: prefix_def)
        with ren False True \<open>q \<noteq> dst\<close> leaf_src [of r] show ?thesis by (cases "r = []") auto
      next
        case False
        then have "q \<noteq> src" by auto
        with ren False \<open>\<not> prefix dst q\<close> \<open>q \<noteq> dst\<close> show ?thesis by simp
      qed
    qed
  qed
  show "fs_ok (rename_entry src dst s)"
    by (rule fs_ok_rename_entry [OF ok diff apart1 apart2 leaf_dst par])
qed

section \<open>Specifications that hold for every list of faults\<close>

text \<open>
  \<open>wp m Q E s\<close>: started in \<open>s\<close> with any faults, \<open>m\<close> either returns a value in a state
  described by \<open>Q\<close>, or stops with the injected I/O error in a state described by \<open>E\<close>, and
  the latter only if the list of faults is not empty.
\<close>

fun outcome_ok ::
  "('a \<Rightarrow> fs \<Rightarrow> bool) \<Rightarrow> (fs \<Rightarrow> bool) \<Rightarrow> fault list \<Rightarrow> ('a, stop) result \<times> world \<Rightarrow> bool" where
  "outcome_ok Q E fl (Ok x, (s, fl')) \<longleftrightarrow> Q x s \<and> (fl = [] \<longrightarrow> fl' = [])"
| "outcome_ok Q E fl (Err e, (s, fl')) \<longleftrightarrow> E s \<and> fl \<noteq> [] \<and> e = Fails (Io DeviceError)"

definition wp :: "'a io \<Rightarrow> ('a \<Rightarrow> fs \<Rightarrow> bool) \<Rightarrow> (fs \<Rightarrow> bool) \<Rightarrow> fs \<Rightarrow> bool" where
  "wp m Q E s \<longleftrightarrow> (\<forall>fl. outcome_ok Q E fl (m (s, fl)))"

named_theorems wp_rules \<open>backward rules for specifications\<close>

lemma wpD: "wp m Q E s \<Longrightarrow> outcome_ok Q E fl (m (s, fl))"
  by (simp add: wp_def)

lemma outcome_mono:
  "outcome_ok Q E fl r \<Longrightarrow> (\<And>x s'. Q x s' \<Longrightarrow> Q' x s') \<Longrightarrow> (\<And>s'. E s' \<Longrightarrow> E' s') \<Longrightarrow>
   (fl' = [] \<Longrightarrow> fl = []) \<Longrightarrow> outcome_ok Q' E' fl' r"
  by (cases "(Q, E, fl, r)" rule: outcome_ok.cases) auto

lemma wp_ret [wp_rules]: "Q x s \<Longrightarrow> wp (ret x) Q E s"
  by (simp add: wp_def ret_def)

lemma wp_then [wp_rules]:
  assumes "wp m (\<lambda>x. wp (f x) Q E) E s"
  shows "wp (io_then m f) Q E s"
  unfolding wp_def
proof
  fix fl
  obtain r s1 fl1 where m: "m (s, fl) = (r, (s1, fl1))"
    by (metis surj_pair)
  from wpD [OF assms, of fl] m have *: "outcome_ok (\<lambda>x. wp (f x) Q E) E fl (r, (s1, fl1))"
    by simp
  show "outcome_ok Q E fl (io_then m f (s, fl))"
  proof (cases r)
    case (Ok x)
    with * have "outcome_ok Q E fl1 (f x (s1, fl1))" "fl = [] \<longrightarrow> fl1 = []"
      by (simp_all add: wpD)
    then show ?thesis
      using m Ok by (auto simp: io_then_def elim!: outcome_mono)
  next
    case (Err e)
    with * m show ?thesis by (simp add: io_then_def)
  qed
qed

lemma wp_conseq:
  "wp m Q E s \<Longrightarrow> (\<And>x s'. Q x s' \<Longrightarrow> Q' x s') \<Longrightarrow> (\<And>s'. E s' \<Longrightarrow> E' s') \<Longrightarrow> wp m Q' E' s"
  unfolding wp_def by (blast intro: outcome_mono)

lemma wp_call:
  "f s = (Ok x, s') \<Longrightarrow> Q x s' \<Longrightarrow> E s \<Longrightarrow> wp (try_sys (faulty f)) Q E s"
  by (auto simp: wp_def try_sys_def faulty_with_def split: list.splits option.splits)

lemma wp_match:
  assumes f: "f s = (r, s')" and g: "wp (g r) Q E s'" and E: "E s" "g (Err e) = fail (Io DeviceError)"
  shows "wp (match_sys (faulty_with e f) g) Q E s"
  unfolding wp_def
proof
  fix fl :: "fault list"
  consider "fl = []" | n rest where "fl = Some n # rest" | rest where "fl = None # rest"
    by (metis list.exhaust not_Some_eq)
  then show "outcome_ok Q E fl (match_sys (faulty_with e f) g (s, fl))"
  proof cases
    case 1
    with f wpD [OF g, of "[]"] show ?thesis
      by (simp add: match_sys_def faulty_with_def)
  next
    case 2
    with E show ?thesis by (simp add: match_sys_def faulty_with_def stop_with_def)
  next
    case 3
    with f wpD [OF g, of rest] show ?thesis
      by (auto simp: match_sys_def faulty_with_def elim!: outcome_mono)
  qed
qed

lemma wp_each:
  assumes step: "\<And>x ys zs s. xs = ys @ x # zs \<Longrightarrow> J ys s \<Longrightarrow> wp (f x) (\<lambda>_. J (ys @ [x])) E s"
    and init: "J [] s"
  shows "wp (io_each f xs) (\<lambda>_. J xs) E s"
proof -
  have "wp (io_each f zs) (\<lambda>_. J xs) E s" if "xs = ys @ zs" "J ys s" for ys zs s
    using that
  proof (induction zs arbitrary: ys s)
    case Nil
    then show ?case by (auto intro: wp_rules)
  next
    case (Cons z zs)
    have "wp (f z) (\<lambda>_. J (ys @ [z])) E s"
      using step [OF Cons.prems(1) Cons.prems(2)] .
    then have "wp (f z) (\<lambda>_. wp (io_each f zs) (\<lambda>_. J xs) E) E s"
      by (rule wp_conseq) (use Cons.IH [of "ys @ [z]"] Cons.prems in auto)
    then show ?case by (auto intro: wp_rules)
  qed
  from this [of "[]" xs] init show ?thesis by simp
qed

subsection \<open>System calls\<close>

lemma wp_symlink_metadata [wp_rules]:
  "lookup s p = Some n \<Longrightarrow> Q n s \<Longrightarrow> E s \<Longrightarrow> wp (try_sys (symlink_metadata p)) Q E s"
  unfolding symlink_metadata_def by (rule wp_call) simp_all

lemma resolve_plain:
  "map_of (names s) p = Some i \<Longrightarrow> inodes s i = Some n \<Longrightarrow> (\<forall>t. ftype n \<noteq> Symlink t) \<Longrightarrow>
   resolve MAX_SYMLINKS s p = Ok i"
  unfolding MAX_SYMLINKS_def
  by (cases "ftype n") (simp_all add: numeral_eq_Suc)

lemma wp_file_open [wp_rules]:
  "map_of (names s) p = Some i \<Longrightarrow> inodes s i = Some n \<Longrightarrow> (\<forall>t. ftype n \<noteq> Symlink t) \<Longrightarrow>
   Q i s \<Longrightarrow> E s \<Longrightarrow> wp (try_sys (file_open p)) Q E s"
  unfolding file_open_def by (rule wp_call) (simp_all add: resolve_plain)

lemma wp_sync_all [wp_rules]: "Q () s \<Longrightarrow> E s \<Longrightarrow> wp (try_sys (sync_all i)) Q E s"
  unfolding sync_all_def by (rule wp_call) simp_all

lemma wp_seek_start [wp_rules]: "Q () s \<Longrightarrow> E s \<Longrightarrow> wp (try_sys (seek_start i n)) Q E s"
  unfolding seek_start_def by (rule wp_call) simp_all

lemma wp_fstat [wp_rules]:
  "inodes s i = Some n \<Longrightarrow> Q n s \<Longrightarrow> E s \<Longrightarrow> wp (try_sys (fstat i)) Q E s"
  unfolding fstat_def by (rule wp_call) simp_all

lemma wp_read_all [wp_rules]:
  "inodes s i = Some n \<Longrightarrow> ftype n = Regular c \<Longrightarrow> Q (contents c) s \<Longrightarrow> E s \<Longrightarrow>
   wp (try_sys (read_all i)) Q E s"
  unfolding read_all_def by (rule wp_call) simp_all

lemma wp_read_dir [wp_rules]:
  "is_dir s p \<Longrightarrow> Q (children s p) s \<Longrightarrow> E s \<Longrightarrow> wp (try_sys (read_dir p)) Q E s"
  unfolding read_dir_def by (rule wp_call) (auto simp: is_dir_def)

lemma wp_open_create_new [wp_rules]:
  "p \<noteq> [] \<Longrightarrow> is_dir s (butlast p) \<Longrightarrow> map_of (names s) p = None \<Longrightarrow>
   Q (next_ino s) (add_entry p \<lparr>ftype = Regular [], perm = m AND NOT (umask s), owner_uid = euid s\<rparr> s) \<Longrightarrow>
   E s \<Longrightarrow> wp (try_sys (open_create_new p m)) Q E s"
  unfolding open_create_new_def by (rule wp_call) (auto simp: is_dir_def parent_check_def)

lemma wp_fchmod [wp_rules]:
  "inodes s i = Some n \<Longrightarrow> Q () (set_inode i (n\<lparr>perm := m\<rparr>) s) \<Longrightarrow> E s \<Longrightarrow>
   wp (try_sys (fchmod i m)) Q E s"
  unfolding fchmod_def by (rule wp_call) simp_all

lemma wp_set_len [wp_rules]:
  "inodes s i = Some n \<Longrightarrow> ftype n = Regular c \<Longrightarrow>
   Q () (touch i (set_inode i (n\<lparr>ftype := Regular (resize m c)\<rparr>) s)) \<Longrightarrow> E s \<Longrightarrow>
   wp (try_sys (set_len i m)) Q E s"
  unfolding set_len_def by (rule wp_call) (simp_all add: change_file_def)

lemma wp_write_all [wp_rules]:
  assumes i: "inodes s i = Some n" "ftype n = Regular c"
    and Q: "Q () (touch i (set_inode i (n\<lparr>ftype := Regular (write_cells pos bs c)\<rparr>) s))"
    and E: "\<And>k. E (touch i (set_inode i (n\<lparr>ftype := Regular (write_cells pos (take k bs) c)\<rparr>) s))"
  shows "wp (try_sys (write_all i pos bs)) Q E s"
  using assms
  by (auto simp: wp_def try_sys_def write_all_def change_file_def split: list.splits option.splits)

lemma wp_remove_file [wp_rules]:
  "lookup s p = Some n \<Longrightarrow> ftype n \<noteq> Directory \<Longrightarrow> Q () (remove_entry p s) \<Longrightarrow> E s \<Longrightarrow>
   wp (try_sys (remove_file p)) Q E s"
  unfolding remove_file_def by (rule wp_call) simp_all

lemma wp_rename [wp_rules]:
  "rename_check s src dst = Ok () \<Longrightarrow> Q () (rename_entry src dst s) \<Longrightarrow> E s \<Longrightarrow>
   wp (try_sys (rename src dst)) Q E s"
  unfolding rename_def by (rule wp_call) simp_all

lemma rename_check_file:
  "lookup s src = Some n \<Longrightarrow> ftype n \<noteq> Directory \<Longrightarrow> dst \<noteq> [] \<Longrightarrow> is_dir s (butlast dst) \<Longrightarrow>
   \<not> is_dir s dst \<Longrightarrow> rename_check s src dst = Ok ()"
  by (auto simp: rename_check_def parent_check_def is_dir_def split: option.splits)

end
