(* ===== verification/Storage_Layout.thy ===== *)
theory Storage_Layout
  imports Posix_Spec Domain
begin

text \<open>
  The crate \<open>filebelt-storage\<close> (\<open>source/crates/filebelt-storage/src/lib.rs\<close>): the UUID-only
  directory layout, the verification of what is found on disk, and the publication, finalization,
  download, quarantine, deletion and cleanup of objects.

  Paths are lists of components and the layout is its root. The digest function (\<open>blake3\<close>),
  the \<open>uuid\<close> crate and the sparse-file calls of \<open>rustix\<close> are the fields of a record. A
  \<open>u64\<close> is a natural number whose checked and saturating operations are written out; the
  incremental hasher is the list of bytes fed to it so far. A freshly drawn random identifier is
  an argument of the operation that draws it, and so is the current time.
\<close>

section \<open>Libraries and records\<close>

datatype FallocateFlags = NoFlags | PunchHoleKeepSize

record storage_lib =
  ids :: uuid_lib
  uuid_simple :: "uuid \<Rightarrow> string"
  blake3 :: "bytes \<Rightarrow> bytes"
  seek_data :: "sparse \<Rightarrow> nat \<Rightarrow> (nat, Errno) result"
  seek_hole :: "sparse \<Rightarrow> nat \<Rightarrow> (nat, Errno) result"
  fallocate :: "FallocateFlags \<Rightarrow> nat \<Rightarrow> nat \<Rightarrow> sparse \<Rightarrow> (sparse, Errno) result"
  allocated_blocks :: "sparse \<Rightarrow> nat"

abbreviation uuid_text :: "storage_lib \<Rightarrow> uuid \<Rightarrow> string" where
  "uuid_text L u \<equiv> uuid_hyphenated (ids L) u"

definition U64_MAX :: nat where
  "U64_MAX = 2 ^ 64 - 1"

definition u64_checked_add :: "nat \<Rightarrow> nat \<Rightarrow> nat option" where
  "u64_checked_add a b = (if a + b \<le> U64_MAX then Some (a + b) else None)"

definition u64_checked_mul :: "nat \<Rightarrow> nat \<Rightarrow> nat option" where
  "u64_checked_mul a b = (if a * b \<le> U64_MAX then Some (a * b) else None)"

definition u64_saturating_add :: "nat \<Rightarrow> nat \<Rightarrow> nat" where
  "u64_saturating_add a b = min (a + b) U64_MAX"

definition u64_try_from :: "'a::len word \<Rightarrow> nat option" where
  "u64_try_from v = (if sint v < 0 then None else Some (nat (sint v)))"

record UploadRecord =
  up_tenant_id :: uuid
  up_upload_id :: uuid
  up_drive_id :: uuid
  up_node_id :: "uuid option"
  up_parent_id :: uuid
  up_owner_principal_id :: uuid
  up_payload_id :: uuid
  up_backend_id :: uuid
  up_payload_locator :: uuid
  up_expected_head_version_id :: "uuid option"
  up_target_display_name :: string
  up_target_name_key :: string
  up_declared_size_bytes :: i64
  up_chunk_size_bytes :: i32
  up_part_count :: i32
  up_fencing_token :: i64
  up_state :: string
  up_declared_media_type :: "string option"
  up_collaboration_checkpoint_id :: "uuid option"
  up_import_intent_id :: "uuid option"

record UploadPartRecord =
  part_number :: i32
  part_locator :: uuid
  part_state :: string
  part_size_bytes :: i32
  part_blake3 :: "bytes option"

record PayloadRecord =
  pay_tenant_id :: uuid
  pay_payload_id :: uuid
  pay_drive_id :: uuid
  pay_backend_id :: uuid
  pay_locator :: uuid
  pay_layout :: string
  pay_state :: string
  pay_size_bytes :: i64
  pay_blake3 :: "bytes option"

record RevisionChunkLocator =
  loc_drive_id :: uuid
  loc_digest :: bytes
  loc_size :: nat

record FinalizedObject =
  fin_digest :: bytes
  fin_size :: nat

record TemporaryCleanupReport =
  writing_removed :: nat
  finalizing_removed :: nat

record DownloadSegment =
  seg_path :: path
  seg_offset :: nat
  seg_length :: nat

record CowBaseChunk =
  base_chunk_number :: nat
  base_size :: nat
  base_digest :: bytes

datatype PathKind = Missing | Present

datatype TemporaryKind = Writing | Finalizing

type_synonym StorageLayout = path

definition DIRECTORY_MODE :: u32 where
  "DIRECTORY_MODE = 0x1C0"

definition FILE_MODE :: u32 where
  "FILE_MODE = 0x180"

definition REVISION_CHUNK_SIZE_BYTES :: nat where
  "REVISION_CHUNK_SIZE_BYTES = 16 * 1024 * 1024"

definition revision_chunk_locator_new ::
  "uuid \<Rightarrow> bytes \<Rightarrow> nat \<Rightarrow> (RevisionChunkLocator, StorageError) result" where
  "revision_chunk_locator_new drive digest sz =
     (if drive = 0 \<or> sz = 0 \<or> sz > REVISION_CHUNK_SIZE_BYTES then Err StateConflict
      else Ok \<lparr>loc_drive_id = drive, loc_digest = digest, loc_size = sz\<rparr>)"

definition total_removed :: "TemporaryCleanupReport \<Rightarrow> nat" where
  "total_removed r = writing_removed r + finalizing_removed r"

section \<open>Names\<close>

definition zero_pad :: "nat \<Rightarrow> string \<Rightarrow> string" where
  "zero_pad w s = replicate (w - length s) (CHR ''0'') @ s"

definition part_file_name :: "i32 \<Rightarrow> string" where
  "part_file_name n =
     (if sint n < 0 then CHR ''-'' # zero_pad 7 (decimal (nat (- sint n)))
      else zero_pad 8 (decimal (nat (sint n)))) @ ''.part''"

definition hex_digit :: "nat \<Rightarrow> char" where
  "hex_digit n = ''0123456789abcdef'' ! n"

definition hex_byte :: "char \<Rightarrow> string" where
  "hex_byte c = [hex_digit (byte c div 16), hex_digit (byte c mod 16)]"

definition revision_chunk_file_name :: "RevisionChunkLocator \<Rightarrow> string" where
  "revision_chunk_file_name l =
     concat (map hex_byte (loc_digest l)) @ ''-'' @ decimal (loc_size l) @ ''.chunk''"

definition is_shard_name :: "string \<Rightarrow> bool" where
  "is_shard_name name \<longleftrightarrow>
     utf8_valid name \<and> length name = 2
     \<and> list_all (\<lambda>c. is_ascii_digit c \<or> byte (CHR ''a'') \<le> byte c \<and> byte c \<le> byte (CHR ''f'')) name"

definition is_canonical_uuid :: "storage_lib \<Rightarrow> string \<Rightarrow> bool" where
  "is_canonical_uuid L value =
     (case uuid_parse_str (ids L) value of
        Some parsed \<Rightarrow> uuid_text L parsed = value
      | None \<Rightarrow> False)"

definition is_writing_temporary :: "storage_lib \<Rightarrow> string \<Rightarrow> bool" where
  "is_writing_temporary L name =
     (case strip_suffix_str ''.writing'' name of
        None \<Rightarrow> False
      | Some without_suffix \<Rightarrow>
          (case split_on (CHR ''.'') without_suffix of
             [locator, operation] \<Rightarrow> is_canonical_uuid L locator \<and> is_canonical_uuid L operation
           | _ \<Rightarrow> False))"

definition is_finalizing_temporary :: "storage_lib \<Rightarrow> string \<Rightarrow> bool" where
  "is_finalizing_temporary L name =
     (case Option.bind (strip_prefix ''.'' name) (strip_suffix_str ''.finalizing'') of
        None \<Rightarrow> False
      | Some without_suffix \<Rightarrow>
          (case split_on (CHR ''.'') without_suffix of
             [operation] \<Rightarrow> is_canonical_uuid L operation
           | [locator, operation] \<Rightarrow> is_canonical_uuid L locator \<and> is_canonical_uuid L operation
           | _ \<Rightarrow> False))"

definition is_part_file_name :: "string \<Rightarrow> bool" where
  "is_part_file_name name \<longleftrightarrow>
     utf8_valid name
     \<and> (case strip_suffix_str ''.part'' name of
          None \<Rightarrow> False
        | Some number \<Rightarrow> length number = 8 \<and> list_all is_ascii_digit number)"

section \<open>Verified objects\<close>

definition parent :: "path \<Rightarrow> path io" where
  "parent p = (if p = [] then fail StateConflict else ret (butlast p))"

definition path_kind :: "path \<Rightarrow> PathKind io" where
  "path_kind p = match_sys (symlink_metadata p) (\<lambda>r.
     case r of
       Ok _ \<Rightarrow> ret Present
     | Err NotFound \<Rightarrow> ret Missing
     | Err e \<Rightarrow> fail (Io e))"

definition verify_directory :: "path \<Rightarrow> unit io" where
  "verify_directory p =
     io_then (try_sys (symlink_metadata p)) (\<lambda>m.
     if ftype m \<noteq> Directory \<or> perm m AND 0x1FF \<noteq> DIRECTORY_MODE then fail UnsafeObject
     else ret ())"

definition verify_same_owner :: "path \<Rightarrow> path \<Rightarrow> unit io" where
  "verify_same_owner p expected_owner_path =
     io_then (try_sys (symlink_metadata p)) (\<lambda>m.
     io_then (try_sys (symlink_metadata expected_owner_path)) (\<lambda>expected.
     if owner_uid m \<noteq> owner_uid expected then fail UnsafeObject else ret ()))"

definition verify_regular_file :: "path \<Rightarrow> unit io" where
  "verify_regular_file p =
     io_then (try_sys (symlink_metadata p)) (\<lambda>m.
     if \<not> is_file m \<or> perm m AND 0x1FF \<noteq> FILE_MODE then fail UnsafeObject
     else io_then (parent p) (verify_same_owner p))"

definition sync_directory :: "path \<Rightarrow> unit io" where
  "sync_directory p =
     io_then (verify_directory p) (\<lambda>_.
     io_then (try_sys (file_open p)) (\<lambda>i.
     try_sys (sync_all i)))"

definition create_new_file :: "path \<Rightarrow> ino io" where
  "create_new_file p =
     io_then (try_sys (open_create_new p FILE_MODE)) (\<lambda>i.
     io_then (try_sys (fchmod i FILE_MODE)) (\<lambda>_.
     ret i))"

definition create_secure_directory :: "path \<Rightarrow> unit io" where
  "create_secure_directory p = match_sys (symlink_metadata p) (\<lambda>r.
     case r of
       Ok _ \<Rightarrow> verify_directory p
     | Err NotFound \<Rightarrow>
         io_then (try_sys (mkdir p DIRECTORY_MODE)) (\<lambda>_.
         io_then (try_sys (chmod p DIRECTORY_MODE)) (\<lambda>_.
         io_then (verify_directory p) (\<lambda>_.
         io_then (sync_directory p) (\<lambda>_.
         if p = [] then ret ()
         else io_then (try_sys (file_open (butlast p))) (\<lambda>i. try_sys (sync_all i))))))
     | Err e \<Rightarrow> fail (Io e))"

definition verify_file :: "storage_lib \<Rightarrow> path \<Rightarrow> nat \<Rightarrow> bytes \<Rightarrow> unit io" where
  "verify_file L p expected_size expected_digest =
     io_then (verify_regular_file p) (\<lambda>_.
     io_then (try_sys (file_open p)) (\<lambda>i.
     io_then (try_sys (fstat i)) (\<lambda>m.
     if file_len m \<noteq> expected_size then fail CorruptObject
     else
       io_then (try_sys (read_all i)) (\<lambda>bytes.
       if blake3 L bytes \<noteq> expected_digest then fail CorruptObject else ret ()))))"

text \<open>The hasher and the total are threaded through.\<close>

definition hash_file :: "path \<Rightarrow> bytes \<Rightarrow> nat \<Rightarrow> (bytes \<times> nat) io" where
  "hash_file p hasher so_far =
     io_then (verify_regular_file p) (\<lambda>_.
     io_then (try_sys (file_open p)) (\<lambda>i.
     io_then (try_sys (read_all i)) (\<lambda>bytes.
     case u64_checked_add so_far (length bytes) of
       None \<Rightarrow> fail StateConflict
     | Some t \<Rightarrow> ret (hasher @ bytes, t))))"

definition digest_32 :: "StorageError \<Rightarrow> bytes option \<Rightarrow> (bytes, StorageError) result" where
  "digest_32 e d =
     and_then (ok_or d e) (\<lambda>digest. if length digest = 32 then Ok digest else Err e)"

definition verify_part :: "storage_lib \<Rightarrow> path \<Rightarrow> UploadPartRecord \<Rightarrow> unit io" where
  "verify_part L p part =
     io_then (lift_result (digest_32 StateConflict (part_blake3 part))) (\<lambda>expected_digest.
     io_then (lift_result (ok_or (u64_try_from (part_size_bytes part)) StateConflict)) (\<lambda>sz.
     verify_file L p sz expected_digest))"

definition verify_payload_container :: "path \<Rightarrow> PayloadRecord \<Rightarrow> unit io" where
  "verify_payload_container p payload =
     (if pay_layout payload = ''whole'' then verify_regular_file p
      else if pay_layout payload = ''chunked'' then
        io_then (verify_directory p) (\<lambda>_.
        io_then (parent p) (verify_same_owner p))
      else fail StateConflict)"

definition remove_empty_or_operation_directory :: "path \<Rightarrow> unit io" where
  "remove_empty_or_operation_directory p = match_sys (symlink_metadata p) (\<lambda>r.
     case r of
       Err NotFound \<Rightarrow> ret ()
     | Err e \<Rightarrow> fail (Io e)
     | Ok _ \<Rightarrow>
         io_then (verify_directory p) (\<lambda>_.
         io_then (try_sys (read_dir p)) (\<lambda>entries.
         io_then (io_each (\<lambda>name.
            if \<not> is_part_file_name name then fail UnsafeObject
            else
              io_then (verify_regular_file (p @ [name])) (\<lambda>_.
              try_sys (remove_file (p @ [name])))) entries) (\<lambda>_.
         try_sys (remove_dir p)))))"

section \<open>Directories of the layout\<close>

definition secure_child :: "path \<Rightarrow> string \<Rightarrow> path io" where
  "secure_child base name =
     io_then (create_secure_directory (base @ [name])) (\<lambda>_.
     io_then (verify_same_owner (base @ [name]) base) (\<lambda>_.
     ret (base @ [name])))"

definition prepare :: "StorageLayout \<Rightarrow> unit io" where
  "prepare root =
     io_then (create_secure_directory root) (\<lambda>_.
     io_each (\<lambda>name. io_then (secure_child root name) (\<lambda>_. ret ()))
       [''whole'', ''chunks'', ''staging'', ''quarantine'', ''revision-chunks'',
        ''revision-quarantine''])"

definition shard_directory :: "storage_lib \<Rightarrow> StorageLayout \<Rightarrow> string \<Rightarrow> uuid \<Rightarrow> path io" where
  "shard_directory L root area locator =
     (let hexadecimal = uuid_simple L locator in
      io_then (secure_child root area) (\<lambda>area_path.
      io_then (secure_child area_path (take 2 hexadecimal)) (\<lambda>first_path.
      secure_child first_path (take 2 (drop 2 hexadecimal)))))"

definition revision_chunk_directory ::
  "storage_lib \<Rightarrow> StorageLayout \<Rightarrow> string \<Rightarrow> uuid \<Rightarrow> bytes \<Rightarrow> path io" where
  "revision_chunk_directory L root area drive digest =
     (if drive = 0 then fail StateConflict
      else
        io_then (secure_child root area) (\<lambda>area_path.
        io_then (secure_child area_path (uuid_text L drive)) (\<lambda>drive_path.
        secure_child drive_path (hex_byte (hd digest)))))"

definition staging_part_path :: "storage_lib \<Rightarrow> StorageLayout \<Rightarrow> uuid \<Rightarrow> path io" where
  "staging_part_path L root locator =
     io_then (shard_directory L root ''staging'' locator) (\<lambda>d.
     ret (d @ [uuid_text L locator @ ''.part'']))"

definition staging_temporary_path ::
  "storage_lib \<Rightarrow> StorageLayout \<Rightarrow> uuid \<Rightarrow> uuid \<Rightarrow> path io" where
  "staging_temporary_path L root locator operation =
     io_then (shard_directory L root ''staging'' locator) (\<lambda>d.
     ret (d @ [uuid_text L locator @ ''.'' @ uuid_text L operation @ ''.writing'']))"

definition revision_chunk_staging_path ::
  "storage_lib \<Rightarrow> StorageLayout \<Rightarrow> uuid \<Rightarrow> uuid \<Rightarrow> path io" where
  "revision_chunk_staging_path L root drive operation =
     (if drive = 0 \<or> operation = 0 then fail StateConflict
      else
        io_then (shard_directory L root ''staging'' operation) (\<lambda>d.
        ret (d @ [''revision-'' @ uuid_text L drive @ ''-'' @ uuid_text L operation @ ''.writing''])))"

definition revision_chunk_path ::
  "storage_lib \<Rightarrow> StorageLayout \<Rightarrow> RevisionChunkLocator \<Rightarrow> path io" where
  "revision_chunk_path L root locator =
     io_then (revision_chunk_directory L root ''revision-chunks'' (loc_drive_id locator)
                (loc_digest locator)) (\<lambda>d.
     ret (d @ [revision_chunk_file_name locator]))"

definition payload_path :: "storage_lib \<Rightarrow> StorageLayout \<Rightarrow> PayloadRecord \<Rightarrow> path io" where
  "payload_path L root payload =
     io_then
       (if pay_layout payload = ''whole'' then ret ''whole''
        else if pay_layout payload = ''chunked'' then ret ''chunks''
        else fail StateConflict) (\<lambda>area.
     io_then (shard_directory L root area (pay_locator payload)) (\<lambda>d.
     ret (d @ [uuid_text L (pay_locator payload)])))"

section \<open>Immutable revision chunks\<close>

text \<open>
  \<open>match fs::hard_link(source, destination)\<close> with the arms shared by the publications: a new
  link is synced, an existing object is handed to \<open>existing\<close>.
\<close>

definition link_or :: "path \<Rightarrow> path \<Rightarrow> unit io \<Rightarrow> unit io" where
  "link_or source destination existing = match_sys (hard_link source destination) (\<lambda>r.
     case r of
       Ok _ \<Rightarrow> io_then (parent destination) sync_directory
     | Err AlreadyExists \<Rightarrow> existing
     | Err e \<Rightarrow> fail (Io e))"

definition publish_revision_chunk ::
  "storage_lib \<Rightarrow> StorageLayout \<Rightarrow> path \<Rightarrow> RevisionChunkLocator \<Rightarrow> path io" where
  "publish_revision_chunk L root temporary locator =
     io_then (verify_file L temporary (loc_size locator) (loc_digest locator)) (\<lambda>_.
     io_then (revision_chunk_path L root locator) (\<lambda>destination.
     io_then (link_or temporary destination
                (verify_file L destination (loc_size locator) (loc_digest locator))) (\<lambda>_.
     io_then (verify_file L destination (loc_size locator) (loc_digest locator)) (\<lambda>_.
     io_then (try_sys (remove_file temporary)) (\<lambda>_.
     io_then (io_then (parent temporary) sync_directory) (\<lambda>_.
     ret destination))))))"

definition verified_revision_chunk_segment ::
  "storage_lib \<Rightarrow> StorageLayout \<Rightarrow> RevisionChunkLocator \<Rightarrow> nat \<Rightarrow> nat \<Rightarrow> DownloadSegment io" where
  "verified_revision_chunk_segment L root locator start end_inclusive =
     (if start > end_inclusive \<or> end_inclusive \<ge> loc_size locator then fail StateConflict
      else
        io_then (revision_chunk_path L root locator) (\<lambda>p.
        io_then (verify_file L p (loc_size locator) (loc_digest locator)) (\<lambda>_.
        ret \<lparr>seg_path = p, seg_offset = start, seg_length = end_inclusive - start + 1\<rparr>)))"

definition rename_or_moved :: "path \<Rightarrow> path \<Rightarrow> unit io \<Rightarrow> unit io \<Rightarrow> unit io" where
  "rename_or_moved source destination after_move moved_meanwhile =
     match_sys (rename source destination) (\<lambda>r.
     case r of
       Ok _ \<Rightarrow> after_move
     | Err NotFound \<Rightarrow>
         io_then (path_kind source) (\<lambda>k.
         if k \<noteq> Missing then fail (Io NotFound)
         else
           io_then (path_kind destination) (\<lambda>k'.
           if k' \<noteq> Present then fail (Io NotFound) else moved_meanwhile))
     | Err e \<Rightarrow> fail (Io e))"

definition quarantine_revision_chunk ::
  "storage_lib \<Rightarrow> StorageLayout \<Rightarrow> RevisionChunkLocator \<Rightarrow> uuid \<Rightarrow> path io" where
  "quarantine_revision_chunk L root locator operation =
     (if operation = 0 then fail StateConflict
      else
        io_then (revision_chunk_path L root locator) (\<lambda>source.
        io_then (revision_chunk_directory L root ''revision-quarantine'' (loc_drive_id locator)
                   (loc_digest locator)) (\<lambda>d.
        let destination = d @ [revision_chunk_file_name locator @ ''.'' @ uuid_text L operation
                                 @ ''.quarantine''] in
        io_then (path_kind source) (\<lambda>source_kind.
        io_then (path_kind destination) (\<lambda>destination_kind.
        case (source_kind, destination_kind) of
          (Missing, Present) \<Rightarrow>
            io_then (verify_file L destination (loc_size locator) (loc_digest locator)) (\<lambda>_.
            ret destination)
        | (Missing, Missing) \<Rightarrow> ret destination
        | (Present, Present) \<Rightarrow> fail StateConflict
        | (Present, Missing) \<Rightarrow>
            io_then (verify_file L source (loc_size locator) (loc_digest locator)) (\<lambda>_.
            io_then (rename_or_moved source destination (ret ()) (ret ())) (\<lambda>_.
            io_then (verify_file L destination (loc_size locator) (loc_digest locator)) (\<lambda>_.
            io_then (io_then (parent source) sync_directory) (\<lambda>_.
            io_then (io_then (parent destination) sync_directory) (\<lambda>_.
            ret destination))))))))))"

definition delete_revision_chunk ::
  "storage_lib \<Rightarrow> StorageLayout \<Rightarrow> RevisionChunkLocator \<Rightarrow> uuid \<Rightarrow> unit io" where
  "delete_revision_chunk L root locator operation =
     io_then (quarantine_revision_chunk L root locator operation) (\<lambda>quarantined.
     match_sys (symlink_metadata quarantined) (\<lambda>r.
     case r of
       Ok _ \<Rightarrow>
         io_then (verify_file L quarantined (loc_size locator) (loc_digest locator)) (\<lambda>_.
         io_then (try_sys (remove_file quarantined)) (\<lambda>_.
         io_then (parent quarantined) sync_directory))
     | Err NotFound \<Rightarrow> ret ()
     | Err e \<Rightarrow> fail (Io e)))"

section \<open>Uploads\<close>

definition publish_staging_part ::
  "storage_lib \<Rightarrow> StorageLayout \<Rightarrow> path \<Rightarrow> uuid \<Rightarrow> nat \<Rightarrow> bytes \<Rightarrow> path io" where
  "publish_staging_part L root temporary locator expected_size expected_digest =
     io_then (verify_regular_file temporary) (\<lambda>_.
     io_then (staging_part_path L root locator) (\<lambda>destination.
     io_then (link_or temporary destination
                (verify_file L destination expected_size expected_digest)) (\<lambda>_.
     io_then (try_sys (remove_file temporary)) (\<lambda>_.
     io_then (io_then (parent destination) sync_directory) (\<lambda>_.
     io_then (verify_file L destination expected_size expected_digest) (\<lambda>_.
     ret destination))))))"

definition manifest_conflict :: "UploadRecord \<Rightarrow> PayloadRecord \<Rightarrow> UploadPartRecord list \<Rightarrow> bool" where
  "manifest_conflict upload payload parts \<longleftrightarrow>
     up_tenant_id upload \<noteq> pay_tenant_id payload
     \<or> up_drive_id upload \<noteq> pay_drive_id payload
     \<or> up_backend_id upload \<noteq> pay_backend_id payload
     \<or> up_payload_id upload \<noteq> pay_payload_id payload
     \<or> up_payload_locator upload \<noteq> pay_locator payload
     \<or> u64_try_from (up_part_count upload) \<noteq> Some (length parts)
     \<or> list_ex (\<lambda>part. part_state part \<noteq> ''durable''
                  \<or> (case part_blake3 part of None \<Rightarrow> True | Some d \<Rightarrow> length d \<noteq> 32)) parts
     \<or> pay_layout payload = ''whole'' \<and> length parts \<noteq> 1
     \<or> pay_layout payload = ''chunked'' \<and> length parts < 2
     \<or> list_ex (\<lambda>(index, part). u64_try_from (part_number part) \<noteq> Some index)
         (enumerate 0 parts)"

definition validate_manifest ::
  "UploadRecord \<Rightarrow> PayloadRecord \<Rightarrow> UploadPartRecord list \<Rightarrow> (unit, StorageError) result" where
  "validate_manifest upload payload parts =
     (if manifest_conflict upload payload parts then Err StateConflict else Ok ())"

text \<open>Indexing \<open>parts[0]\<close> panics on an empty slice.\<close>

definition first_part :: "UploadPartRecord list \<Rightarrow> UploadPartRecord io" where
  "first_part parts = (case parts of [] \<Rightarrow> stop_with Panicking | part # _ \<Rightarrow> ret part)"

fun read_parts :: "path \<Rightarrow> UploadPartRecord list \<Rightarrow> bytes io" where
  "read_parts final_path [] = ret []"
| "read_parts final_path (part # parts) =
     io_then (try_sys (file_open (final_path @ [part_file_name (part_number part)]))) (\<lambda>i.
     io_then (try_sys (read_all i)) (\<lambda>bytes.
     io_then (read_parts final_path parts) (\<lambda>rest.
     ret (bytes @ rest))))"

definition markdown_ok :: "bytes \<Rightarrow> bool" where
  "markdown_ok bytes =
     (let content = (case strip_prefix [CHR 0xEF, CHR 0xBB, CHR 0xBF] bytes of
                       Some r \<Rightarrow> r
                     | None \<Rightarrow> bytes) in
      CHR 0x00 \<notin> set content \<and> utf8_valid content)"

definition validate_markdown_payload ::
  "path \<Rightarrow> PayloadRecord \<Rightarrow> UploadPartRecord list \<Rightarrow> unit io" where
  "validate_markdown_payload final_path payload parts =
     (case u64_try_from (pay_size_bytes payload) of
        None \<Rightarrow> fail InvalidContent
      | Some capacity \<Rightarrow>
          if capacity > 2097152 then fail InvalidContent
          else
            io_then
              (if pay_layout payload = ''whole'' then
                 io_then (try_sys (file_open final_path)) (\<lambda>i. try_sys (read_all i))
               else if pay_layout payload = ''chunked'' then read_parts final_path parts
               else fail StateConflict) (\<lambda>bytes.
            if markdown_ok bytes then ret () else fail InvalidContent))"

fun hash_parts ::
  "storage_lib \<Rightarrow> path \<Rightarrow> UploadPartRecord list \<Rightarrow> bytes \<Rightarrow> nat \<Rightarrow> (bytes \<times> nat) io" where
  "hash_parts L final_path [] hasher so_far = ret (hasher, so_far)"
| "hash_parts L final_path (part # parts) hasher so_far =
     (let p = final_path @ [part_file_name (part_number part)] in
      io_then (verify_part L p part) (\<lambda>_.
      io_then (hash_file p hasher so_far) (\<lambda>(hasher', so_far').
      hash_parts L final_path parts hasher' so_far')))"

definition verify_finalized ::
  "storage_lib \<Rightarrow> StorageLayout \<Rightarrow> UploadRecord \<Rightarrow> PayloadRecord \<Rightarrow> UploadPartRecord list
     \<Rightarrow> FinalizedObject io" where
  "verify_finalized L root upload payload parts =
     io_then (lift_result (validate_manifest upload payload parts)) (\<lambda>_.
     io_then (payload_path L root payload) (\<lambda>final_path.
     io_then
       (if pay_layout payload = ''whole'' then hash_file final_path [] 0
        else if pay_layout payload = ''chunked'' then
          io_then (verify_directory final_path) (\<lambda>_.
          io_then (io_then (parent final_path) (verify_same_owner final_path)) (\<lambda>_.
          hash_parts L final_path parts [] 0))
        else fail StateConflict) (\<lambda>(hasher, sz).
     if u64_try_from (up_declared_size_bytes upload) = None then fail StateConflict
     else if u64_try_from (up_declared_size_bytes upload) \<noteq> Some sz then fail CorruptObject
     else
       io_then
         (if up_declared_media_type upload = Some ''text/markdown''
          then validate_markdown_payload final_path payload parts else ret ()) (\<lambda>_.
       ret \<lparr>fin_digest = blake3 L hasher, fin_size = sz\<rparr>))))"

text \<open>\<open>Path::exists\<close>: every error of \<open>metadata\<close> reads as absence.\<close>

definition path_exists :: "path \<Rightarrow> bool io" where
  "path_exists p = match_sys (metadata p) (\<lambda>r. ret (is_ok r))"

definition finalize ::
  "storage_lib \<Rightarrow> StorageLayout \<Rightarrow> UploadRecord \<Rightarrow> PayloadRecord \<Rightarrow> UploadPartRecord list \<Rightarrow> uuid
     \<Rightarrow> FinalizedObject io" where
  "finalize L root upload payload parts operation =
     io_then (lift_result (validate_manifest upload payload parts)) (\<lambda>_.
     io_then (payload_path L root payload) (\<lambda>final_path.
     io_then (path_exists final_path) (\<lambda>already.
     if already then verify_finalized L root upload payload parts
     else
       io_then
         (if pay_layout payload = ''whole'' then
            io_then (first_part parts) (\<lambda>part.
            io_then (staging_part_path L root (part_locator part)) (\<lambda>source.
            io_then (verify_part L source part) (\<lambda>_.
            link_or source final_path (ret ()))))
          else if pay_layout payload = ''chunked'' then
            io_then (parent final_path) (\<lambda>final_parent.
            let temporary = final_parent @ [''.'' @ uuid_text L (pay_locator payload) @ ''.''
                              @ uuid_text L operation @ ''.finalizing''] in
            io_then (create_secure_directory temporary) (\<lambda>_.
            io_then (verify_same_owner temporary final_parent) (\<lambda>_.
            io_then (io_each (\<lambda>part.
               io_then (staging_part_path L root (part_locator part)) (\<lambda>source.
               io_then (verify_part L source part) (\<lambda>_.
               try_sys (hard_link source (temporary @ [part_file_name (part_number part)]))))) parts) (\<lambda>_.
            io_then (sync_directory temporary) (\<lambda>_.
            match_sys (rename temporary final_path) (\<lambda>r.
            case r of
              Ok _ \<Rightarrow> sync_directory final_parent
            | Err e \<Rightarrow>
                io_then (path_exists final_path) (\<lambda>there.
                if there then remove_empty_or_operation_directory temporary
                else fail (Io e))))))))
          else fail StateConflict) (\<lambda>_.
       verify_finalized L root upload payload parts))))"

definition finalize_whole_object ::
  "storage_lib \<Rightarrow> StorageLayout \<Rightarrow> PayloadRecord \<Rightarrow> nat \<Rightarrow> bytes \<Rightarrow> FinalizedObject io" where
  "finalize_whole_object L root payload expected_size expected_digest =
     (if pay_layout payload \<noteq> ''whole'' then fail StateConflict
      else
        io_then (staging_part_path L root (pay_locator payload)) (\<lambda>source.
        io_then (verify_file L source expected_size expected_digest) (\<lambda>_.
        io_then (payload_path L root payload) (\<lambda>destination.
        io_then (link_or source destination
                   (verify_file L destination expected_size expected_digest)) (\<lambda>_.
        io_then (verify_file L destination expected_size expected_digest) (\<lambda>_.
        ret \<lparr>fin_digest = expected_digest, fin_size = expected_size\<rparr>))))))"

definition verify_staging_object ::
  "storage_lib \<Rightarrow> StorageLayout \<Rightarrow> uuid \<Rightarrow> nat \<Rightarrow> FinalizedObject io" where
  "verify_staging_object L root locator expected_size =
     io_then (staging_part_path L root locator) (\<lambda>p.
     io_then (verify_regular_file p) (\<lambda>_.
     io_then (hash_file p [] 0) (\<lambda>(hasher, sz).
     if sz \<noteq> expected_size then fail CorruptObject
     else ret \<lparr>fin_digest = blake3 L hasher, fin_size = sz\<rparr>)))"

section \<open>Downloads\<close>

text \<open>One segment of the loop: the overlap of the requested range with the part.\<close>

definition overlap_segment ::
  "path \<Rightarrow> nat \<Rightarrow> nat \<Rightarrow> nat \<Rightarrow> nat \<Rightarrow> DownloadSegment option" where
  "overlap_segment p start end_inclusive logical_offset part_end =
     (let overlap_start = max start logical_offset;
          overlap_end_exclusive = min (u64_saturating_add end_inclusive 1) part_end in
      if overlap_start < overlap_end_exclusive
      then Some \<lparr>seg_path = p, seg_offset = overlap_start - logical_offset,
                 seg_length = overlap_end_exclusive - overlap_start\<rparr>
      else None)"

definition segments_length :: "DownloadSegment list \<Rightarrow> nat" where
  "segments_length segments = sum_list (map seg_length segments)"

fun download_parts ::
  "storage_lib \<Rightarrow> path \<Rightarrow> nat \<Rightarrow> nat \<Rightarrow> UploadPartRecord list \<Rightarrow> nat \<Rightarrow> DownloadSegment list io" where
  "download_parts L final_path start end_inclusive [] logical_offset = ret []"
| "download_parts L final_path start end_inclusive (part # parts) logical_offset =
     (case u64_try_from (part_size_bytes part) of
        None \<Rightarrow> fail StateConflict
      | Some part_size \<Rightarrow>
          let part_end = u64_saturating_add logical_offset part_size;
              p = final_path @ [part_file_name (part_number part)] in
          io_then
            (case overlap_segment p start end_inclusive logical_offset part_end of
               None \<Rightarrow> ret []
             | Some segment \<Rightarrow> io_then (verify_part L p part) (\<lambda>_. ret [segment])) (\<lambda>here.
          io_then (download_parts L final_path start end_inclusive parts part_end) (\<lambda>rest.
          ret (here @ rest))))"

definition verified_download_segments ::
  "storage_lib \<Rightarrow> StorageLayout \<Rightarrow> UploadRecord \<Rightarrow> PayloadRecord \<Rightarrow> UploadPartRecord list \<Rightarrow> nat \<Rightarrow> nat
     \<Rightarrow> DownloadSegment list io" where
  "verified_download_segments L root upload payload parts start end_inclusive =
     io_then (lift_result (validate_manifest upload payload parts)) (\<lambda>_.
     io_then (payload_path L root payload) (\<lambda>final_path.
     if pay_size_bytes payload = 0 then
       io_then (first_part parts) (\<lambda>part.
       io_then (verify_part L final_path part) (\<lambda>_.
       ret []))
     else
       case u64_try_from (pay_size_bytes payload) of
         None \<Rightarrow> fail StateConflict
       | Some sz \<Rightarrow>
           if start > end_inclusive \<or> end_inclusive \<ge> sz then fail StateConflict
           else if pay_layout payload = ''whole'' then
             io_then (first_part parts) (\<lambda>part.
             io_then (verify_part L final_path part) (\<lambda>_.
             ret [\<lparr>seg_path = final_path, seg_offset = start,
                   seg_length = end_inclusive - start + 1\<rparr>]))
           else
             io_then (verify_directory final_path) (\<lambda>_.
             io_then (download_parts L final_path start end_inclusive parts 0) (\<lambda>segments.
             if segments_length segments \<noteq> end_inclusive - start + 1 then fail CorruptObject
             else ret segments))))"

definition verified_whole_object_segment ::
  "storage_lib \<Rightarrow> StorageLayout \<Rightarrow> PayloadRecord \<Rightarrow> nat \<Rightarrow> nat \<Rightarrow> DownloadSegment list io" where
  "verified_whole_object_segment L root payload start end_inclusive =
     (if pay_layout payload \<noteq> ''whole'' then fail StateConflict
      else
        io_then (lift_result (ok_or (u64_try_from (pay_size_bytes payload)) StateConflict)) (\<lambda>sz.
        io_then (lift_result (digest_32 StateConflict (pay_blake3 payload))) (\<lambda>digest.
        io_then (payload_path L root payload) (\<lambda>p.
        io_then (verify_file L p sz digest) (\<lambda>_.
        if sz = 0 then ret []
        else if start > end_inclusive \<or> end_inclusive \<ge> sz then fail StateConflict
        else ret [\<lparr>seg_path = p, seg_offset = start, seg_length = end_inclusive - start + 1\<rparr>])))))"

fun download_chunks ::
  "storage_lib \<Rightarrow> path \<Rightarrow> nat \<Rightarrow> nat \<Rightarrow> nat \<Rightarrow> nat \<Rightarrow> CowBaseChunk list \<Rightarrow> nat
     \<Rightarrow> (DownloadSegment list \<times> nat) io" where
  "download_chunks L directory sz start end_inclusive index [] logical_offset = ret ([], logical_offset)"
| "download_chunks L directory sz start end_inclusive index (chunk # chunks) logical_offset =
     (if base_chunk_number chunk \<noteq> index \<or> base_chunk_number chunk > 99999999 then fail CorruptObject
      else
        case u64_checked_add logical_offset (base_size chunk) of
          None \<Rightarrow> fail StateConflict
        | Some chunk_end \<Rightarrow>
            if base_size chunk = 0 \<or> chunk_end > sz then fail CorruptObject
            else
              let p = directory @ [zero_pad 8 (decimal (base_chunk_number chunk)) @ ''.part''] in
              io_then
                (case overlap_segment p start end_inclusive logical_offset chunk_end of
                   None \<Rightarrow> ret []
                 | Some segment \<Rightarrow>
                     io_then (verify_file L p (base_size chunk) (base_digest chunk)) (\<lambda>_.
                     ret [segment])) (\<lambda>here.
              io_then (download_chunks L directory sz start end_inclusive (index + 1) chunks chunk_end)
                (\<lambda>(rest, total_size). ret (here @ rest, total_size))))"

definition verified_chunked_object_segments ::
  "storage_lib \<Rightarrow> StorageLayout \<Rightarrow> PayloadRecord \<Rightarrow> CowBaseChunk list \<Rightarrow> nat \<Rightarrow> nat
     \<Rightarrow> DownloadSegment list io" where
  "verified_chunked_object_segments L root payload chunks start end_inclusive =
     (if pay_layout payload \<noteq> ''chunked'' then fail StateConflict
      else
        io_then (lift_result (ok_or (u64_try_from (pay_size_bytes payload)) StateConflict)) (\<lambda>sz.
        if sz = 0 then (if chunks = [] then ret [] else fail CorruptObject)
        else if start > end_inclusive \<or> end_inclusive \<ge> sz then fail StateConflict
        else
          io_then (payload_path L root payload) (\<lambda>directory.
          io_then (verify_directory directory) (\<lambda>_.
          io_then (download_chunks L directory sz start end_inclusive 0 chunks 0)
            (\<lambda>(segments, logical_offset).
          if logical_offset \<noteq> sz \<or> segments_length segments \<noteq> end_inclusive - start + 1
          then fail CorruptObject
          else ret segments)))))"

section \<open>Removal\<close>

definition remove_if_present :: "path \<Rightarrow> unit io" where
  "remove_if_present p = match_sys (symlink_metadata p) (\<lambda>r.
     case r of
       Ok _ \<Rightarrow>
         io_then (verify_regular_file p) (\<lambda>_.
         io_then (try_sys (remove_file p)) (\<lambda>_.
         io_then (parent p) sync_directory))
     | Err NotFound \<Rightarrow> ret ()
     | Err e \<Rightarrow> fail (Io e))"

definition remove_staging_locator :: "storage_lib \<Rightarrow> StorageLayout \<Rightarrow> uuid \<Rightarrow> unit io" where
  "remove_staging_locator L root locator =
     io_then (staging_part_path L root locator) remove_if_present"

definition remove_staging_parts ::
  "storage_lib \<Rightarrow> StorageLayout \<Rightarrow> UploadPartRecord list \<Rightarrow> unit io" where
  "remove_staging_parts L root parts =
     io_each (\<lambda>part. io_then (staging_part_path L root (part_locator part)) remove_if_present) parts"

definition delete_payload :: "storage_lib \<Rightarrow> StorageLayout \<Rightarrow> PayloadRecord \<Rightarrow> unit io" where
  "delete_payload L root payload =
     io_then (payload_path L root payload) (\<lambda>p.
     if pay_layout payload = ''whole'' then remove_if_present p
     else if pay_layout payload = ''chunked'' then
       match_sys (symlink_metadata p) (\<lambda>r.
       case r of
         Ok _ \<Rightarrow>
           io_then (verify_directory p) (\<lambda>_.
           io_then (try_sys (read_dir p)) (\<lambda>entries.
           io_then (io_each (\<lambda>name.
              io_then (verify_regular_file (p @ [name])) (\<lambda>_.
              try_sys (remove_file (p @ [name])))) entries) (\<lambda>_.
           io_then (try_sys (remove_dir p)) (\<lambda>_.
           io_then (parent p) sync_directory))))
       | Err NotFound \<Rightarrow> ret ()
       | Err e \<Rightarrow> fail (Io e))
     else fail StateConflict)"

definition quarantine_payload_with_after_move ::
  "storage_lib \<Rightarrow> StorageLayout \<Rightarrow> PayloadRecord \<Rightarrow> unit io \<Rightarrow> path io" where
  "quarantine_payload_with_after_move L root payload after_move =
     io_then (payload_path L root payload) (\<lambda>source.
     io_then (shard_directory L root ''quarantine'' (pay_locator payload)) (\<lambda>d.
     let destination = d @ [uuid_text L (pay_locator payload)];
         sync_both = io_then (io_then (parent source) sync_directory) (\<lambda>_.
                     io_then (parent destination) sync_directory) in
     io_then (path_kind source) (\<lambda>source_kind.
     io_then (path_kind destination) (\<lambda>destination_kind.
     case (source_kind, destination_kind) of
       (Missing, Present) \<Rightarrow>
         io_then (verify_payload_container destination payload) (\<lambda>_.
         io_then sync_both (\<lambda>_.
         ret destination))
     | (Missing, Missing) \<Rightarrow> ret destination
     | (Present, Present) \<Rightarrow> fail StateConflict
     | (Present, Missing) \<Rightarrow>
         io_then (verify_payload_container source payload) (\<lambda>_.
         io_then (rename_or_moved source destination after_move
                    (verify_payload_container destination payload)) (\<lambda>_.
         io_then sync_both (\<lambda>_.
         io_then (verify_payload_container destination payload) (\<lambda>_.
         ret destination))))))))"

definition quarantine_payload :: "storage_lib \<Rightarrow> StorageLayout \<Rightarrow> PayloadRecord \<Rightarrow> path io" where
  "quarantine_payload L root payload =
     quarantine_payload_with_after_move L root payload (ret ())"

section \<open>Cleanup of operation temporaries\<close>

definition temporary_kind :: "storage_lib \<Rightarrow> string \<Rightarrow> string \<Rightarrow> TemporaryKind option" where
  "temporary_kind L area name =
     (if area = ''staging'' \<and> is_writing_temporary L name then Some Writing
      else if area = ''chunks'' \<and> is_finalizing_temporary L name then Some Finalizing
      else None)"

definition modified_at :: "path \<Rightarrow> nat sys" where
  "modified_at p = faulty (\<lambda>s.
     (map_ok (modified s) (ok_or (map_of (names s) p) NotFound), s))"

text \<open>The result says whether the sweep goes on.\<close>

fun cleanup_entries ::
  "storage_lib \<Rightarrow> string \<Rightarrow> nat \<Rightarrow> nat \<Rightarrow> nat \<Rightarrow> path \<Rightarrow> string list \<Rightarrow> TemporaryCleanupReport
     \<Rightarrow> (TemporaryCleanupReport \<times> bool) io" where
  "cleanup_entries L area now minimum_age max_removals second_path [] report = ret (report, True)"
| "cleanup_entries L area now minimum_age max_removals second_path (name # entries) report =
     (if total_removed report \<ge> max_removals then ret (report, False)
      else if \<not> utf8_valid name then fail UnsafeObject
      else
        let p = second_path @ [name];
            continue_with = cleanup_entries L area now minimum_age max_removals second_path entries in
        case temporary_kind L area name of
          None \<Rightarrow> continue_with report
        | Some kind \<Rightarrow>
            io_then (try_sys (modified_at p)) (\<lambda>mtime.
            if now - mtime < minimum_age then continue_with report
            else
              case kind of
                Writing \<Rightarrow>
                  io_then (verify_regular_file p) (\<lambda>_.
                  io_then (try_sys (remove_file p)) (\<lambda>_.
                  io_then (sync_directory second_path) (\<lambda>_.
                  continue_with (report\<lparr>writing_removed := writing_removed report + 1\<rparr>))))
              | Finalizing \<Rightarrow>
                  io_then (remove_empty_or_operation_directory p) (\<lambda>_.
                  io_then (sync_directory second_path) (\<lambda>_.
                  continue_with (report\<lparr>finalizing_removed := finalizing_removed report + 1\<rparr>)))))"

fun sweep ::
  "path \<Rightarrow> (path \<Rightarrow> TemporaryCleanupReport \<Rightarrow> (TemporaryCleanupReport \<times> bool) io)
     \<Rightarrow> string list \<Rightarrow> TemporaryCleanupReport \<Rightarrow> (TemporaryCleanupReport \<times> bool) io" where
  "sweep base visit [] report = ret (report, True)"
| "sweep base visit (name # entries) report =
     (if \<not> is_shard_name name then fail UnsafeObject
      else
        io_then (verify_directory (base @ [name])) (\<lambda>_.
        io_then (verify_same_owner (base @ [name]) base) (\<lambda>_.
        io_then (visit (base @ [name]) report) (\<lambda>(report', go_on).
        if go_on then sweep base visit entries report' else ret (report', False)))))"

definition cleanup_sharded_area ::
  "storage_lib \<Rightarrow> StorageLayout \<Rightarrow> string \<Rightarrow> nat \<Rightarrow> nat \<Rightarrow> nat \<Rightarrow> TemporaryCleanupReport
     \<Rightarrow> TemporaryCleanupReport io" where
  "cleanup_sharded_area L root area now minimum_age max_removals report =
     (let area_path = root @ [area] in
      io_then (verify_directory area_path) (\<lambda>_.
      io_then (verify_same_owner area_path root) (\<lambda>_.
      io_then (try_sys (read_dir area_path)) (\<lambda>firsts.
      io_then
        (sweep area_path (\<lambda>first_path report.
           io_then (try_sys (read_dir first_path)) (\<lambda>seconds.
           sweep first_path (\<lambda>second_path report.
             io_then (try_sys (read_dir second_path)) (\<lambda>entries.
             cleanup_entries L area now minimum_age max_removals second_path entries report))
             seconds report)) firsts report) (\<lambda>(report', _).
      ret report')))))"

definition cleanup_operation_temporaries_at ::
  "storage_lib \<Rightarrow> StorageLayout \<Rightarrow> nat \<Rightarrow> nat \<Rightarrow> nat \<Rightarrow> TemporaryCleanupReport io" where
  "cleanup_operation_temporaries_at L root now minimum_age max_removals =
     io_then (prepare root) (\<lambda>_.
     let report = \<lparr>writing_removed = 0, finalizing_removed = 0\<rparr> in
     if max_removals = 0 then ret report
     else
       io_then (cleanup_sharded_area L root ''staging'' now minimum_age max_removals report) (\<lambda>report'.
       if total_removed report' < max_removals
       then cleanup_sharded_area L root ''chunks'' now minimum_age max_removals report'
       else ret report'))"

section \<open>Probing the filesystem\<close>

definition probe_blocking :: "storage_lib \<Rightarrow> StorageLayout \<Rightarrow> uuid \<Rightarrow> unit io" where
  "probe_blocking L root probe_id =
     io_then (prepare root) (\<lambda>_.
     io_then (shard_directory L root ''staging'' probe_id) (\<lambda>directory.
     let source = directory @ [uuid_text L probe_id @ ''.probe''];
         linked = directory @ [uuid_text L probe_id @ ''.linked''];
         destination = directory @ [uuid_text L probe_id @ ''.renamed''];
         symbolic = directory @ [uuid_text L probe_id @ ''.symlink''] in
     io_then (create_new_file source) (\<lambda>i.
     io_then (try_sys (write_all i 0 ''filebelt-storage-probe-v1'')) (\<lambda>_.
     io_then (try_sys (sync_all i)) (\<lambda>_.
     io_then (try_sys (hard_link source linked)) (\<lambda>_.
     io_then (verify_regular_file linked) (\<lambda>_.
     io_then (try_sys (remove_file linked)) (\<lambda>_.
     io_then (try_sys (rename source destination)) (\<lambda>_.
     io_then (sync_directory directory) (\<lambda>_.
     io_then (verify_regular_file destination) (\<lambda>_.
     io_then (try_sys (make_symlink destination symbolic)) (\<lambda>_.
     match_io (verify_regular_file symbolic) (\<lambda>r.
     if r \<noteq> Err UnsafeObject then fail UnsafeObject
     else
       io_then (try_sys (remove_file symbolic)) (\<lambda>_.
       io_then (try_sys (remove_file destination)) (\<lambda>_.
       sync_directory directory)))))))))))))))"

end
