(* ===== verification/Worker_Types.thy ===== *)
theory Worker_Types
  imports Capability Access_Policy Storage_Layout
begin

text \<open>
  Data of the storage worker (\<open>source/apps/filebelt-worker-io/src/main.rs\<close>): the rows and
  messages of \<open>filebelt-database\<close> it exchanges, its state, its errors and their responses.

  Request headers are a function from names to values, together with \<open>HeaderValue::to_str\<close> of
  the \<open>http\<close> crate. A \<open>u64\<close> of the claims is a word; a \<open>u64\<close> of the storage crate is a
  natural number, read off with \<open>unat\<close>.
\<close>

section \<open>Rows and messages of the database\<close>

datatype MountWriteRangeOperation =
    WriteData | HoleDeallocate | Allocate | SeekData | SeekHole

datatype MountIoOperation =
    WriteData | HoleDeallocate | Allocate | SeekData | SeekHole | Flush | Finalize | Abort | DeleteStaging

record MountWriteCapabilityFence =
  wf_tenant_id :: uuid
  wf_principal_id :: uuid
  wf_mount_session_id :: uuid
  wf_credential_id :: uuid
  wf_handle_id :: uuid
  wf_drive_id :: uuid
  wf_node_id :: uuid
  wf_version_id :: "uuid option"
  wf_write_session_id :: uuid
  wf_credential_generation :: i64
  wf_authorization_generation :: i64
  wf_membership_generation :: i64
  wf_drive_acl_generation :: i64
  wf_namespace_generation :: i64
  wf_resource_acl_generation :: i64
  wf_gateway_epoch :: i64
  wf_fencing_token :: i64

record MountReadCapabilityFence =
  rf_tenant_id :: uuid
  rf_principal_id :: uuid
  rf_mount_session_id :: uuid
  rf_credential_id :: uuid
  rf_handle_id :: uuid
  rf_drive_id :: uuid
  rf_node_id :: uuid
  rf_version_id :: uuid
  rf_credential_generation :: i64
  rf_authorization_generation :: i64
  rf_membership_generation :: i64
  rf_drive_acl_generation :: i64
  rf_namespace_generation :: i64
  rf_resource_acl_generation :: i64
  rf_gateway_epoch :: i64

record MountWriteChunkEvidence =
  ev_chunk_number :: i64
  ev_size_bytes :: i64
  ev_blake3 :: bytes

record MountWriteChunkPlan =
  plan_chunk_number :: i64
  plan_source_payload_id :: "uuid option"
  plan_source_chunk_number :: "i64 option"
  plan_staging_locator :: uuid
  plan_size_bytes :: i64
  plan_dirty :: bool

record MountPayloadPartRecord =
  mpart_chunk_number :: i64
  mpart_locator :: uuid
  mpart_size_bytes :: i64
  mpart_blake3 :: bytes

record MountWriteStorageRecord =
  st_write_session_id :: uuid
  st_base_version_id :: "uuid option"
  st_logical_size_bytes :: i64
  st_reserved_bytes :: i64
  st_state :: string
  st_staging_payload :: PayloadRecord
  st_base_payload :: "PayloadRecord option"
  st_base_parts :: "MountPayloadPartRecord list"
  st_planned_chunks :: "MountWriteChunkPlan list"

record MountWriteRangeAdmission =
  adm_storage :: MountWriteStorageRecord
  adm_operation_id :: uuid
  adm_operation_ordinal :: i64
  adm_operation :: MountWriteRangeOperation
  adm_content_blake3 :: "bytes option"
  adm_range_start :: i64
  adm_range_end :: i64
  adm_resulting_logical_size :: i64

datatype MountIoCompletion =
    RangeMutation (done_logical_size: i64) (done_reservation_delta: i64)
  | SeekDone "i64 option"
  | FlushDone i64 bytes "MountWriteChunkEvidence list"
  | FinalizeDone i64 bytes "MountWriteChunkEvidence list"
  | AbortDone
  | DeleteStagingDone
  | Cleanup

record MountIoCleanupRecord =
  mio_tenant_id :: uuid
  mio_write_session_id :: uuid
  mio_fencing_token :: i64
  mio_storage :: MountWriteStorageRecord
  mio_nonce_digest :: bytes
  mio_claims_digest :: bytes
  mio_operation :: MountIoOperation
  mio_operation_id :: "uuid option"

datatype MountIoAdmission =
    Execute MountWriteStorageRecord
  | Completed MountIoCompletion
  | CleanupRequired MountIoCleanupRecord

datatype MountIoLookup = Absent | Pending | LookupCompleted MountIoCompletion

record BeginMountIoOperationInput =
  io_fence :: MountWriteCapabilityFence
  io_capability_id :: uuid
  io_nonce_digest :: bytes
  io_claims_digest :: bytes
  io_operation :: MountIoOperation
  io_range_start :: "i64 option"
  io_range_end :: "i64 option"
  io_content_blake3 :: "bytes option"
  io_expires_at :: i64

record MountStagingCleanupJobRecord =
  job_tenant_id :: uuid
  job_write_session_id :: uuid
  job_backend_id :: uuid
  job_worker_id :: uuid
  job_payload :: PayloadRecord
  job_fencing_token :: i64
  job_state :: string
  job_reason :: string
  job_completion_kind :: string
  job_source_nonce_digest :: "bytes option"

record MountWriteLockCleanupJobRecord =
  lockjob_tenant_id :: uuid
  lockjob_write_session_id :: uuid
  lockjob_backend_id :: uuid
  lockjob_staging_payload_id :: uuid
  lockjob_worker_id :: uuid
  lockjob_fencing_token :: i64
  lockjob_state :: string

record CollaborationObjectRecord =
  obj_id :: uuid
  obj_room_id :: uuid
  obj_epoch :: i64
  obj_drive_id :: uuid
  obj_node_id :: uuid
  obj_fencing_token :: i64
  obj_payload_id :: uuid
  obj_backend_id :: uuid
  obj_payload_locator :: uuid
  obj_purpose :: string
  obj_state :: string
  obj_reserved_bytes :: i64
  obj_size_bytes :: "i64 option"
  obj_blake3 :: "bytes option"

section \<open>State and errors of the worker\<close>

datatype AppError =
    BadRequest string
  | NotFound string
  | Unauthorized
  | Forbidden
  | Conflict string
  | Range
  | Unavailable
  | Unsupported string
  | Internal

type_synonym HeaderMap = "string \<Rightarrow> bytes option"

record worker_lib =
  caps :: cap_lib
  header_to_str :: "bytes \<Rightarrow> string option"

record AppState =
  storage :: StorageLayout
  api_storage_keys :: Keyset
  collaboration_storage_keys :: "Keyset option"
  document_storage_keys :: "Keyset option"
  revision_storage_keys :: "Keyset option"
  mount_storage_keys :: "Keyset option"
  app_tenant_id :: uuid
  app_backend_id :: uuid
  worker_id :: uuid
  chunk_size :: nat

record AuthorizedCapability =
  auth_claims :: CapabilityClaims
  auth_tenant_id :: uuid
  auth_session_id :: uuid
  auth_principal_id :: uuid
  auth_resource_id :: uuid
  auth_capability_id :: uuid

record AuthorizedMountRead =
  mr_claims :: MountCapabilityClaims
  mr_fence :: MountReadCapabilityFence

record AuthorizedMountWrite =
  mw_claims :: MountCapabilityClaims
  mw_fence :: MountWriteCapabilityFence

definition CAPABILITY_AUDIENCE :: string where
  "CAPABILITY_AUDIENCE = ''filebelt-worker-io''"

definition CAPABILITY_COOKIE_NAMES :: "string list" where
  "CAPABILITY_COOKIE_NAMES = [''filebelt_capability'', ''filebelt-capability'']"

definition MAX_MOUNT_WRITE_BYTES :: nat where
  "MAX_MOUNT_WRITE_BYTES = 1048576"

definition REVISION_CHUNK_CAPABILITY_NONCE_BYTES :: nat where
  "REVISION_CHUNK_CAPABILITY_NONCE_BYTES = 64"

primrec app_error_from_database :: "DatabaseError \<Rightarrow> AppError" where
  "app_error_from_database DatabaseError.NotFound = NotFound ''object_not_found''"
| "app_error_from_database DatabaseError.Conflict = Conflict ''state_conflict''"
| "app_error_from_database StaleGeneration = Forbidden"
| "app_error_from_database QuotaExceeded = Conflict ''quota_exceeded''"
| "app_error_from_database AdmissionLimited = Unavailable"
| "app_error_from_database SecurityAdmissionBlocked = Unavailable"
| "app_error_from_database Sql = Unavailable"
| "app_error_from_database Migration = Unavailable"
| "app_error_from_database StorageUnavailable = Unavailable"
| "app_error_from_database InvalidPersistedValue = Internal"

primrec storage_error :: "StorageError \<Rightarrow> AppError" where
  "storage_error StateConflict = Conflict ''storage_state_conflict''"
| "storage_error CorruptObject = Conflict ''storage_integrity_failure''"
| "storage_error UnsafeObject = Conflict ''storage_integrity_failure''"
| "storage_error InvalidContent = Conflict ''content_profile_invalid''"
| "storage_error UnsupportedFilesystem = Unsupported ''sparse_not_supported''"
| "storage_error (Io e) = Internal"
| "storage_error Join = Internal"

text \<open>Status, title and code of the problem response.\<close>

primrec into_response :: "AppError \<Rightarrow> nat \<times> string \<times> string" where
  "into_response (BadRequest code) = (400, ''Request rejected'', code)"
| "into_response (NotFound code) = (404, ''Object not found'', code)"
| "into_response Unauthorized = (401, ''Capability required'', ''invalid_capability'')"
| "into_response Forbidden = (403, ''Capability no longer authorized'', ''authorization_changed'')"
| "into_response (Conflict code) = (409, ''Storage state conflict'', code)"
| "into_response Range = (416, ''Range not satisfiable'', ''invalid_range'')"
| "into_response Unavailable = (503, ''Authoritative state unavailable'', ''dependency_unavailable'')"
| "into_response (Unsupported code) = (501, ''Storage operation unsupported'', code)"
| "into_response Internal = (500, ''Storage operation failed'', ''storage_failure'')"

end
