(* ===== verification/Cow_Staging.thy ===== *)
theory Cow_Staging
  imports Storage_Layout
begin

text \<open>
  Copy-on-write staging of mount writes (\<open>source/crates/filebelt-storage/src/cow.rs\<close>): a write
  session owns a directory of numbered chunk files, and every change of a chunk copies it to a
  temporary file, changes the copy and renames it over the chunk.

  The loops over chunk ranges are recursive functions whose termination is shown. The loop that
  copies the data extents of a sparse file advances only if the file system reports extents past
  the cursor, so it runs on a bound, one more than the size of the file; running out of it is the
  outcome \<open>Unbounded\<close>.
\<close>

section \<open>Records and names\<close>

record CowWriteResult =
  logical_size :: nat
  reservation_delta :: nat

record CowChunkDigest =
  chunk_number :: nat
  chunk_digest_size :: nat
  chunk_digest :: bytes

record CowManifest =
  man_logical_size :: nat
  man_digest :: bytes
  man_chunks :: "CowChunkDigest list"

datatype SparseSeek = SeekData | SeekHole

definition MIN_CHUNK_SIZE :: nat where
  "MIN_CHUNK_SIZE = 64 * 1024"

definition MAX_CHUNK_SIZE :: nat where
  "MAX_CHUNK_SIZE = 64 * 1024 * 1024"

definition MAX_CHUNK_COUNT :: nat where
  "MAX_CHUNK_COUNT = 100000000"

definition is_power_of_two :: "nat \<Rightarrow> bool" where
  "is_power_of_two n \<longleftrightarrow> list_ex (\<lambda>k. n = 2 ^ k) [0..<64]"

definition validate_chunk_size :: "nat \<Rightarrow> (unit, StorageError) result" where
  "validate_chunk_size chunk_size =
     (if \<not> (MIN_CHUNK_SIZE \<le> chunk_size \<and> chunk_size \<le> MAX_CHUNK_SIZE)
         \<or> \<not> is_power_of_two chunk_size
      then Err StateConflict else Ok ())"

definition div_ceil :: "nat \<Rightarrow> nat \<Rightarrow> nat" where
  "div_ceil n d = n div d + (if n mod d > 0 then 1 else 0)"

definition checked_nonempty_range_end :: "nat \<Rightarrow> nat \<Rightarrow> (nat, StorageError) result" where
  "checked_nonempty_range_end offset len =
     (if len = 0 then Err StateConflict else ok_or (u64_checked_add offset len) StateConflict)"

definition storage_errno :: "Errno \<Rightarrow> StorageError" where
  "storage_errno e = (if e = INVAL \<or> e = NOTSUP then UnsupportedFilesystem else Io DeviceError)"

definition cow_chunk_name :: "nat \<Rightarrow> string" where
  "cow_chunk_name n = zero_pad 8 (decimal n) @ ''.part''"

text \<open>\<open>str::parse::<u64>\<close>: digits, with an optional leading plus sign.\<close>

definition parse_u64 :: "string \<Rightarrow> nat option" where
  "parse_u64 s =
     (let digits = (case s of c # r \<Rightarrow> if c = CHR ''+'' then r else s | [] \<Rightarrow> s) in
      if digits = [] \<or> \<not> list_all is_ascii_digit digits then None
      else if decimal_value digits \<le> int U64_MAX then Some (nat (decimal_value digits))
      else None)"

definition parse_cow_chunk_name :: "string \<Rightarrow> (nat, StorageError) result" where
  "parse_cow_chunk_name name =
     (if \<not> utf8_valid name then Err UnsafeObject
      else
        case strip_suffix_str ''.part'' name of
          None \<Rightarrow> Err UnsafeObject
        | Some digits \<Rightarrow>
            if length digits = 8 then ok_or (parse_u64 digits) UnsafeObject else Err UnsafeObject)"

definition parse_cow_writing_name :: "storage_lib \<Rightarrow> string \<Rightarrow> (nat, StorageError) result" where
  "parse_cow_writing_name L name =
     (if \<not> utf8_valid name then Err UnsafeObject
      else
        and_then (ok_or (Option.bind (strip_prefix ''.'' name) (strip_suffix_str ''.writing''))
                    UnsafeObject) (\<lambda>temporary.
        and_then (ok_or (split_once_str ''.part.'' temporary) UnsafeObject) (\<lambda>(digits, operation).
        and_then (parse_cow_chunk_name (digits @ ''.part'')) (\<lambda>n.
        and_then (ok_or (uuid_parse_str (ids L) operation) UnsafeObject) (\<lambda>parsed.
        if uuid_text L parsed \<noteq> operation then Err UnsafeObject else Ok n)))))"

definition parse_cow_entry_name :: "storage_lib \<Rightarrow> string \<Rightarrow> (nat, StorageError) result" where
  "parse_cow_entry_name L name =
     (case parse_cow_chunk_name name of
        Ok n \<Rightarrow> Ok n
      | Err _ \<Rightarrow> parse_cow_writing_name L name)"

definition writing_name :: "storage_lib \<Rightarrow> nat \<Rightarrow> uuid \<Rightarrow> string" where
  "writing_name L n operation =
     ''.'' @ cow_chunk_name n @ ''.'' @ uuid_text L operation @ ''.writing''"

section \<open>Sparse-file calls\<close>

definition seek_extent ::
  "storage_lib \<Rightarrow> SparseSeek \<Rightarrow> ino \<Rightarrow> nat \<Rightarrow> (nat, Errno) call" where
  "seek_extent L kind i pos = faulty_with OtherErrno (\<lambda>s.
     (case inodes s i of
        None \<Rightarrow> Err OtherErrno
      | Some n \<Rightarrow>
          (case ftype n of
             Regular c \<Rightarrow> (case kind of SeekData \<Rightarrow> seek_data L c pos | SeekHole \<Rightarrow> seek_hole L c pos)
           | _ \<Rightarrow> Err INVAL), s))"

definition fallocate_call ::
  "storage_lib \<Rightarrow> FallocateFlags \<Rightarrow> ino \<Rightarrow> nat \<Rightarrow> nat \<Rightarrow> (unit, Errno) call" where
  "fallocate_call L flags i pos len = faulty_with OtherErrno (\<lambda>s.
     case inodes s i of
       None \<Rightarrow> (Err OtherErrno, s)
     | Some n \<Rightarrow>
         (case ftype n of
            Regular c \<Rightarrow>
              (case fallocate L flags pos len c of
                 Ok c' \<Rightarrow> (Ok (), touch i (set_inode i (n\<lparr>ftype := Regular c'\<rparr>) s))
               | Err e \<Rightarrow> (Err e, s))
          | _ \<Rightarrow> (Err INVAL, s)))"

definition try_errno :: "('a, Errno) call \<Rightarrow> 'a io" where
  "try_errno m = match_sys m (\<lambda>r. case r of Ok x \<Rightarrow> ret x | Err e \<Rightarrow> fail (storage_errno e))"

definition pad_file_to :: "ino \<Rightarrow> nat \<Rightarrow> unit io" where
  "pad_file_to i offset =
     io_then (try_sys (fstat i)) (\<lambda>m.
     if file_len m < offset then try_sys (set_len i offset) else ret ())"

text \<open>
  Copying one data extent in buffers of 64 KiB: \<open>read_exact\<close> from the source, \<open>write_all\<close> to
  the destination, both at the same position.
\<close>

definition read_exact :: "ino \<Rightarrow> nat \<Rightarrow> nat \<Rightarrow> bytes sys" where
  "read_exact i pos len = faulty (\<lambda>s.
     case inodes s i of
       None \<Rightarrow> (Err NotFound, s)
     | Some n \<Rightarrow>
         (case ftype n of
            Regular c \<Rightarrow>
              if pos + len \<le> length c then (Ok (take len (drop pos (contents c))), s)
              else (Err InvalidInput, s)
          | _ \<Rightarrow> (Err InvalidInput, s)))"

definition COPY_BUFFER :: nat where
  "COPY_BUFFER = 64 * 1024"

function copy_extent :: "ino \<Rightarrow> ino \<Rightarrow> nat \<Rightarrow> nat \<Rightarrow> unit io" where
  "copy_extent source destination pos remaining =
     (if remaining = 0 then ret ()
      else
        let n = min remaining COPY_BUFFER in
        io_then (try_sys (read_exact source pos n)) (\<lambda>bytes.
        io_then (try_sys (write_all destination pos bytes)) (\<lambda>_.
        copy_extent source destination (pos + n) (remaining - n))))"
  by pat_completeness auto
termination
  by (relation "measure (\<lambda>(source, destination, pos, remaining). remaining)")
    (auto simp: COPY_BUFFER_def)

declare copy_extent.simps [simp del]

fun copy_extents :: "storage_lib \<Rightarrow> nat \<Rightarrow> ino \<Rightarrow> ino \<Rightarrow> nat \<Rightarrow> nat \<Rightarrow> unit io" where
  "copy_extents L 0 source destination sz cursor = stop_with Unbounded"
| "copy_extents L (Suc fuel) source destination sz cursor =
     (if cursor \<ge> sz then ret ()
      else match_sys (seek_extent L SeekData source cursor) (\<lambda>r.
        case r of
          Err NXIO \<Rightarrow> ret ()
        | Err e \<Rightarrow> fail (storage_errno e)
        | Ok data \<Rightarrow>
            if data \<ge> sz then ret ()
            else
              io_then (try_errno (seek_extent L SeekHole source data)) (\<lambda>found.
              let hole = min found sz in
              if hole \<le> data then fail UnsupportedFilesystem
              else
                io_then (try_sys (seek_start source data)) (\<lambda>_.
                io_then (try_sys (seek_start destination data)) (\<lambda>_.
                io_then (copy_extent source destination data (hole - data)) (\<lambda>_.
                copy_extents L fuel source destination sz hole))))))"

definition copy_sparse_file :: "storage_lib \<Rightarrow> ino \<Rightarrow> ino \<Rightarrow> unit io" where
  "copy_sparse_file L source destination =
     io_then (try_sys (fstat source)) (\<lambda>m.
     io_then (try_sys (set_len destination (file_len m))) (\<lambda>_.
     copy_extents L (Suc (file_len m)) source destination (file_len m) 0))"

section \<open>Replacing a chunk\<close>

definition cow_directory :: "storage_lib \<Rightarrow> StorageLayout \<Rightarrow> uuid \<Rightarrow> path io" where
  "cow_directory L root session =
     io_then (shard_directory L root ''staging'' session) (\<lambda>d.
     ret (d @ [uuid_text L session @ ''.cow'']))"

definition replace_chunk ::
  "storage_lib \<Rightarrow> StorageLayout \<Rightarrow> uuid \<Rightarrow> uuid \<Rightarrow> nat \<Rightarrow> (ino \<Rightarrow> unit io) \<Rightarrow> unit io" where
  "replace_chunk L root session operation n mutate =
     (if n \<ge> MAX_CHUNK_COUNT then fail StateConflict
      else
        io_then (cow_directory L root session) (\<lambda>directory.
        io_then (verify_directory directory) (\<lambda>_.
        let destination = directory @ [cow_chunk_name n];
            temporary = directory @ [writing_name L n operation] in
        io_then (path_kind destination) (\<lambda>kind.
        io_then
          (case kind of
             Present \<Rightarrow>
               io_then (verify_regular_file destination) (\<lambda>_.
               io_then (try_sys (file_open destination)) (\<lambda>source.
               io_then (create_new_file temporary) (\<lambda>temporary_file.
               io_then (copy_sparse_file L source temporary_file) (\<lambda>_.
               ret temporary_file))))
           | Missing \<Rightarrow> create_new_file temporary) (\<lambda>file.
        io_then (mutate file) (\<lambda>_.
        io_then (try_sys (sync_all file)) (\<lambda>_.
        io_then (try_sys (rename temporary destination)) (\<lambda>_.
        sync_directory directory))))))))"

section \<open>Ranges of chunks\<close>

text \<open>The loop shared by the ranges: the chunk number, the offset within it and the amount.\<close>

function for_each_cow_range ::
  "storage_lib \<Rightarrow> StorageLayout \<Rightarrow> uuid \<Rightarrow> uuid \<Rightarrow> nat \<Rightarrow> nat \<Rightarrow> nat \<Rightarrow> (ino \<Rightarrow> nat \<Rightarrow> nat \<Rightarrow> unit io)
     \<Rightarrow> unit io" where
  "for_each_cow_range L root session operation chunk_size offset len change =
     (if len = 0 then ret ()
      else if chunk_size = 0 then stop_with Panicking
      else
        let n = offset div chunk_size;
            within = offset mod chunk_size;
            amount = min len (chunk_size - within) in
        io_then (replace_chunk L root session operation n (\<lambda>file. change file within amount)) (\<lambda>_.
        case u64_checked_add offset amount of
          None \<Rightarrow> fail StateConflict
        | Some offset' \<Rightarrow>
            for_each_cow_range L root session operation chunk_size offset' (len - amount) change))"
  by pat_completeness auto
termination
  by (relation "measure (\<lambda>(L, root, session, operation, chunk_size, offset, len, change). len)") auto

declare for_each_cow_range.simps [simp del]

definition pad_to_end :: "ino \<Rightarrow> nat \<Rightarrow> nat \<Rightarrow> unit io" where
  "pad_to_end file within amount =
     (case u64_checked_add within amount of
        None \<Rightarrow> fail StateConflict
      | Some limit \<Rightarrow> pad_file_to file limit)"

definition extend_cow_with_holes ::
  "storage_lib \<Rightarrow> StorageLayout \<Rightarrow> uuid \<Rightarrow> uuid \<Rightarrow> nat \<Rightarrow> nat \<Rightarrow> nat \<Rightarrow> unit io" where
  "extend_cow_with_holes L root session operation chunk_size offset len =
     for_each_cow_range L root session operation chunk_size offset len pad_to_end"

definition write_segment :: "bytes \<Rightarrow> nat \<Rightarrow> ino \<Rightarrow> unit io" where
  "write_segment segment within file =
     io_then (pad_file_to file within) (\<lambda>_.
     io_then (try_sys (seek_start file within)) (\<lambda>_.
     try_sys (write_all file within segment)))"

function write_cow_range ::
  "storage_lib \<Rightarrow> StorageLayout \<Rightarrow> uuid \<Rightarrow> uuid \<Rightarrow> nat \<Rightarrow> nat \<Rightarrow> bytes \<Rightarrow> unit io" where
  "write_cow_range L root session operation chunk_size offset bytes =
     (if bytes = [] then ret ()
      else if chunk_size = 0 then stop_with Panicking
      else
        let n = offset div chunk_size;
            within = offset mod chunk_size;
            amount = min (length bytes) (chunk_size - within) in
        io_then (replace_chunk L root session operation n
                   (write_segment (take amount bytes) within)) (\<lambda>_.
        case u64_checked_add offset amount of
          None \<Rightarrow> fail StateConflict
        | Some offset' \<Rightarrow>
            write_cow_range L root session operation chunk_size offset' (drop amount bytes)))"
  by pat_completeness auto
termination
  by (relation "measure (\<lambda>(L, root, session, operation, chunk_size, offset, bytes). length bytes)")
    auto

declare write_cow_range.simps [simp del]

section \<open>Operations of a write session\<close>

definition cow_result :: "nat \<Rightarrow> nat \<Rightarrow> CowWriteResult" where
  "cow_result size_now current = \<lparr>logical_size = size_now, reservation_delta = size_now - current\<rparr>"

definition extend_to_offset ::
  "storage_lib \<Rightarrow> StorageLayout \<Rightarrow> uuid \<Rightarrow> uuid \<Rightarrow> nat \<Rightarrow> nat \<Rightarrow> nat \<Rightarrow> unit io" where
  "extend_to_offset L root session operation chunk_size current offset =
     (if offset > current
      then extend_cow_with_holes L root session operation chunk_size current (offset - current)
      else ret ())"

definition write_cow_at ::
  "storage_lib \<Rightarrow> StorageLayout \<Rightarrow> uuid \<Rightarrow> uuid \<Rightarrow> nat \<Rightarrow> nat \<Rightarrow> nat \<Rightarrow> bytes \<Rightarrow> CowWriteResult io" where
  "write_cow_at L root session operation chunk_size current offset bytes =
     io_then (lift_result (validate_chunk_size chunk_size)) (\<lambda>_.
     io_then (lift_result (ok_or (u64_checked_add offset (length bytes)) StateConflict)) (\<lambda>limit.
     io_then (extend_to_offset L root session operation chunk_size current offset) (\<lambda>_.
     io_then (write_cow_range L root session operation chunk_size offset bytes) (\<lambda>_.
     ret (cow_result (max current limit) current)))))"

definition truncate_cow ::
  "storage_lib \<Rightarrow> StorageLayout \<Rightarrow> uuid \<Rightarrow> uuid \<Rightarrow> nat \<Rightarrow> nat \<Rightarrow> nat \<Rightarrow> CowWriteResult io" where
  "truncate_cow L root session operation chunk_size current new_size =
     io_then (lift_result (validate_chunk_size chunk_size)) (\<lambda>_.
     io_then
       (if new_size > current then
          extend_cow_with_holes L root session operation chunk_size current (new_size - current)
        else if new_size < current then
          io_then (cow_directory L root session) (\<lambda>directory.
          io_then (verify_directory directory) (\<lambda>_.
          io_then (try_sys (read_dir directory)) (\<lambda>entries.
          io_then (io_each (\<lambda>name.
             io_then (lift_result (parse_cow_chunk_name name)) (\<lambda>number.
             if number \<ge> div_ceil new_size chunk_size then
               io_then (verify_regular_file (directory @ [name])) (\<lambda>_.
               try_sys (remove_file (directory @ [name])))
             else ret ())) entries) (\<lambda>_.
          io_then
            (if new_size > 0 then
               let final_number = (new_size - 1) div chunk_size;
                   final_size = new_size - final_number * chunk_size in
               replace_chunk L root session operation final_number
                 (\<lambda>file. try_sys (set_len file final_size))
             else ret ()) (\<lambda>_.
          sync_directory directory)))))
        else ret ()) (\<lambda>_.
     ret (cow_result new_size current)))"

definition allocate_step :: "storage_lib \<Rightarrow> ino \<Rightarrow> nat \<Rightarrow> nat \<Rightarrow> unit io" where
  "allocate_step L file within amount =
     io_then (pad_to_end file within amount) (\<lambda>_.
     try_errno (fallocate_call L NoFlags file within amount))"

definition allocate_cow_range ::
  "storage_lib \<Rightarrow> StorageLayout \<Rightarrow> uuid \<Rightarrow> uuid \<Rightarrow> nat \<Rightarrow> nat \<Rightarrow> nat \<Rightarrow> nat \<Rightarrow> CowWriteResult io" where
  "allocate_cow_range L root session operation chunk_size current offset len =
     io_then (lift_result (validate_chunk_size chunk_size)) (\<lambda>_.
     io_then (lift_result (checked_nonempty_range_end offset len)) (\<lambda>limit.
     io_then (extend_to_offset L root session operation chunk_size current offset) (\<lambda>_.
     io_then (for_each_cow_range L root session operation chunk_size offset len (allocate_step L)) (\<lambda>_.
     ret (cow_result (max current limit) current)))))"

definition punch_step :: "storage_lib \<Rightarrow> ino \<Rightarrow> nat \<Rightarrow> nat \<Rightarrow> unit io" where
  "punch_step L file within amount =
     try_errno (fallocate_call L PunchHoleKeepSize file within amount)"

definition deallocate_cow_range ::
  "storage_lib \<Rightarrow> StorageLayout \<Rightarrow> uuid \<Rightarrow> uuid \<Rightarrow> nat \<Rightarrow> nat \<Rightarrow> nat \<Rightarrow> nat \<Rightarrow> CowWriteResult io" where
  "deallocate_cow_range L root session operation chunk_size current offset len =
     io_then (lift_result (validate_chunk_size chunk_size)) (\<lambda>_.
     io_then (lift_result (checked_nonempty_range_end offset len)) (\<lambda>requested_end.
     let limit = min requested_end current in
     io_then
       (if offset < limit
        then for_each_cow_range L root session operation chunk_size offset (limit - offset) (punch_step L)
        else ret ()) (\<lambda>_.
     ret \<lparr>logical_size = current, reservation_delta = 0\<rparr>)))"

definition chunk_logical_size :: "nat \<Rightarrow> nat \<Rightarrow> nat \<Rightarrow> nat" where
  "chunk_logical_size chunk_size log_size n =
     (if n + 1 = div_ceil log_size chunk_size then log_size - n * chunk_size else chunk_size)"

function sparse_scan ::
  "storage_lib \<Rightarrow> path \<Rightarrow> SparseSeek \<Rightarrow> nat \<Rightarrow> nat \<Rightarrow> nat \<Rightarrow> nat \<Rightarrow> nat option io" where
  "sparse_scan L directory kind chunk_size log_size n within =
     (if n \<ge> div_ceil log_size chunk_size then ret (if kind = SeekHole then Some log_size else None)
      else
        let p = directory @ [cow_chunk_name n];
            go_on = sparse_scan L directory kind chunk_size log_size (n + 1) 0 in
        io_then (verify_regular_file p) (\<lambda>_.
        io_then (try_sys (file_open p)) (\<lambda>i.
        match_sys (seek_extent L kind i within) (\<lambda>r.
        case r of
          Ok found \<Rightarrow>
            if found < chunk_logical_size chunk_size log_size n then
              (case Option.bind (u64_checked_mul n chunk_size) (\<lambda>base. u64_checked_add base found) of
                 None \<Rightarrow> fail StateConflict
               | Some position \<Rightarrow> ret (Some position))
            else go_on
        | Err NXIO \<Rightarrow> go_on
        | Err e \<Rightarrow> fail (storage_errno e)))))"
  by pat_completeness auto
termination
  by (relation "measure (\<lambda>(L, directory, kind, chunk_size, log_size, n, within).
        div_ceil log_size chunk_size - n)") auto

declare sparse_scan.simps [simp del]

definition cow_next_sparse_offset ::
  "storage_lib \<Rightarrow> StorageLayout \<Rightarrow> uuid \<Rightarrow> nat \<Rightarrow> nat \<Rightarrow> nat \<Rightarrow> SparseSeek \<Rightarrow> nat option io" where
  "cow_next_sparse_offset L root session chunk_size log_size offset kind =
     io_then (lift_result (validate_chunk_size chunk_size)) (\<lambda>_.
     if offset \<ge> log_size then
       ret (if kind = SeekHole \<and> offset = log_size then Some offset else None)
     else
       io_then (cow_directory L root session) (\<lambda>directory.
       io_then (verify_directory directory) (\<lambda>_.
       sparse_scan L directory kind chunk_size log_size (offset div chunk_size)
         (offset mod chunk_size))))"

definition cow_next_data ::
  "storage_lib \<Rightarrow> StorageLayout \<Rightarrow> uuid \<Rightarrow> nat \<Rightarrow> nat \<Rightarrow> nat \<Rightarrow> nat option io" where
  "cow_next_data L root session chunk_size log_size offset =
     cow_next_sparse_offset L root session chunk_size log_size offset SeekData"

definition cow_next_hole ::
  "storage_lib \<Rightarrow> StorageLayout \<Rightarrow> uuid \<Rightarrow> nat \<Rightarrow> nat \<Rightarrow> nat \<Rightarrow> nat option io" where
  "cow_next_hole L root session chunk_size log_size offset =
     cow_next_sparse_offset L root session chunk_size log_size offset SeekHole"

definition sync_chunk_file :: "path \<Rightarrow> string \<Rightarrow> unit io" where
  "sync_chunk_file directory name =
     io_then (lift_result (parse_cow_chunk_name name)) (\<lambda>_.
     io_then (verify_regular_file (directory @ [name])) (\<lambda>_.
     io_then (try_sys (file_open (directory @ [name]))) (\<lambda>i.
     try_sys (sync_all i))))"

definition sync_cow_files :: "path \<Rightarrow> unit io" where
  "sync_cow_files directory =
     io_then (verify_directory directory) (\<lambda>_.
     io_then (try_sys (read_dir directory)) (\<lambda>entries.
     io_each (sync_chunk_file directory) entries))"

definition sync_cow :: "storage_lib \<Rightarrow> StorageLayout \<Rightarrow> uuid \<Rightarrow> unit io" where
  "sync_cow L root session =
     io_then (cow_directory L root session) (\<lambda>directory.
     io_then (sync_cow_files directory) (\<lambda>_.
     sync_directory directory))"

fun logical_size_loop ::
  "nat \<Rightarrow> nat \<Rightarrow> nat \<Rightarrow> (nat \<times> nat) list \<Rightarrow> nat \<Rightarrow> (nat, StorageError) result" where
  "logical_size_loop chunk_size count index [] so_far = Ok so_far"
| "logical_size_loop chunk_size count index ((n, sz) # chunks) so_far =
     (if n \<noteq> index \<or> sz = 0 \<or> sz > chunk_size \<or> index + 1 < count \<and> sz \<noteq> chunk_size
      then Err CorruptObject
      else
        and_then (ok_or (u64_checked_add so_far sz) StateConflict) (\<lambda>total_size.
        logical_size_loop chunk_size count (index + 1) chunks total_size))"

definition cow_logical_size :: "storage_lib \<Rightarrow> StorageLayout \<Rightarrow> uuid \<Rightarrow> nat \<Rightarrow> nat io" where
  "cow_logical_size L root session chunk_size =
     io_then (lift_result (validate_chunk_size chunk_size)) (\<lambda>_.
     io_then (cow_directory L root session) (\<lambda>directory.
     io_then (verify_directory directory) (\<lambda>_.
     io_then (try_sys (read_dir directory)) (\<lambda>entries.
     io_then (io_collect (\<lambda>name.
        io_then (lift_result (parse_cow_chunk_name name)) (\<lambda>n.
        io_then (verify_regular_file (directory @ [name])) (\<lambda>_.
        io_then (try_sys (symlink_metadata (directory @ [name]))) (\<lambda>m.
        ret (n, file_len m))))) entries) (\<lambda>chunks.
     lift_result (logical_size_loop chunk_size (length chunks) 0 (sort_key fst chunks) 0))))))"

definition cow_chunk_allocated_bytes :: "storage_lib \<Rightarrow> StorageLayout \<Rightarrow> uuid \<Rightarrow> nat \<Rightarrow> nat io" where
  "cow_chunk_allocated_bytes L root session n =
     io_then (cow_directory L root session) (\<lambda>directory.
     let p = directory @ [cow_chunk_name n] in
     io_then (verify_regular_file p) (\<lambda>_.
     io_then (try_sys (metadata p)) (\<lambda>m.
     case ftype m of
       Regular c \<Rightarrow> lift_result (ok_or (u64_checked_mul (allocated_blocks L c) 512) StateConflict)
     | _ \<Rightarrow> fail UnsafeObject)))"

section \<open>Manifests and publication\<close>

fun manifest_loop ::
  "storage_lib \<Rightarrow> path \<Rightarrow> nat \<Rightarrow> nat \<Rightarrow> nat list \<Rightarrow> bytes \<Rightarrow> (CowChunkDigest list \<times> bytes) io" where
  "manifest_loop L directory chunk_size log_size [] overall = ret ([], overall)"
| "manifest_loop L directory chunk_size log_size (n # ns) overall =
     (let p = directory @ [cow_chunk_name n] in
      io_then (verify_regular_file p) (\<lambda>_.
      io_then (try_sys (file_open p)) (\<lambda>i.
      io_then (try_sys (read_all i)) (\<lambda>bytes.
      if length bytes > U64_MAX then fail StateConflict
      else if length bytes \<noteq> chunk_logical_size chunk_size log_size n then fail CorruptObject
      else
        io_then (manifest_loop L directory chunk_size log_size ns (overall @ bytes))
          (\<lambda>(chunks, hasher).
        ret (\<lparr>chunk_number = n, chunk_digest_size = length bytes, chunk_digest = blake3 L bytes\<rparr>
               # chunks, hasher))))))"

definition cow_manifest_in :: "storage_lib \<Rightarrow> path \<Rightarrow> nat \<Rightarrow> nat \<Rightarrow> CowManifest io" where
  "cow_manifest_in L directory chunk_size log_size =
     io_then (lift_result (validate_chunk_size chunk_size)) (\<lambda>_.
     io_then (verify_directory directory) (\<lambda>_.
     let chunk_count = div_ceil log_size chunk_size in
     if chunk_count > MAX_CHUNK_COUNT then fail StateConflict
     else
       io_then (try_sys (read_dir directory)) (\<lambda>entries.
       if length entries \<noteq> chunk_count then fail CorruptObject
       else
         io_then (manifest_loop L directory chunk_size log_size [0..<chunk_count] [])
           (\<lambda>(chunks, hasher).
         ret \<lparr>man_logical_size = log_size, man_digest = blake3 L hasher, man_chunks = chunks\<rparr>))))"

definition cow_manifest ::
  "storage_lib \<Rightarrow> StorageLayout \<Rightarrow> uuid \<Rightarrow> nat \<Rightarrow> nat \<Rightarrow> CowManifest io" where
  "cow_manifest L root session chunk_size log_size =
     io_then (lift_result (validate_chunk_size chunk_size)) (\<lambda>_.
     io_then (cow_directory L root session) (\<lambda>directory.
     cow_manifest_in L directory chunk_size log_size))"

definition cow_staging_manifest ::
  "storage_lib \<Rightarrow> StorageLayout \<Rightarrow> uuid \<Rightarrow> PayloadRecord \<Rightarrow> nat \<Rightarrow> nat \<Rightarrow> CowManifest io" where
  "cow_staging_manifest L root session payload chunk_size log_size =
     io_then (cow_directory L root session) (\<lambda>source.
     io_then (payload_path L root payload) (\<lambda>destination.
     io_then (path_kind source) (\<lambda>source_kind.
     io_then (path_kind destination) (\<lambda>destination_kind.
     case (source_kind, destination_kind) of
       (Present, Missing) \<Rightarrow> cow_manifest_in L source chunk_size log_size
     | (Missing, Present) \<Rightarrow> cow_manifest_in L destination chunk_size log_size
     | _ \<Rightarrow> fail StateConflict))))"

definition validate_cow_payload_evidence ::
  "PayloadRecord \<Rightarrow> CowManifest \<Rightarrow> CowManifest \<Rightarrow> (unit, StorageError) result" where
  "validate_cow_payload_evidence payload expected manifest =
     (if manifest \<noteq> expected
         \<or> (case pay_blake3 payload of Some digest \<Rightarrow> digest \<noteq> man_digest manifest | None \<Rightarrow> False)
         \<or> (case u64_try_from (pay_size_bytes payload) of
              Some 0 \<Rightarrow> False
            | Some sz \<Rightarrow> sz \<noteq> man_logical_size expected
            | None \<Rightarrow> True)
      then Err CorruptObject else Ok ())"

definition sync_rename_parents :: "path \<Rightarrow> path \<Rightarrow> unit io" where
  "sync_rename_parents source destination =
     io_then (parent source) (\<lambda>source_parent.
     io_then (parent destination) (\<lambda>destination_parent.
     io_then (sync_directory source_parent) (\<lambda>_.
     if source_parent \<noteq> destination_parent then sync_directory destination_parent else ret ())))"

definition publish_cow ::
  "storage_lib \<Rightarrow> StorageLayout \<Rightarrow> uuid \<Rightarrow> PayloadRecord \<Rightarrow> nat \<Rightarrow> CowManifest \<Rightarrow> FinalizedObject io" where
  "publish_cow L root session payload chunk_size expected =
     (if pay_layout payload \<noteq> ''chunked'' then fail StateConflict
      else
        io_then (cow_directory L root session) (\<lambda>source.
        io_then (payload_path L root payload) (\<lambda>destination.
        io_then (path_kind source) (\<lambda>source_kind.
        io_then (path_kind destination) (\<lambda>destination_kind.
        io_then
          (case (source_kind, destination_kind) of
             (Present, Missing) \<Rightarrow>
               io_then (cow_manifest_in L source chunk_size (man_logical_size expected)) (\<lambda>manifest.
               io_then (lift_result (validate_cow_payload_evidence payload expected manifest)) (\<lambda>_.
               io_then (try_sys (rename source destination)) (\<lambda>_.
               io_then (sync_rename_parents source destination) (\<lambda>_.
               ret manifest))))
           | (Missing, Present) \<Rightarrow>
               io_then (cow_manifest_in L destination chunk_size (man_logical_size expected)) (\<lambda>manifest.
               io_then (lift_result (validate_cow_payload_evidence payload expected manifest)) (\<lambda>_.
               io_then (sync_rename_parents source destination) (\<lambda>_.
               ret manifest)))
           | _ \<Rightarrow> fail StateConflict) (\<lambda>manifest.
        ret \<lparr>fin_digest = man_digest manifest, fin_size = man_logical_size manifest\<rparr>))))))"

section \<open>Recovery, removal and initialization\<close>

definition verify_interrupted_cow_directory :: "path \<Rightarrow> unit io" where
  "verify_interrupted_cow_directory directory =
     io_then (try_sys (symlink_metadata directory)) (\<lambda>m.
     if ftype m \<noteq> Directory \<or> perm m AND 0xE3F \<noteq> 0 then fail UnsafeObject
     else
       io_then (parent directory) (\<lambda>above.
       io_then (try_sys (symlink_metadata above)) (\<lambda>am.
       if owner_uid m \<noteq> owner_uid am then fail UnsafeObject else ret ())))"

definition verify_interrupted_cow_file :: "path \<Rightarrow> unit io" where
  "verify_interrupted_cow_file p =
     io_then (try_sys (symlink_metadata p)) (\<lambda>m.
     if \<not> is_file m \<or> perm m AND 0xE7F \<noteq> 0 then fail UnsafeObject
     else
       io_then (parent p) (\<lambda>above.
       io_then (try_sys (symlink_metadata above)) (\<lambda>am.
       if owner_uid m \<noteq> owner_uid am then fail UnsafeObject else ret ())))"

definition remove_cow_directory :: "path \<Rightarrow> unit io" where
  "remove_cow_directory directory =
     io_then (path_kind directory) (\<lambda>kind.
     if kind = Missing then ret ()
     else
       io_then (verify_directory directory) (\<lambda>_.
       io_then (parent directory) (\<lambda>above.
       io_then (verify_same_owner directory above) (\<lambda>_.
       io_then (try_sys (read_dir directory)) (\<lambda>entries.
       io_then (io_each (\<lambda>name.
          io_then (lift_result (parse_cow_chunk_name name)) (\<lambda>_.
          io_then (verify_regular_file (directory @ [name])) (\<lambda>_.
          try_sys (remove_file (directory @ [name]))))) entries) (\<lambda>_.
       io_then (try_sys (remove_dir directory)) (\<lambda>_.
       sync_directory above)))))))"

definition remove_interrupted_cow_directory :: "path \<Rightarrow> unit io" where
  "remove_interrupted_cow_directory directory =
     io_then (path_kind directory) (\<lambda>kind.
     if kind = Missing then ret ()
     else
       io_then (verify_interrupted_cow_directory directory) (\<lambda>_.
       io_then (try_sys (chmod directory DIRECTORY_MODE)) (\<lambda>_.
       io_then (try_sys (read_dir directory)) (\<lambda>entries.
       io_then (io_each (\<lambda>name.
          io_then (lift_result (parse_cow_chunk_name name)) (\<lambda>_.
          io_then (verify_interrupted_cow_file (directory @ [name])) (\<lambda>_.
          try_sys (remove_file (directory @ [name]))))) entries) (\<lambda>_.
       io_then (try_sys (remove_dir directory)) (\<lambda>_.
       io_then (parent directory) sync_directory))))))"

text \<open>The loop over the parent directory; the result says whether something was removed.\<close>

fun recover_initializations ::
  "storage_lib \<Rightarrow> path \<Rightarrow> string \<Rightarrow> string list \<Rightarrow> bool \<Rightarrow> bool io" where
  "recover_initializations L directory_parent initialization_prefix [] changed = ret changed"
| "recover_initializations L directory_parent initialization_prefix (name # entries) changed =
     (if \<not> utf8_valid name then fail UnsafeObject
      else
        case strip_prefix initialization_prefix name of
          None \<Rightarrow> recover_initializations L directory_parent initialization_prefix entries changed
        | Some id_text \<Rightarrow>
            (case uuid_parse_str (ids L) id_text of
               None \<Rightarrow> fail UnsafeObject
             | Some i \<Rightarrow>
                 if uuid_text L i \<noteq> id_text then fail UnsafeObject
                 else
                   io_then (remove_interrupted_cow_directory (directory_parent @ [name])) (\<lambda>_.
                   recover_initializations L directory_parent initialization_prefix entries True)))"

fun recover_chunks :: "storage_lib \<Rightarrow> path \<Rightarrow> string list \<Rightarrow> bool \<Rightarrow> bool io" where
  "recover_chunks L directory [] changed = ret changed"
| "recover_chunks L directory (name # entries) changed =
     (if is_ok (parse_cow_chunk_name name) then
        io_then (verify_regular_file (directory @ [name])) (\<lambda>_.
        recover_chunks L directory entries changed)
      else
        io_then (lift_result (parse_cow_writing_name L name)) (\<lambda>_.
        io_then (verify_interrupted_cow_file (directory @ [name])) (\<lambda>_.
        io_then (try_sys (remove_file (directory @ [name]))) (\<lambda>_.
        recover_chunks L directory entries True))))"

definition initialization_prefix :: "storage_lib \<Rightarrow> uuid \<Rightarrow> string" where
  "initialization_prefix L session = ''.'' @ uuid_text L session @ ''.cow.init.''"

definition recover_cow_under_lock :: "storage_lib \<Rightarrow> StorageLayout \<Rightarrow> uuid \<Rightarrow> unit io" where
  "recover_cow_under_lock L root session =
     io_then (prepare root) (\<lambda>_.
     io_then (cow_directory L root session) (\<lambda>directory.
     io_then (parent directory) (\<lambda>directory_parent.
     io_then (try_sys (read_dir directory_parent)) (\<lambda>entries.
     io_then (recover_initializations L directory_parent (initialization_prefix L session) entries False)
       (\<lambda>parent_changed.
     io_then (if parent_changed then sync_directory directory_parent else ret ()) (\<lambda>_.
     io_then (path_kind directory) (\<lambda>kind.
     if kind = Missing then ret ()
     else
       io_then (verify_directory directory) (\<lambda>_.
       io_then (try_sys (read_dir directory)) (\<lambda>chunk_entries.
       io_then (recover_chunks L directory chunk_entries False) (\<lambda>directory_changed.
       io_then (if directory_changed then sync_directory directory else ret ()) (\<lambda>_.
       sync_directory directory_parent)))))))))))"

definition abort_cow :: "storage_lib \<Rightarrow> StorageLayout \<Rightarrow> uuid \<Rightarrow> unit io" where
  "abort_cow L root session =
     io_then (recover_cow_under_lock L root session) (\<lambda>_.
     io_then (cow_directory L root session) (\<lambda>directory.
     io_then (path_kind directory) (\<lambda>kind.
     if kind = Missing then ret ()
     else
       io_then (verify_directory directory) (\<lambda>_.
       io_then (try_sys (read_dir directory)) (\<lambda>entries.
       io_then (io_each (\<lambda>name.
          io_then (lift_result (parse_cow_entry_name L name)) (\<lambda>_.
          io_then (verify_regular_file (directory @ [name])) (\<lambda>_.
          try_sys (remove_file (directory @ [name]))))) entries) (\<lambda>_.
       io_then (try_sys (remove_dir directory)) (\<lambda>_.
       io_then (parent directory) sync_directory)))))))"

definition delete_cow_staging ::
  "storage_lib \<Rightarrow> StorageLayout \<Rightarrow> uuid \<Rightarrow> PayloadRecord \<Rightarrow> unit io" where
  "delete_cow_staging L root session payload =
     io_then (abort_cow L root session) (\<lambda>_. delete_payload L root payload)"

definition validate_base_chunks ::
  "CowBaseChunk list \<Rightarrow> nat \<Rightarrow> nat \<Rightarrow> (unit, StorageError) result" where
  "validate_base_chunks chunks chunk_size log_size =
     (if length chunks \<noteq> div_ceil log_size chunk_size
         \<or> list_ex (\<lambda>(n, chunk). base_chunk_number chunk \<noteq> n
              \<or> base_size chunk \<noteq> chunk_logical_size chunk_size log_size n) (enumerate 0 chunks)
      then Err StateConflict else Ok ())"

text \<open>Filling one chunk file from the source, in buffers of 64 KiB.\<close>

function fill_chunk :: "ino \<Rightarrow> ino \<Rightarrow> nat \<Rightarrow> nat \<Rightarrow> nat \<Rightarrow> unit io" where
  "fill_chunk source chunk pos filled chunk_remaining =
     (if chunk_remaining = 0 then ret ()
      else
        let n = min chunk_remaining COPY_BUFFER in
        io_then (try_sys (read_exact source pos n)) (\<lambda>bytes.
        io_then (try_sys (write_all chunk filled bytes)) (\<lambda>_.
        fill_chunk source chunk (pos + n) (filled + n) (chunk_remaining - n))))"
  by pat_completeness auto
termination
  by (relation "measure (\<lambda>(source, chunk, pos, filled, chunk_remaining). chunk_remaining)")
    (auto simp: COPY_BUFFER_def)

declare fill_chunk.simps [simp del]

text \<open>The closure of the split: its result and the paths it has created.\<close>

function split_chunks ::
  "path \<Rightarrow> nat \<Rightarrow> ino \<Rightarrow> nat \<Rightarrow> nat \<Rightarrow> nat \<Rightarrow> path list
     \<Rightarrow> ((unit, StorageError) result \<times> path list) io" where
  "split_chunks destination chunk_size source pos n remaining created =
     (if remaining = 0 then ret (Ok (), created)
      else if chunk_size = 0 then stop_with Unbounded
      else
        let p = destination @ [cow_chunk_name n];
            amount = min remaining chunk_size in
        match_io (create_new_file p) (\<lambda>r.
        case r of
          Err e \<Rightarrow> ret (Err e, created)
        | Ok chunk \<Rightarrow>
            match_io (io_then (fill_chunk source chunk pos 0 amount) (\<lambda>_. try_sys (sync_all chunk))) (\<lambda>r'.
            case r' of
              Err e \<Rightarrow> ret (Err e, created @ [p])
            | Ok _ \<Rightarrow>
                (case u64_checked_add n 1 of
                   None \<Rightarrow> ret (Err StateConflict, created @ [p])
                 | Some n' \<Rightarrow>
                     split_chunks destination chunk_size source (pos + amount) n' (remaining - amount)
                       (created @ [p])))))"
  by pat_completeness auto
termination
  by (relation "measure (\<lambda>(destination, chunk_size, source, pos, n, remaining, created). remaining)")
    auto

declare split_chunks.simps [simp del]

definition split_whole_payload :: "path \<Rightarrow> path \<Rightarrow> nat \<Rightarrow> unit io" where
  "split_whole_payload source destination chunk_size =
     io_then (try_sys (metadata source)) (\<lambda>m.
     let sz = file_len m in
     if sz = 0 then ret ()
     else if sz \<le> chunk_size then try_sys (hard_link source (destination @ [cow_chunk_name 0]))
     else
       io_then (try_sys (file_open source)) (\<lambda>i.
       io_then (split_chunks destination chunk_size i 0 0 sz []) (\<lambda>(result, created).
       case result of
         Ok _ \<Rightarrow> ret ()
       | Err e \<Rightarrow>
           io_then (io_each (\<lambda>p. io_then (path_exists p) (\<lambda>there.
              if there then try_sys (remove_file p) else ret ())) (rev created)) (\<lambda>_.
           io_then (sync_directory destination) (\<lambda>_.
           fail e)))))"

definition initialize_cow ::
  "storage_lib \<Rightarrow> StorageLayout \<Rightarrow> path \<Rightarrow> nat \<Rightarrow> PayloadRecord option \<Rightarrow> CowBaseChunk list \<Rightarrow> unit io" where
  "initialize_cow L root temporary chunk_size base_payload base_chunks =
     (case base_payload of
        None \<Rightarrow> if base_chunks \<noteq> [] then fail StateConflict else ret ()
      | Some payload \<Rightarrow>
          io_then (payload_path L root payload) (\<lambda>source.
          io_then (lift_result (ok_or (u64_try_from (pay_size_bytes payload)) StateConflict)) (\<lambda>log_size.
          io_then (lift_result (digest_32 CorruptObject (pay_blake3 payload))) (\<lambda>digest.
          io_then
            (if pay_layout payload = ''whole'' then
               io_then (verify_file L source log_size digest) (\<lambda>_.
               split_whole_payload source temporary chunk_size)
             else if pay_layout payload = ''chunked'' then
               io_then (verify_directory source) (\<lambda>_.
               io_then (lift_result (validate_base_chunks base_chunks chunk_size log_size)) (\<lambda>_.
               io_each (\<lambda>chunk.
                 let name = cow_chunk_name (base_chunk_number chunk) in
                 io_then (verify_file L (source @ [name]) (base_size chunk) (base_digest chunk)) (\<lambda>_.
                 try_sys (hard_link (source @ [name]) (temporary @ [name])))) base_chunks))
             else fail StateConflict) (\<lambda>_.
          io_then (sync_cow_files temporary) (\<lambda>_.
          io_then (cow_manifest_in L temporary chunk_size log_size) (\<lambda>manifest.
          if man_logical_size manifest \<noteq> log_size \<or> man_digest manifest \<noteq> digest
          then fail CorruptObject else ret ())))))))"

text \<open>After a failure the temporary directory is removed; a failing removal hides the error.\<close>

definition remove_and_fail :: "path \<Rightarrow> StorageError \<Rightarrow> unit io" where
  "remove_and_fail temporary e = io_then (remove_cow_directory temporary) (\<lambda>_. fail e)"

definition begin_cow_write ::
  "storage_lib \<Rightarrow> StorageLayout \<Rightarrow> uuid \<Rightarrow> nat \<Rightarrow> PayloadRecord option \<Rightarrow> CowBaseChunk list \<Rightarrow> uuid
     \<Rightarrow> unit io" where
  "begin_cow_write L root session chunk_size base_payload base_chunks init_id =
     io_then (lift_result (validate_chunk_size chunk_size)) (\<lambda>_.
     io_then (prepare root) (\<lambda>_.
     io_then (cow_directory L root session) (\<lambda>directory.
     io_then (recover_cow_under_lock L root session) (\<lambda>_.
     io_then (path_kind directory) (\<lambda>kind.
     if kind \<noteq> Missing then fail StateConflict
     else
       io_then (parent directory) (\<lambda>directory_parent.
       let temporary = directory_parent @ [initialization_prefix L session @ uuid_text L init_id] in
       io_then (create_secure_directory temporary) (\<lambda>_.
       io_then (verify_same_owner temporary directory_parent) (\<lambda>_.
       match_io (initialize_cow L root temporary chunk_size base_payload base_chunks) (\<lambda>r.
       case r of
         Err e \<Rightarrow> remove_and_fail temporary e
       | Ok _ \<Rightarrow>
           io_then (sync_directory temporary) (\<lambda>_.
           match_sys (rename temporary directory) (\<lambda>r'.
           case r' of
             Err e \<Rightarrow> remove_and_fail temporary (Io e)
           | Ok _ \<Rightarrow> sync_directory directory_parent)))))))))))"

text \<open>\<open>result.and(cleanup)\<close>: the first error wins.\<close>

definition probe_sparse_files_blocking ::
  "storage_lib \<Rightarrow> StorageLayout \<Rightarrow> uuid \<Rightarrow> uuid \<Rightarrow> uuid \<Rightarrow> unit io" where
  "probe_sparse_files_blocking L root session operation init_id =
     (let c = MIN_CHUNK_SIZE in
      io_then (begin_cow_write L root session c None [] init_id) (\<lambda>_.
      match_io
        (io_then (write_cow_at L root session operation c 0 0 (replicate c (CHR 0x01))) (\<lambda>_.
         io_then (cow_next_data L root session c c 0) (\<lambda>found.
         if found \<noteq> Some 0 then fail UnsupportedFilesystem
         else
           io_then (deallocate_cow_range L root session operation c c 0 c) (\<lambda>_.
           io_then (cow_next_data L root session c c 0) (\<lambda>data.
           if data \<noteq> None then fail UnsupportedFilesystem
           else
             io_then (cow_next_hole L root session c c 0) (\<lambda>hole.
             if hole \<noteq> Some 0 then fail UnsupportedFilesystem
             else
               io_then (allocate_cow_range L root session operation c c 0 c) (\<lambda>_.
               io_then (cow_chunk_allocated_bytes L root session 0) (\<lambda>n.
               if n = 0 then fail UnsupportedFilesystem else ret ()))))))))
        (\<lambda>result.
      match_io (abort_cow L root session) (\<lambda>cleanup.
      lift_result (and_then result (\<lambda>_. cleanup))))))"

text \<open>
  A chunk name is read with \<open>str::parse\<close>, so eight characters that start with a plus sign count as
  a chunk number here, while the check of part names demands eight digits.
\<close>

lemma cow_chunk_name_with_sign:
  "parse_cow_chunk_name ''+0000001.part'' = Ok 1 \<and> \<not> is_part_file_name ''+0000001.part''"
proof -
  have "utf8_valid ''+0000001.part''" "strip_suffix_str ''.part'' ''+0000001.part'' = Some ''+0000001''"
    "list_all is_ascii_digit ''0000001''" "decimal_value ''0000001'' = 1" "\<not> is_part_file_name ''+0000001.part''"
    by code_simp+
  then show ?thesis by (simp add: parse_cow_chunk_name_def parse_u64_def U64_MAX_def)
qed

end
