(* ===== verification/Worker_Gate.thy ===== *)
theory Worker_Gate
  imports Worker_Types Cow_Staging
begin

text \<open>
  The decisions of the storage worker that need no I/O: which capability text a request carries,
  what a verified capability authorizes, and whether the records the database returns agree with
  the signed claims.
\<close>

section \<open>Capabilities of a request\<close>

definition header_str :: "worker_lib \<Rightarrow> HeaderMap \<Rightarrow> string \<Rightarrow> string option" where
  "header_str W headers name = Option.bind (headers name) (header_to_str W)"

definition starts_with :: "string \<Rightarrow> string \<Rightarrow> bool" where
  "starts_with p s \<longleftrightarrow> strip_prefix p s \<noteq> None"

definition with_prefix :: "string \<Rightarrow> string \<Rightarrow> string" where
  "with_prefix p credential = (if starts_with p credential then credential else p @ credential)"

definition mount_capability_wire :: "worker_lib \<Rightarrow> HeaderMap \<Rightarrow> string option" where
  "mount_capability_wire W headers =
     Option.bind (header_str W headers ''authorization'') (\<lambda>value.
     if starts_with ''fbcap2.'' value then Some value
     else
       Option.bind (split_once (CHR '' '') value) (\<lambda>(scheme, credential).
       if eq_ignore_ascii_case scheme ''fbcap2'' then Some (with_prefix ''fbcap2.'' credential)
       else None))"

text \<open>The cookies are searched only when the authorization header carries no capability.\<close>

fun find_map :: "('a \<Rightarrow> 'b option) \<Rightarrow> 'a list \<Rightarrow> 'b option" where
  "find_map f [] = None"
| "find_map f (x # xs) = (case f x of Some y \<Rightarrow> Some y | None \<Rightarrow> find_map f xs)"

text \<open>\<open>str::trim\<close> on ASCII text.\<close>

definition is_whitespace :: "char \<Rightarrow> bool" where
  "is_whitespace c \<longleftrightarrow> byte c = 32 \<or> 9 \<le> byte c \<and> byte c \<le> 13"

definition str_trim :: "string \<Rightarrow> string" where
  "str_trim s = rev (dropWhile is_whitespace (rev (dropWhile is_whitespace s)))"

definition cookie_capability :: "string \<Rightarrow> string option" where
  "cookie_capability cookie =
     Option.bind (split_once (CHR ''='') (str_trim cookie)) (\<lambda>(name, value).
     if name \<in> set CAPABILITY_COOKIE_NAMES then Some value else None)"

definition capability_wire :: "worker_lib \<Rightarrow> HeaderMap \<Rightarrow> string option" where
  "capability_wire W headers =
     (let from_cookie =
        Option.bind (header_str W headers ''cookie'') (\<lambda>cookies.
          find_map cookie_capability (split_on (CHR '';'') cookies)) in
      case header_str W headers ''authorization'' of
        None \<Rightarrow> from_cookie
      | Some value \<Rightarrow>
          if starts_with ''fbcap1.'' value then Some value
          else
            case split_once (CHR '' '') value of
              Some (scheme, credential) \<Rightarrow>
                if eq_ignore_ascii_case scheme ''fbcap1'' then Some (with_prefix ''fbcap1.'' credential)
                else from_cookie
            | None \<Rightarrow> from_cookie)"

definition parse_required_uuid :: "worker_lib \<Rightarrow> string \<Rightarrow> (uuid, AppError) result" where
  "parse_required_uuid W value = ok_or (cap_uuid_parse (caps W) value) Unauthorized"

definition parse_required_non_nil_uuid :: "worker_lib \<Rightarrow> string \<Rightarrow> (uuid, AppError) result" where
  "parse_required_non_nil_uuid W value =
     and_then (parse_required_uuid W value) (\<lambda>identifier.
     if identifier = 0 then Err Unauthorized else Ok identifier)"

definition parse_required_mount_uuid :: "worker_lib \<Rightarrow> string \<Rightarrow> (uuid, AppError) result" where
  "parse_required_mount_uuid W value =
     and_then (parse_required_uuid W value) (\<lambda>identifier.
     if identifier = 0 then Err Unauthorized else Ok identifier)"

text \<open>\<open>i64::try_from\<close> of a \<open>u64\<close>: the same bits, if the value fits.\<close>

definition i64_from_u64 :: "u64 \<Rightarrow> i64 option" where
  "i64_from_u64 v = (if unat v < 2 ^ 63 then Some v else None)"

definition mount_generation :: "u64 \<Rightarrow> (i64, AppError) result" where
  "mount_generation value = ok_or (i64_from_u64 value) Unauthorized"

section \<open>Authorization\<close>

definition verify_capability_for_operation ::
  "worker_lib \<Rightarrow> string \<Rightarrow> CapabilityOperation \<Rightarrow> i64 \<Rightarrow> Keyset \<Rightarrow> Keyset option \<Rightarrow> Keyset option
     \<Rightarrow> Keyset option \<Rightarrow> (CapabilityClaims, AppError) result" where
  "verify_capability_for_operation W wire operation now api collaboration document revision =
     (let api_use = (\<lambda>u. map_ok verified_claims (map_err (\<lambda>_. Unauthorized)
            (verify_api_storage_capability (caps W) wire api CAPABILITY_AUDIENCE u now)));
          collaboration_use = (\<lambda>u. and_then (ok_or collaboration Unauthorized) (\<lambda>ks.
            map_ok verified_claims (map_err (\<lambda>_. Unauthorized)
              (verify_collaboration_storage_capability (caps W) wire ks CAPABILITY_AUDIENCE u now))));
          document_use = (\<lambda>u. and_then (ok_or document Unauthorized) (\<lambda>ks.
            map_ok verified_claims (map_err (\<lambda>_. Unauthorized)
              (verify_document_storage_capability (caps W) wire ks CAPABILITY_AUDIENCE u now))));
          revision_use = (\<lambda>u. and_then (ok_or revision Unauthorized) (\<lambda>ks.
            map_ok verified_claims (map_err (\<lambda>_. Unauthorized)
              (verify_revision_storage_capability (caps W) wire ks CAPABILITY_AUDIENCE u now)))) in
      case operation of
        CapabilityOperation.UploadPart \<Rightarrow> api_use ApiStorageCapabilityUse.UploadPart
      | CapabilityOperation.FinalizeUpload \<Rightarrow> api_use ApiStorageCapabilityUse.FinalizeUpload
      | CapabilityOperation.Download \<Rightarrow> api_use ApiStorageCapabilityUse.Download
      | CapabilityOperation.WriteCollaborationObject \<Rightarrow> collaboration_use WriteObject
      | CapabilityOperation.FinalizeCollaborationObject \<Rightarrow> collaboration_use FinalizeObject
      | CapabilityOperation.ReadCollaborationObject \<Rightarrow> collaboration_use ReadObject
      | CapabilityOperation.ReadDocumentVersion \<Rightarrow> document_use ReadVersion
      | CapabilityOperation.WriteDocumentRevision \<Rightarrow> document_use WriteRevision
      | CapabilityOperation.FinalizeDocumentRevision \<Rightarrow> document_use FinalizeRevision
      | CapabilityOperation.WriteRevisionChunk \<Rightarrow> revision_use WriteChunk
      | CapabilityOperation.ReadRevisionChunk \<Rightarrow> revision_use ReadChunk
      | CapabilityOperation.DeleteRevisionChunk \<Rightarrow> revision_use DeleteChunk
      | CapabilityOperation.ReadRevisionLegacyPayload \<Rightarrow> revision_use ReadLegacyPayload
      | _ \<Rightarrow> Err Unauthorized)"

definition authorize ::
  "worker_lib \<Rightarrow> u64 option \<Rightarrow> AppState \<Rightarrow> HeaderMap \<Rightarrow> CapabilityOperation
     \<Rightarrow> (AuthorizedCapability, AppError) result" where
  "authorize W seconds state headers operation =
     and_then (ok_or (capability_wire W headers) Unauthorized) (\<lambda>wire.
     and_then (map_err (\<lambda>_. Unauthorized) (unix_time_now seconds)) (\<lambda>now.
     and_then (verify_capability_for_operation W wire operation now (api_storage_keys state)
       (collaboration_storage_keys state) (document_storage_keys state) (revision_storage_keys state)) (\<lambda>claims.
     and_then (parse_required_uuid W (cap_tenant_id claims)) (\<lambda>tenant_id.
     if tenant_id \<noteq> app_tenant_id state then Err Forbidden
     else
       and_then (parse_required_uuid W (cap_principal_id claims)) (\<lambda>principal_id.
       and_then (parse_required_uuid W (cap_resource_id claims)) (\<lambda>resource_id.
       and_then (parse_required_uuid W (cap_capability_id claims)) (\<lambda>capability_id.
       and_then (parse_required_uuid W (cap_session_id claims)) (\<lambda>session_id.
       Ok \<lparr>auth_claims = claims, auth_tenant_id = tenant_id, auth_session_id = session_id,
         auth_principal_id = principal_id, auth_resource_id = resource_id,
         auth_capability_id = capability_id\<rparr>))))))))"

definition mount_write_fence ::
  "worker_lib \<Rightarrow> uuid \<Rightarrow> MountCapabilityClaims \<Rightarrow> (MountWriteCapabilityFence, AppError) result" where
  "mount_write_fence W tenant_id claims =
     and_then (parse_required_mount_uuid W (mnt_principal_id claims)) (\<lambda>principal_id.
     and_then (parse_required_mount_uuid W (mnt_mount_session_id claims)) (\<lambda>mount_session_id.
     and_then (parse_required_mount_uuid W (mnt_credential_id claims)) (\<lambda>credential_id.
     and_then (parse_required_mount_uuid W (mnt_grant_id claims)) (\<lambda>handle_id.
     and_then (parse_required_mount_uuid W (mnt_drive_id claims)) (\<lambda>drive_id.
     and_then (parse_required_mount_uuid W (mnt_resource_id claims)) (\<lambda>node_id.
     and_then
       (if mnt_version_id claims = [] then Ok None
        else map_ok Some (parse_required_mount_uuid W (mnt_version_id claims))) (\<lambda>version_id.
     and_then (parse_required_mount_uuid W (mnt_write_session_id claims)) (\<lambda>write_session_id.
     and_then (mount_generation (mnt_credential_generation claims)) (\<lambda>credential_generation.
     and_then (mount_generation (mnt_authorization_generation claims)) (\<lambda>authorization_generation.
     and_then (mount_generation (mnt_membership_generation claims)) (\<lambda>membership_generation.
     and_then (mount_generation (mnt_drive_acl_generation claims)) (\<lambda>drive_acl_generation.
     and_then (mount_generation (mnt_namespace_generation claims)) (\<lambda>namespace_generation.
     and_then (mount_generation (mnt_resource_acl_generation claims)) (\<lambda>resource_acl_generation.
     and_then (mount_generation (mnt_gateway_epoch claims)) (\<lambda>gateway_epoch.
     and_then (mount_generation (mnt_fencing_token claims)) (\<lambda>fencing_token.
     Ok \<lparr>wf_tenant_id = tenant_id, wf_principal_id = principal_id,
       wf_mount_session_id = mount_session_id, wf_credential_id = credential_id,
       wf_handle_id = handle_id, wf_drive_id = drive_id, wf_node_id = node_id,
       wf_version_id = version_id, wf_write_session_id = write_session_id,
       wf_credential_generation = credential_generation,
       wf_authorization_generation = authorization_generation,
       wf_membership_generation = membership_generation,
       wf_drive_acl_generation = drive_acl_generation,
       wf_namespace_generation = namespace_generation,
       wf_resource_acl_generation = resource_acl_generation,
       wf_gateway_epoch = gateway_epoch, wf_fencing_token = fencing_token\<rparr>))))))))))))))))"

definition authorize_mount_write ::
  "worker_lib \<Rightarrow> u64 option \<Rightarrow> AppState \<Rightarrow> HeaderMap \<Rightarrow> MountStorageCapabilityUse
     \<Rightarrow> (AuthorizedMountWrite, AppError) result" where
  "authorize_mount_write W seconds state headers purpose =
     and_then (ok_or (mount_capability_wire W headers) Unauthorized) (\<lambda>wire.
     and_then (map_err (\<lambda>_. Unauthorized) (unix_time_now seconds)) (\<lambda>now.
     and_then (ok_or (mount_storage_keys state) Unauthorized) (\<lambda>ks.
     and_then (map_err (\<lambda>_. Unauthorized)
       (verify_mount_storage_capability (caps W) wire ks CAPABILITY_AUDIENCE purpose now)) (\<lambda>verified.
     let claims = verified_claims verified in
     and_then (parse_required_mount_uuid W (mnt_tenant_id claims)) (\<lambda>tenant_id.
     if tenant_id \<noteq> app_tenant_id state then Err Forbidden
     else
       and_then (mount_write_fence W tenant_id claims) (\<lambda>fence.
       Ok \<lparr>mw_claims = claims, mw_fence = fence\<rparr>))))))"

definition mount_read_fence ::
  "worker_lib \<Rightarrow> MountCapabilityClaims \<Rightarrow> (MountReadCapabilityFence, AppError) result" where
  "mount_read_fence W claims =
     and_then (parse_required_mount_uuid W (mnt_tenant_id claims)) (\<lambda>tenant_id.
     and_then (parse_required_mount_uuid W (mnt_principal_id claims)) (\<lambda>principal_id.
     and_then (parse_required_mount_uuid W (mnt_mount_session_id claims)) (\<lambda>mount_session_id.
     and_then (parse_required_mount_uuid W (mnt_credential_id claims)) (\<lambda>credential_id.
     and_then (parse_required_mount_uuid W (mnt_grant_id claims)) (\<lambda>handle_id.
     and_then (parse_required_mount_uuid W (mnt_drive_id claims)) (\<lambda>drive_id.
     and_then (parse_required_mount_uuid W (mnt_resource_id claims)) (\<lambda>node_id.
     and_then (parse_required_mount_uuid W (mnt_version_id claims)) (\<lambda>version_id.
     and_then (mount_generation (mnt_credential_generation claims)) (\<lambda>credential_generation.
     and_then (mount_generation (mnt_authorization_generation claims)) (\<lambda>authorization_generation.
     and_then (mount_generation (mnt_membership_generation claims)) (\<lambda>membership_generation.
     and_then (mount_generation (mnt_drive_acl_generation claims)) (\<lambda>drive_acl_generation.
     and_then (mount_generation (mnt_namespace_generation claims)) (\<lambda>namespace_generation.
     and_then (mount_generation (mnt_resource_acl_generation claims)) (\<lambda>resource_acl_generation.
     and_then (mount_generation (mnt_gateway_epoch claims)) (\<lambda>gateway_epoch.
     Ok \<lparr>rf_tenant_id = tenant_id, rf_principal_id = principal_id,
       rf_mount_session_id = mount_session_id, rf_credential_id = credential_id,
       rf_handle_id = handle_id, rf_drive_id = drive_id, rf_node_id = node_id,
       rf_version_id = version_id,
       rf_credential_generation = credential_generation,
       rf_authorization_generation = authorization_generation,
       rf_membership_generation = membership_generation,
       rf_drive_acl_generation = drive_acl_generation,
       rf_namespace_generation = namespace_generation,
       rf_resource_acl_generation = resource_acl_generation,
       rf_gateway_epoch = gateway_epoch\<rparr>)))))))))))))))"

definition authorize_mount_read ::
  "worker_lib \<Rightarrow> u64 option \<Rightarrow> AppState \<Rightarrow> HeaderMap \<Rightarrow> (AuthorizedMountRead, AppError) result" where
  "authorize_mount_read W seconds state headers =
     and_then (ok_or (mount_capability_wire W headers) Unauthorized) (\<lambda>wire.
     and_then (map_err (\<lambda>_. Unauthorized) (unix_time_now seconds)) (\<lambda>now.
     and_then (ok_or (mount_storage_keys state) Unauthorized) (\<lambda>ks.
     and_then (map_err (\<lambda>_. Unauthorized)
       (verify_mount_storage_read_capability (caps W) wire ks CAPABILITY_AUDIENCE now)) (\<lambda>verified.
     let claims = verified_claims verified in
     and_then (mount_read_fence W claims) (\<lambda>fence.
     if rf_tenant_id fence \<noteq> app_tenant_id state then Err Forbidden
     else Ok \<lparr>mr_claims = claims, mr_fence = fence\<rparr>)))))"

section \<open>Claims against requests and records\<close>

record MountIoRequest =
  req_capability_id :: uuid
  req_nonce_digest :: bytes
  req_claims_digest :: bytes
  req_operation :: MountIoOperation
  req_range_start :: "i64 option"
  req_range_end :: "i64 option"
  req_content_blake3 :: "bytes option"

definition nonce_digest :: "worker_lib \<Rightarrow> bytes \<Rightarrow> bytes \<Rightarrow> bytes" where
  "nonce_digest W domain nonce = blake3_hash (caps W) (domain @ nonce)"

definition claims_content_digest :: "MountCapabilityClaims \<Rightarrow> (bytes, AppError) result" where
  "claims_content_digest claims =
     (if length (mnt_content_blake3 claims) = 32 then Ok (mnt_content_blake3 claims) else Err Forbidden)"

definition range_operation :: "MountIoOperation \<Rightarrow> bool" where
  "range_operation operation \<longleftrightarrow>
     operation \<in> {MountIoOperation.WriteData, MountIoOperation.HoleDeallocate, MountIoOperation.Allocate,
                  MountIoOperation.SeekData, MountIoOperation.SeekHole}"

definition request_bound :: "MountIoOperation \<Rightarrow> u64 \<Rightarrow> (i64 option, AppError) result" where
  "request_bound operation v =
     (if range_operation operation then map_ok Some (ok_or (i64_from_u64 v) Forbidden) else Ok None)"

definition mount_io_request_from_claims ::
  "worker_lib \<Rightarrow> MountCapabilityClaims \<Rightarrow> MountIoOperation \<Rightarrow> (MountIoRequest, AppError) result" where
  "mount_io_request_from_claims W claims operation =
     and_then
       (if operation = MountIoOperation.WriteData then map_ok Some (claims_content_digest claims)
        else Ok None) (\<lambda>content_blake3.
     and_then (parse_required_mount_uuid W (mnt_capability_id claims)) (\<lambda>capability_id.
     and_then (request_bound operation (mnt_range_start claims)) (\<lambda>range_start.
     and_then (request_bound operation (mnt_range_end claims)) (\<lambda>range_end.
     Ok \<lparr>req_capability_id = capability_id,
       req_nonce_digest = nonce_digest W (''filebelt-mount-capability-nonce-v2'' @ [CHR 0x00]) (mnt_nonce claims),
       req_claims_digest = mount_capability_claims_digest (caps W) claims,
       req_operation = operation, req_range_start = range_start, req_range_end = range_end,
       req_content_blake3 = content_blake3\<rparr>))))"

definition mount_io_request_input :: "MountIoRequest \<Rightarrow> AuthorizedMountWrite \<Rightarrow> BeginMountIoOperationInput" where
  "mount_io_request_input request authorized =
     \<lparr>io_fence = mw_fence authorized, io_capability_id = req_capability_id request,
      io_nonce_digest = req_nonce_digest request, io_claims_digest = req_claims_digest request,
      io_operation = req_operation request, io_range_start = req_range_start request,
      io_range_end = req_range_end request, io_content_blake3 = req_content_blake3 request,
      io_expires_at = mnt_expires_at_unix_seconds (mw_claims authorized)\<rparr>"

definition reject_unsigned_mount_mode :: "HeaderMap \<Rightarrow> (unit, AppError) result" where
  "reject_unsigned_mount_mode headers =
     (if headers ''x-filebelt-mount-write-mode'' \<noteq> None
      then Err (BadRequest ''unsigned_mount_write_mode'') else Ok ())"

definition require_mount_binary_content_type :: "worker_lib \<Rightarrow> HeaderMap \<Rightarrow> (unit, AppError) result" where
  "require_mount_binary_content_type W headers =
     (if header_str W headers ''content-type'' = Some ''application/octet-stream'' then Ok ()
      else Err (BadRequest ''invalid_content_type''))"

definition mount_claim_range_length :: "MountCapabilityClaims \<Rightarrow> (nat, AppError) result" where
  "mount_claim_range_length claims =
     map_ok unat
       (ok_or (Option.bind (checked_sub (mnt_range_end claims) (mnt_range_start claims))
                 (\<lambda>difference. checked_add difference 1)) Forbidden)"

text \<open>A body is the list of the chunks its stream yields; \<open>None\<close> is a transport error.\<close>

fun read_body_chunks :: "nat \<Rightarrow> bytes option list \<Rightarrow> bytes \<Rightarrow> (bytes, AppError) result" where
  "read_body_chunks expected_size [] bytes =
     (if length bytes = expected_size then Ok bytes else Err (Conflict ''mount_write_size_mismatch''))"
| "read_body_chunks expected_size (None # stream) bytes = Err (BadRequest ''invalid_request_body'')"
| "read_body_chunks expected_size (Some chunk # stream) bytes =
     and_then (ok_or (u64_checked_add (length bytes) (length chunk)) (BadRequest ''mount_write_too_large'')) (\<lambda>next_size.
     if next_size > expected_size then Err (Conflict ''mount_write_size_mismatch'')
     else read_body_chunks expected_size stream (bytes @ chunk))"

definition read_mount_body_exact :: "bytes option list \<Rightarrow> nat \<Rightarrow> (bytes, AppError) result" where
  "read_mount_body_exact body expected_size = read_body_chunks expected_size body []"

definition validate_mount_storage_record ::
  "AppState \<Rightarrow> AuthorizedMountWrite \<Rightarrow> MountWriteStorageRecord \<Rightarrow> (unit, AppError) result" where
  "validate_mount_storage_record state authorized r =
     (let fence = mw_fence authorized; staging = st_staging_payload r in
      if st_write_session_id r \<noteq> wf_write_session_id fence
         \<or> pay_tenant_id staging \<noteq> wf_tenant_id fence
         \<or> pay_drive_id staging \<noteq> wf_drive_id fence
         \<or> pay_backend_id staging \<noteq> app_backend_id state
         \<or> pay_layout staging \<noteq> ''chunked''
         \<or> (case st_base_payload r of
              None \<Rightarrow> False
            | Some payload \<Rightarrow>
                pay_tenant_id payload \<noteq> wf_tenant_id fence \<or> pay_drive_id payload \<noteq> wf_drive_id fence
                \<or> pay_backend_id payload \<noteq> app_backend_id state \<or> pay_state payload \<noteq> ''referenced'')
      then Err Forbidden else Ok ())"

definition validate_mount_write_body_digest ::
  "worker_lib \<Rightarrow> MountCapabilityClaims \<Rightarrow> bytes \<Rightarrow> (unit, AppError) result" where
  "validate_mount_write_body_digest W claims bs =
     and_then (claims_content_digest claims) (\<lambda>expected.
     if blake3_hash (caps W) bs \<noteq> expected then Err (Conflict ''mount_write_digest_mismatch'') else Ok ())"

definition i64_checked_add :: "i64 \<Rightarrow> i64 \<Rightarrow> i64 option" where
  "i64_checked_add a b =
     (if - (2 ^ 63) \<le> sint a + sint b \<and> sint a + sint b < 2 ^ 63 then Some (a + b) else None)"

fun chunk_plan_loop ::
  "MountWriteStorageRecord \<Rightarrow> nat \<Rightarrow> nat \<Rightarrow> nat \<Rightarrow> MountWriteChunkPlan list \<Rightarrow> uuid set \<Rightarrow> i64
     \<Rightarrow> (i64, AppError) result" where
  "chunk_plan_loop r size_limit count index [] locators planned_bytes = Ok planned_bytes"
| "chunk_plan_loop r size_limit count index (chunk # chunks) locators planned_bytes =
     and_then (ok_or (u64_try_from (plan_size_bytes chunk)) Forbidden) (\<lambda>sz.
     let source_pair_valid =
       (case (plan_source_payload_id chunk, plan_source_chunk_number chunk) of
          (Some payload_id, Some source_chunk_number) \<Rightarrow>
            (case st_base_payload r of None \<Rightarrow> False | Some payload \<Rightarrow> pay_payload_id payload = payload_id)
            \<and> source_chunk_number = plan_chunk_number chunk
        | (None, None) \<Rightarrow> True
        | _ \<Rightarrow> False) in
     if sint (plan_chunk_number chunk) \<noteq> int index \<or> sz = 0 \<or> sz > size_limit
        \<or> index + 1 < count \<and> sz \<noteq> size_limit
        \<or> plan_staging_locator chunk = 0 \<or> plan_staging_locator chunk \<in> locators
        \<or> \<not> source_pair_valid
     then Err Forbidden
     else
       and_then (ok_or (i64_checked_add planned_bytes (plan_size_bytes chunk)) Forbidden) (\<lambda>total_bytes.
       chunk_plan_loop r size_limit count (index + 1) chunks (insert (plan_staging_locator chunk) locators) total_bytes))"

definition validate_mount_chunk_plan ::
  "MountWriteStorageRecord \<Rightarrow> nat \<Rightarrow> i64 \<Rightarrow> (unit, AppError) result" where
  "validate_mount_chunk_plan r size_limit range_end =
     and_then (chunk_plan_loop r size_limit (length (st_planned_chunks r)) 0 (st_planned_chunks r) {} 0)
       (\<lambda>planned_bytes.
     if planned_bytes \<noteq> st_reserved_bytes r \<or> sint (st_reserved_bytes r) \<le> sint range_end
     then Err Forbidden else Ok ())"

definition validate_mount_range_admission ::
  "AppState \<Rightarrow> AuthorizedMountWrite \<Rightarrow> MountWriteRangeAdmission \<Rightarrow> MountWriteRangeOperation \<Rightarrow> i64 \<Rightarrow> i64
     \<Rightarrow> (unit, AppError) result" where
  "validate_mount_range_admission state authorized admission operation range_start range_end =
     and_then (validate_mount_storage_record state authorized (adm_storage admission)) (\<lambda>_.
     and_then
       (if operation = MountWriteRangeOperation.WriteData
        then map_ok Some (claims_content_digest (mw_claims authorized)) else Ok None) (\<lambda>signed_content_blake3.
     if adm_operation_id admission = 0
        \<or> sint (adm_operation_ordinal admission) \<le> 0
        \<or> adm_operation admission \<noteq> operation
        \<or> adm_content_blake3 admission \<noteq> signed_content_blake3
        \<or> adm_range_start admission \<noteq> range_start
        \<or> adm_range_end admission \<noteq> range_end
        \<or> i64_from_u64 (mnt_range_start (mw_claims authorized)) \<noteq> Some range_start
        \<or> i64_from_u64 (mnt_range_end (mw_claims authorized)) \<noteq> Some range_end
        \<or> sint range_start < 0
        \<or> sint range_end < sint range_start
        \<or> sint (st_reserved_bytes (adm_storage admission)) \<le> sint range_end
        \<or> sint (adm_resulting_logical_size admission) < 0
        \<or> sint (adm_resulting_logical_size admission) > sint (st_reserved_bytes (adm_storage admission))
        \<or> adm_resulting_logical_size admission \<noteq> st_logical_size_bytes (adm_storage admission)
     then Err Forbidden
     else validate_mount_chunk_plan (adm_storage admission) (chunk_size state) range_end))"

definition validate_mount_range_readmission ::
  "MountWriteRangeAdmission \<Rightarrow> MountWriteRangeAdmission \<Rightarrow> (unit, AppError) result" where
  "validate_mount_range_readmission before after =
     (if adm_operation_id before \<noteq> adm_operation_id after
         \<or> adm_operation_ordinal before \<noteq> adm_operation_ordinal after
         \<or> adm_operation before \<noteq> adm_operation after
         \<or> adm_content_blake3 before \<noteq> adm_content_blake3 after
         \<or> adm_range_start before \<noteq> adm_range_start after
         \<or> adm_range_end before \<noteq> adm_range_end after
         \<or> adm_resulting_logical_size before \<noteq> adm_resulting_logical_size after
         \<or> st_reserved_bytes (adm_storage before) \<noteq> st_reserved_bytes (adm_storage after)
         \<or> st_logical_size_bytes (adm_storage before) \<noteq> st_logical_size_bytes (adm_storage after)
         \<or> st_planned_chunks (adm_storage before) \<noteq> st_planned_chunks (adm_storage after)
      then Err Forbidden else Ok ())"

section \<open>Ranges, parts and bindings of the other capabilities\<close>

text \<open>The byte range of a download, from the \<open>Range\<close> header and the signed range.\<close>

definition header_range :: "string \<Rightarrow> nat \<Rightarrow> (nat \<times> nat, AppError) result" where
  "header_range value sz =
     and_then (ok_or (strip_prefix ''bytes='' value) Range) (\<lambda>value.
     if CHR '','' \<in> set value then Err Range
     else
       and_then (ok_or (split_once (CHR ''-'') value) Range) (\<lambda>(start_text, end_text).
       if start_text = [] then
         and_then (ok_or (parse_u64 end_text) Range) (\<lambda>suffix_length.
         if suffix_length = 0 then Err Range else Ok (sz - suffix_length, sz - 1))
       else
         and_then (ok_or (parse_u64 start_text) Range) (\<lambda>start.
         and_then
           (if end_text = [] then Ok (sz - 1)
            else map_ok (\<lambda>e. min e (sz - 1)) (ok_or (parse_u64 end_text) Range)) (\<lambda>limit.
         Ok (start, limit)))))"

definition requested_range ::
  "worker_lib \<Rightarrow> bytes option \<Rightarrow> nat \<Rightarrow> CapabilityClaims \<Rightarrow> (nat \<times> nat \<times> bool, AppError) result" where
  "requested_range W header sz claims =
     (let first = unat (cap_range_start claims); final = unat (cap_range_end claims) in
      if sz = 0 then
        (if header \<noteq> None \<or> first \<noteq> 0 \<or> final \<noteq> 0 then Err Range else Ok (0, 0, False))
      else if first > final \<or> final \<ge> sz then Err Forbidden
      else
        case header of
          None \<Rightarrow> Ok (first, final, first \<noteq> 0 \<or> final \<noteq> sz - 1)
        | Some value \<Rightarrow>
            and_then (ok_or (header_to_str W value) Range) (\<lambda>value.
            and_then (header_range value sz) (\<lambda>(start, limit).
            if start > limit \<or> start < first \<or> limit > final then Err Range
            else Ok (start, limit, True))))"

text \<open>The size of one part of an upload: every part but the last is a full chunk.\<close>

definition expected_part_size :: "UploadRecord \<Rightarrow> i32 \<Rightarrow> (nat, AppError) result" where
  "expected_part_size upload n =
     (if sint n < 0 \<or> sint n \<ge> sint (up_part_count upload) \<or> sint (up_part_count upload) \<le> 0
      then Err (BadRequest ''invalid_part_number'')
      else
        and_then (ok_or (u64_try_from (up_declared_size_bytes upload)) Internal) (\<lambda>declared.
        and_then (ok_or (u64_try_from (up_chunk_size_bytes upload)) Internal) (\<lambda>chunk.
        and_then (ok_or (u64_try_from n) (BadRequest ''invalid_part_number'')) (\<lambda>part.
        if sint (up_part_count upload) = 1 then Ok declared
        else
          and_then (ok_or (u64_checked_mul chunk part) Internal) (\<lambda>offset.
          and_then (ok_or (if offset \<le> declared then Some (declared - offset) else None) Internal) (\<lambda>remaining.
          if sint n + 1 = sint (up_part_count upload) then Ok remaining
          else if remaining \<ge> chunk then Ok chunk
          else Err Internal))))))"

definition validate_exact_range :: "AuthorizedCapability \<Rightarrow> nat \<Rightarrow> (unit, AppError) result" where
  "validate_exact_range authorized expected_size =
     (let first = unat (cap_range_start (auth_claims authorized));
          final = unat (cap_range_end (auth_claims authorized)) in
      if first \<noteq> 0 \<or> expected_size = 0 \<and> final \<noteq> 0
         \<or> expected_size > 0 \<and> final \<noteq> expected_size - 1
      then Err Forbidden else Ok ())"

definition validate_upload_capability ::
  "AuthorizedCapability \<Rightarrow> UploadRecord \<Rightarrow> uuid \<Rightarrow> uuid \<Rightarrow> (unit, AppError) result" where
  "validate_upload_capability authorized upload claim_payload configured_backend_id =
     (if up_tenant_id upload \<noteq> auth_tenant_id authorized
         \<or> up_owner_principal_id upload \<noteq> auth_principal_id authorized
         \<or> up_backend_id upload \<noteq> configured_backend_id
         \<or> up_payload_id upload \<noteq> claim_payload
         \<or> i64_from_u64 (cap_fencing_token (auth_claims authorized)) \<noteq> Some (up_fencing_token upload)
         \<or> auth_resource_id authorized
            \<noteq> (case up_node_id upload of Some node \<Rightarrow> node | None \<Rightarrow> up_parent_id upload)
      then Err Forbidden else Ok ())"

definition revision_chunk_locator ::
  "worker_lib \<Rightarrow> AuthorizedCapability \<Rightarrow> uuid \<Rightarrow> (RevisionChunkLocator, AppError) result" where
  "revision_chunk_locator W authorized expected_chunk_id =
     (let claims = auth_claims authorized in
      and_then (parse_required_non_nil_uuid W (cap_upload_id claims)) (\<lambda>_.
      and_then (parse_required_non_nil_uuid W (cap_grant_id claims)) (\<lambda>_.
      if expected_chunk_id = 0 then Err Forbidden
      else
        and_then (parse_required_uuid W (cap_payload_id claims)) (\<lambda>payload_id.
        if payload_id \<noteq> expected_chunk_id then Err Forbidden
        else
          and_then (parse_required_non_nil_uuid W (cap_resource_id claims)) (\<lambda>resource_id.
          if resource_id \<noteq> auth_resource_id authorized
             \<or> cap_range_start claims \<noteq> 0
             \<or> length (cap_nonce claims) \<noteq> REVISION_CHUNK_CAPABILITY_NONCE_BYTES
             \<or> list_all (\<lambda>b. b = CHR 0x00) (drop 32 (cap_nonce claims))
          then Err Forbidden
          else
            and_then (ok_or (checked_add (cap_range_end claims) 1) Forbidden) (\<lambda>sz.
            if sz = 0 \<or> unat sz > REVISION_CHUNK_SIZE_BYTES then Err Forbidden
            else
              map_err (\<lambda>_. Forbidden)
                (revision_chunk_locator_new (auth_resource_id authorized) (take 32 (cap_nonce claims)) (unat sz))))))))"

definition validate_revision_legacy_payload_capability ::
  "worker_lib \<Rightarrow> AuthorizedCapability \<Rightarrow> uuid \<Rightarrow> (unit, AppError) result" where
  "validate_revision_legacy_payload_capability W authorized expected_payload_id =
     (let claims = auth_claims authorized in
      and_then (parse_required_non_nil_uuid W (cap_grant_id claims)) (\<lambda>_.
      and_then (parse_required_non_nil_uuid W (cap_resource_id claims)) (\<lambda>_.
      and_then (parse_required_non_nil_uuid W (cap_upload_id claims)) (\<lambda>_.
      if expected_payload_id = 0 then Err Forbidden
      else
        and_then (parse_required_uuid W (cap_payload_id claims)) (\<lambda>payload_id.
        if payload_id \<noteq> expected_payload_id then Err Forbidden else Ok ())))))"

definition validate_collaboration_capability ::
  "worker_lib \<Rightarrow> AuthorizedCapability \<Rightarrow> CollaborationObjectRecord \<Rightarrow> uuid \<Rightarrow> (unit, AppError) result" where
  "validate_collaboration_capability W authorized object configured_backend_id =
     (let claims = auth_claims authorized in
      and_then (parse_required_uuid W (cap_grant_id claims)) (\<lambda>grant_id.
      if grant_id \<noteq> obj_id object then Err Forbidden
      else
        and_then (parse_required_uuid W (cap_upload_id claims)) (\<lambda>room_id.
        if room_id \<noteq> obj_room_id object then Err Forbidden
        else
          and_then (parse_required_uuid W (cap_payload_id claims)) (\<lambda>payload_id.
          if payload_id \<noteq> obj_payload_id object
             \<or> auth_resource_id authorized \<noteq> obj_node_id object
             \<or> obj_backend_id object \<noteq> configured_backend_id
             \<or> i64_from_u64 (cap_fencing_token claims) \<noteq> Some (obj_fencing_token object)
          then Err Forbidden else Ok ()))))"

definition storage_keyset_entries :: "Keyset option \<Rightarrow> bytes list" where
  "storage_keyset_entries ks = (case ks of None \<Rightarrow> [] | Some k \<Rightarrow> map snd (keys k))"

definition validate_storage_keyset_disjointness ::
  "Keyset \<Rightarrow> Keyset option \<Rightarrow> Keyset option \<Rightarrow> Keyset option \<Rightarrow> Keyset option \<Rightarrow> (unit, string) result" where
  "validate_storage_keyset_disjointness api collaboration document revision mount =
     (if public_key_material_is_disjoint
           (storage_keyset_entries (Some api) @ storage_keyset_entries collaboration
            @ storage_keyset_entries document @ storage_keyset_entries revision @ storage_keyset_entries mount)
      then Ok () else Err ''capability public key material is reused across purposes'')"

section \<open>Completed operations and cleanup jobs\<close>

record MountWriteResult =
  res_write_session_id :: uuid
  res_logical_size_bytes :: nat
  res_reservation_delta_bytes :: nat
  res_state :: string

record MountChunkResult =
  chunkres_number :: nat
  chunkres_size_bytes :: nat
  chunkres_blake3 :: string

record MountManifestResult =
  manres_write_session_id :: uuid
  manres_logical_size_bytes :: nat
  manres_blake3 :: string
  manres_chunks :: "MountChunkResult list"
  manres_state :: string

definition hex_digest :: "bytes \<Rightarrow> string" where
  "hex_digest digest = concat (map hex_byte digest)"

definition completed_mount_range_result ::
  "uuid \<Rightarrow> MountIoCompletion \<Rightarrow> (MountWriteResult, AppError) result" where
  "completed_mount_range_result write_session_id completion =
     (case completion of
        Cleanup \<Rightarrow> Err (Conflict ''mount_io_recovered'')
      | RangeMutation log_size delta \<Rightarrow>
          and_then (ok_or (u64_try_from log_size) Internal) (\<lambda>log_bytes.
          and_then (ok_or (u64_try_from delta) Internal) (\<lambda>delta_bytes.
          Ok \<lparr>res_write_session_id = write_session_id, res_logical_size_bytes = log_bytes,
            res_reservation_delta_bytes = delta_bytes, res_state = ''staging''\<rparr>))
      | _ \<Rightarrow> Err Internal)"

definition completed_mount_seek_result :: "MountIoCompletion \<Rightarrow> (nat option, AppError) result" where
  "completed_mount_seek_result completion =
     (case completion of
        Cleanup \<Rightarrow> Err (Conflict ''mount_io_recovered'')
      | SeekDone None \<Rightarrow> Ok None
      | SeekDone (Some value) \<Rightarrow> map_ok Some (ok_or (u64_try_from value) Internal)
      | _ \<Rightarrow> Err Internal)"

definition mount_chunk_result :: "MountWriteChunkEvidence \<Rightarrow> (MountChunkResult, AppError) result" where
  "mount_chunk_result chunk =
     and_then (ok_or (u64_try_from (ev_chunk_number chunk)) Internal) (\<lambda>n.
     and_then (ok_or (u64_try_from (ev_size_bytes chunk)) Internal) (\<lambda>sz.
     Ok \<lparr>chunkres_number = n, chunkres_size_bytes = sz, chunkres_blake3 = hex_digest (ev_blake3 chunk)\<rparr>))"

definition completed_mount_manifest_result ::
  "uuid \<Rightarrow> MountIoCompletion \<Rightarrow> bool \<Rightarrow> (MountManifestResult, AppError) result" where
  "completed_mount_manifest_result write_session_id completion finalized =
     (let answer = (\<lambda>log_size digest chunks.
        and_then (ok_or (u64_try_from log_size) Internal) (\<lambda>log_bytes.
        and_then (collect_ok mount_chunk_result chunks) (\<lambda>results.
        Ok \<lparr>manres_write_session_id = write_session_id, manres_logical_size_bytes = log_bytes,
          manres_blake3 = hex_digest digest, manres_chunks = results,
          manres_state = (if finalized then ''finalized'' else ''flushed'')\<rparr>))) in
      case completion of
        Cleanup \<Rightarrow> Err (Conflict ''mount_io_recovered'')
      | FlushDone log_size digest chunks \<Rightarrow>
          if finalized then Err Internal else answer log_size digest chunks
      | FinalizeDone log_size digest chunks \<Rightarrow>
          if finalized then answer log_size digest chunks else Err Internal
      | _ \<Rightarrow> Err Internal)"

definition completed_mount_staging_result ::
  "uuid \<Rightarrow> MountIoCompletion \<Rightarrow> bool \<Rightarrow> (uuid \<times> string, AppError) result" where
  "completed_mount_staging_result write_session_id completion deleted =
     (case completion of
        Cleanup \<Rightarrow> Err (Conflict ''mount_io_recovered'')
      | AbortDone \<Rightarrow> if deleted then Err Internal else Ok (write_session_id, ''aborted'')
      | DeleteStagingDone \<Rightarrow> if deleted then Ok (write_session_id, ''deleted'') else Err Internal
      | _ \<Rightarrow> Err Internal)"

definition validate_mount_write_lock_cleanup_job ::
  "uuid \<Rightarrow> uuid \<Rightarrow> uuid \<Rightarrow> uuid \<Rightarrow> uuid option \<Rightarrow> MountWriteLockCleanupJobRecord \<Rightarrow> (unit, AppError) result" where
  "validate_mount_write_lock_cleanup_job backend_id worker tenant_id write_session_id
       expected_staging_payload_id job =
     (if lockjob_tenant_id job \<noteq> tenant_id
         \<or> lockjob_write_session_id job \<noteq> write_session_id
         \<or> lockjob_backend_id job \<noteq> backend_id
         \<or> lockjob_worker_id job \<noteq> worker
         \<or> lockjob_staging_payload_id job = 0
         \<or> (case expected_staging_payload_id of
              None \<Rightarrow> False | Some expected \<Rightarrow> expected \<noteq> lockjob_staging_payload_id job)
         \<or> sint (lockjob_fencing_token job) \<le> 0
         \<or> lockjob_state job \<notin> {''leased'', ''completed''}
      then Err Forbidden else Ok ())"

record ExpectedMountCleanupJob =
  exp_backend_id :: uuid
  exp_worker_id :: uuid
  exp_tenant_id :: uuid
  exp_write_session_id :: uuid
  exp_payload :: PayloadRecord
  exp_source_nonce_digest :: "bytes option"
  exp_completion_kind :: string

definition validate_mount_cleanup_job ::
  "ExpectedMountCleanupJob \<Rightarrow> MountStagingCleanupJobRecord \<Rightarrow> (unit, AppError) result" where
  "validate_mount_cleanup_job expected job =
     (let payload = job_payload job; wanted = exp_payload expected;
          states = {''staging'', ''finalized'', ''abandoned'', ''deleting'', ''deleted''} in
      if job_tenant_id job \<noteq> exp_tenant_id expected
         \<or> job_write_session_id job \<noteq> exp_write_session_id expected
         \<or> job_backend_id job \<noteq> exp_backend_id expected
         \<or> job_worker_id job \<noteq> exp_worker_id expected
         \<or> sint (job_fencing_token job) \<le> 0
         \<or> job_state job \<notin> {''leased'', ''physical_deleted''}
         \<or> job_source_nonce_digest job \<noteq> exp_source_nonce_digest expected
         \<or> job_completion_kind job \<noteq> exp_completion_kind expected
         \<or> pay_tenant_id payload \<noteq> pay_tenant_id wanted
         \<or> pay_payload_id payload \<noteq> pay_payload_id wanted
         \<or> pay_drive_id payload \<noteq> pay_drive_id wanted
         \<or> pay_backend_id payload \<noteq> pay_backend_id wanted
         \<or> pay_locator payload \<noteq> pay_locator wanted
         \<or> pay_layout payload \<noteq> pay_layout wanted
         \<or> pay_state wanted \<notin> states
         \<or> pay_state payload \<notin> states
         \<or> pay_size_bytes payload \<noteq> pay_size_bytes wanted
         \<or> pay_blake3 payload \<noteq> pay_blake3 wanted
      then Err Forbidden else Ok ())"

end
