(* ===== verification/Chunk_Bytes.thy ===== *)
theory Chunk_Bytes
  imports Cow_Staging
begin

text \<open>
  Byte sequences cut into chunks: what overwriting and padding a flat sequence do to its chunks.
  These are the pure facts behind the refinement of the copy-on-write operations, whose
  abstract state is the flat content of the file.
\<close>

section \<open>Flat contents\<close>

definition zeros :: "nat \<Rightarrow> bytes" where
  "zeros n = replicate n (CHR 0x00)"

definition pad_to :: "nat \<Rightarrow> bytes \<Rightarrow> bytes" where
  "pad_to n d = d @ zeros (n - length d)"

text \<open>Writing at an offset, with zeros between the old end and the offset.\<close>

definition overwrite :: "bytes \<Rightarrow> nat \<Rightarrow> bytes \<Rightarrow> bytes" where
  "overwrite d offset bs = take offset (pad_to offset d) @ bs @ drop (offset + length bs) d"

lemma length_zeros [simp]: "length (zeros n) = n"
  by (simp add: zeros_def)

lemma zeros_0 [simp]: "zeros 0 = []"
  by (simp add: zeros_def)

lemma zeros_add: "zeros (m + n) = zeros m @ zeros n"
  by (simp add: zeros_def replicate_add)

lemma zeros_nth [simp]: "i < n \<Longrightarrow> zeros n ! i = CHR 0x00"
  by (simp add: zeros_def)

lemma take_zeros [simp]: "take k (zeros n) = zeros (min k n)"
  by (simp add: zeros_def)

lemma drop_zeros [simp]: "drop k (zeros n) = zeros (n - k)"
  by (simp add: zeros_def)

lemma length_pad_to [simp]: "length (pad_to n d) = max n (length d)"
  by (simp add: pad_to_def)

lemma pad_to_le [simp]: "n \<le> length d \<Longrightarrow> pad_to n d = d"
  by (simp add: pad_to_def)

lemma length_overwrite [simp]: "length (overwrite d offset bs) = max (length d) (offset + length bs)"
  by (auto simp: overwrite_def)

lemma overwrite_inside:
  "offset \<le> length d \<Longrightarrow> overwrite d offset bs = take offset d @ bs @ drop (offset + length bs) d"
  by (simp add: overwrite_def)

lemma overwrite_end: "overwrite d (length d) bs = d @ bs"
  by (simp add: overwrite_inside)

lemma overwrite_Nil: "overwrite d offset [] = pad_to offset d"
  by (cases "offset \<le> length d") (simp_all add: overwrite_def pad_to_def)

lemma overwrite_overwrite:
  assumes "offset \<le> length d"
  shows "overwrite (overwrite d offset as) (offset + length as) bs = overwrite d offset (as @ bs)"
proof -
  have "overwrite d offset as = take offset d @ as @ drop (offset + length as) d"
    using assms by (rule overwrite_inside)
  moreover have "offset + length as \<le> length (overwrite d offset as)"
    by simp
  ultimately show ?thesis
    using assms by (simp add: overwrite_inside) (simp add: add.commute add.left_commute)
qed

lemma overwrite_pad_to: "overwrite (pad_to offset d) offset bs = overwrite d offset bs"
proof -
  have "drop (offset + length bs) (pad_to offset d) = drop (offset + length bs) d"
    by (auto simp: pad_to_def)
  then show ?thesis
    by (simp add: overwrite_def pad_to_def)
qed

section \<open>Chunks\<close>

definition chunk_map :: "nat \<Rightarrow> bytes \<Rightarrow> nat \<Rightarrow> bytes option" where
  "chunk_map c d k = (if k * c < length d then Some (take c (drop (k * c) d)) else None)"

definition old_chunk :: "(nat \<Rightarrow> bytes option) \<Rightarrow> nat \<Rightarrow> bytes" where
  "old_chunk m k = (case m k of None \<Rightarrow> [] | Some b \<Rightarrow> b)"

lemma old_chunk_map: "old_chunk (chunk_map c d) k = take c (drop (k * c) d)"
  by (simp add: old_chunk_def chunk_map_def)

lemma chunk_map_overwrite_at:
  assumes off: "k0 * c + w \<le> length d" and w: "w < c"
    and seg: "seg \<noteq> []" "w + length seg \<le> c"
  shows "chunk_map c (overwrite d (k0 * c + w) seg) =
    (chunk_map c d)(k0 \<mapsto> overwrite (old_chunk (chunk_map c d) k0) w seg)"
proof
  fix k
  let ?off = "k0 * c + w" and ?n = "length seg"
  have sp: "overwrite d ?off seg = take ?off d @ seg @ drop (?off + ?n) d"
    using off by (rule overwrite_inside)
  consider (below) "k < k0" | (here) "k = k0" | (above) "k0 < k" by linarith
  then show "chunk_map c (overwrite d ?off seg) k =
    ((chunk_map c d)(k0 \<mapsto> overwrite (old_chunk (chunk_map c d) k0) w seg)) k"
  proof cases
    case below
    then have "(k + 1) * c \<le> k0 * c" by (intro mult_le_mono1) simp
    then have le: "k * c + c \<le> ?off" by simp
    then have lt: "k * c < length d" using off w by linarith
    have "take c (drop (k * c) (overwrite d ?off seg)) = take c (drop (k * c) (take ?off d))"
      using le off by (simp add: sp)
    also have "\<dots> = take c (drop (k * c) d)"
      using le by (simp add: drop_take min_def)
    finally show ?thesis
      using below lt by (simp add: chunk_map_def)
  next
    case here
    let ?old = "take c (drop (k0 * c) d)"
    have wl: "w \<le> length ?old" using off w by simp
    have "drop (k0 * c) (overwrite d ?off seg) = take w (drop (k0 * c) d) @ seg @ drop (?off + ?n) d"
      using off by (simp add: sp drop_take)
    moreover have "length (take w (drop (k0 * c) d)) = w"
      using off by simp
    ultimately have "take c (drop (k0 * c) (overwrite d ?off seg)) =
        take w (drop (k0 * c) d) @ seg @ take (c - w - ?n) (drop (?off + ?n) d)"
      using w seg(2) by simp
    also have "\<dots> = overwrite ?old w seg"
    proof -
      have "drop (w + ?n) ?old = take (c - w - ?n) (drop (?off + ?n) d)"
        by (simp add: drop_take add.commute add.left_commute)
      moreover have "take w ?old = take w (drop (k0 * c) d)"
        using w by (simp add: min_def)
      ultimately show ?thesis using overwrite_inside [OF wl, of seg] by simp
    qed
    finally have "take c (drop (k0 * c) (overwrite d ?off seg)) = overwrite ?old w seg" .
    moreover have "k0 * c < length (overwrite d ?off seg)"
      using seg(1) by (cases seg) auto
    ultimately show ?thesis
      using here by (simp add: chunk_map_def [of c "overwrite d ?off seg"] old_chunk_map)
  next
    case above
    then have "(k0 + 1) * c \<le> k * c" by (intro mult_le_mono1) simp
    then have ge: "?off + ?n \<le> k * c" using seg(2) by simp
    have "drop (k * c) (overwrite d ?off seg) = drop (k * c) d"
      using ge off by (simp add: sp)
    moreover have "k * c < length (overwrite d ?off seg) \<longleftrightarrow> k * c < length d"
      using ge by auto
    ultimately show ?thesis
      using above by (simp add: chunk_map_def)
  qed
qed

lemma chunk_map_pad_at:
  assumes off: "k0 * c + w \<le> length d" and w: "w < c" and n: "0 < n" "w + n \<le> c"
  shows "chunk_map c (pad_to (k0 * c + w + n) d) =
    (chunk_map c d)(k0 \<mapsto> pad_to (w + n) (old_chunk (chunk_map c d) k0))"
proof -
  let ?off = "k0 * c + w" and ?d = "length d" and ?old = "old_chunk (chunk_map c d) k0"
  have old: "length ?old = min c (?d - k0 * c)"
    by (simp add: old_chunk_map)
  show ?thesis
  proof (cases "?off + n \<le> ?d")
    case True
    then have "w + n \<le> length ?old"
      using old n(2) by simp
    moreover have "chunk_map c d k0 = Some ?old"
      using True n(1) by (simp add: old_chunk_map chunk_map_def)
    ultimately show ?thesis using True by (simp add: fun_upd_idem)
  next
    case False
    define w1 where "w1 = ?d - k0 * c"
    have w1: "?d = k0 * c + w1" using off by (simp add: w1_def)
    then have w1c: "w1 < c" "w \<le> w1" using False off n(2) by linarith+
    let ?z = "zeros (?off + n - ?d)"
    have "?off + n - ?d = w + n - w1" using w1 by simp
    then have z: "?z \<noteq> []" "w1 + length ?z \<le> c"
      using w1c n False w1 by (simp_all add: zeros_def)
    have pad: "pad_to (?off + n) d = overwrite d (k0 * c + w1) ?z"
      using False by (simp add: w1 [symmetric] overwrite_end pad_to_def)
    have map: "chunk_map c (overwrite d (k0 * c + w1) ?z) = (chunk_map c d)(k0 \<mapsto> overwrite ?old w1 ?z)"
      by (rule chunk_map_overwrite_at [OF eq_refl [OF w1 [symmetric]] w1c(1) z])
    have len: "length ?old = w1"
      unfolding old using w1 w1c by simp
    have "overwrite ?old w1 ?z = ?old @ ?z"
      using overwrite_end [of ?old ?z] by (simp only: len)
    moreover have "w + n - length ?old = ?off + n - ?d"
      unfolding len using w1 by simp
    ultimately have "overwrite ?old w1 ?z = pad_to (w + n) ?old"
      by (simp only: pad_to_def)
    then show ?thesis by (simp only: pad map)
  qed
qed

lemma chunk_map_overwrite:
  assumes "0 < c" and "offset \<le> length d" and "seg \<noteq> []" "offset mod c + length seg \<le> c"
  shows "chunk_map c (overwrite d offset seg) =
    (chunk_map c d)(offset div c \<mapsto> overwrite (old_chunk (chunk_map c d) (offset div c)) (offset mod c) seg)"
  using chunk_map_overwrite_at [of "offset div c" c "offset mod c" d seg] assms by simp

lemma chunk_map_pad:
  assumes "0 < c" and "offset \<le> length d" and "0 < n" "offset mod c + n \<le> c"
  shows "chunk_map c (pad_to (offset + n) d) =
    (chunk_map c d)(offset div c \<mapsto> pad_to (offset mod c + n) (old_chunk (chunk_map c d) (offset div c)))"
  using chunk_map_pad_at [of "offset div c" c "offset mod c" d n] assms by simp

section \<open>Contents of sparse files\<close>

lemma length_contents [simp]: "length (contents c) = length c"
  by (simp add: contents_def)

lemma contents_resize: "contents (resize n c) = take n (contents c) @ zeros (n - length c)"
  by (simp add: contents_def resize_def zeros_def take_map)

lemma contents_write_cells:
  assumes "pos \<le> length c"
  shows "contents (write_cells pos bs c) = overwrite (contents c) pos bs"
proof (cases "bs = []")
  case True
  with assms show ?thesis by (simp add: write_cells_def overwrite_Nil)
next
  case False
  have "contents (map Data bs) = bs"
    by (induction bs) (simp_all add: contents_def)
  moreover have "write_cells pos bs c = take pos c @ map Data bs @ drop (pos + length bs) c"
    using False assms by (simp add: write_cells_def)
  moreover have "contents (x @ y) = contents x @ contents y" for x y
    by (simp add: contents_def)
  moreover have "contents (take n x) = take n (contents x)" "contents (drop n x) = drop n (contents x)" for n x
    by (simp_all add: contents_def take_map drop_map)
  ultimately show ?thesis
    using assms by (simp only: overwrite_inside length_contents)
qed

end
