(* ===== verification/Cow_Refine.thy ===== *)
theory Cow_Refine
  imports Chunk_Bytes
begin

text \<open>
  The copy-on-write operations against the flat content of the file, for every list of faults:
  what a session holds, what replacing one chunk does to it, and the loops over ranges.
\<close>

section \<open>Names of chunks\<close>

lemma decimal_value_zeros: "decimal_value (replicate k (CHR ''0'') @ s) = decimal_value s"
proof -
  have "foldl (\<lambda>acc c. 10 * acc + (int (byte c) - 48)) 0 (replicate k (CHR ''0'')) = 0"
    by (induction k) (simp_all add: byte_def)
  then show ?thesis by (simp add: decimal_value_def)
qed

lemma zero_pad_decimal: "decimal_value (zero_pad w (decimal n)) = int n"
  by (simp add: zero_pad_def decimal_value_zeros decimal_value_decimal)

lemma cow_chunk_name_inject [simp]: "cow_chunk_name m = cow_chunk_name n \<longleftrightarrow> m = n"
  by (auto simp: cow_chunk_name_def dest: arg_cong [where f = decimal_value])
    (metis of_nat_eq_iff zero_pad_decimal)

lemma zero_pad_digits: "list_all is_ascii_digit (zero_pad w (decimal n))"
  using decimal_digits [of n] by (auto simp: zero_pad_def list_all_iff is_ascii_digit_def byte_def)

lemma hd_cow_chunk_name: "is_ascii_digit (hd (cow_chunk_name n))"
proof -
  have "zero_pad 8 (decimal n) \<noteq> []"
    by (simp add: zero_pad_def)
  with zero_pad_digits [of 8 n] show ?thesis
    by (cases "zero_pad 8 (decimal n)") (simp_all add: cow_chunk_name_def)
qed

lemma writing_name_not_chunk [simp]: "writing_name L k operation \<noteq> cow_chunk_name n"
proof
  assume "writing_name L k operation = cow_chunk_name n"
  then have "is_ascii_digit (hd (writing_name L k operation))"
    using hd_cow_chunk_name by simp
  then show False
    by (simp add: writing_name_def is_ascii_digit_def byte_def)
qed

section \<open>Sessions\<close>

text \<open>What the code relies on from the sparse-file calls of the operating system.\<close>

definition sparse_laws :: "storage_lib \<Rightarrow> bool" where
  "sparse_laws L \<longleftrightarrow>
     (\<forall>c pos. pos < length c \<longrightarrow>
        (case seek_data L c pos of
           Ok d \<Rightarrow> pos \<le> d \<and> d < length c \<and> (\<forall>j. pos \<le> j \<and> j < d \<longrightarrow> contents c ! j = CHR 0x00)
             \<and> (\<exists>h. seek_hole L c d = Ok h \<and> d < h \<and> h \<le> length c)
         | Err e \<Rightarrow> e = NXIO \<and> (\<forall>j. pos \<le> j \<and> j < length c \<longrightarrow> contents c ! j = CHR 0x00)))
     \<and> (\<forall>c pos len. 0 < len \<longrightarrow>
          (\<exists>c'. fallocate L NoFlags pos len c = Ok c' \<and> contents c' = pad_to (pos + len) (contents c)))
     \<and> (\<forall>c pos len. 0 < len \<longrightarrow> pos + len \<le> length c \<longrightarrow>
          (\<exists>c'. fallocate L PunchHoleKeepSize pos len c = Ok c'
             \<and> contents c' = overwrite (contents c) pos (zeros len)))"

definition secure_dir :: "fs \<Rightarrow> path \<Rightarrow> bool" where
  "secure_dir s p \<longleftrightarrow>
     (\<exists>n. lookup s p = Some n \<and> ftype n = Directory \<and> perm n AND 0x1FF = DIRECTORY_MODE
        \<and> owner_uid n = euid s)"

definition staging_shard :: "storage_lib \<Rightarrow> StorageLayout \<Rightarrow> uuid \<Rightarrow> path" where
  "staging_shard L root session =
     root @ [''staging'', take 2 (uuid_simple L session), take 2 (drop 2 (uuid_simple L session))]"

definition cow_path :: "storage_lib \<Rightarrow> StorageLayout \<Rightarrow> uuid \<Rightarrow> path" where
  "cow_path L root session = staging_shard L root session @ [uuid_text L session @ ''.cow'']"

definition session_dirs :: "storage_lib \<Rightarrow> StorageLayout \<Rightarrow> uuid \<Rightarrow> path set" where
  "session_dirs L root session =
     {root, root @ [''staging''], root @ [''staging'', take 2 (uuid_simple L session)],
      staging_shard L root session, cow_path L root session}"

text \<open>Nothing but the entries below \<open>D\<close> has changed, and no existing inode.\<close>

definition untouched :: "path \<Rightarrow> fs \<Rightarrow> fs \<Rightarrow> bool" where
  "untouched D s0 s \<longleftrightarrow>
     (\<forall>q. \<not> strict_prefix D q \<longrightarrow> map_of (names s) q = map_of (names s0) q)
     \<and> (\<forall>i. i < next_ino s0 \<longrightarrow> inodes s i = inodes s0 i)
     \<and> next_ino s0 \<le> next_ino s \<and> euid s = euid s0"

definition chunk_file :: "fs \<Rightarrow> path \<Rightarrow> bytes \<Rightarrow> bool" where
  "chunk_file s p b \<longleftrightarrow>
     (\<exists>n c. lookup s p = Some n \<and> ftype n = Regular c \<and> contents c = b
        \<and> perm n AND 0x1FF = FILE_MODE \<and> owner_uid n = euid s)"

definition stray_file :: "fs \<Rightarrow> path \<Rightarrow> bool" where
  "stray_file s p \<longleftrightarrow>
     (\<exists>n c. lookup s p = Some n \<and> ftype n = Regular c \<and> perm n AND 0xE7F = 0
        \<and> owner_uid n = euid s)"

text \<open>
  The directory \<open>D\<close> holds exactly the chunks \<open>m\<close>, and beside them at most the temporaries
  named in \<open>T\<close>.
\<close>

definition holds_chunks :: "path \<Rightarrow> string set \<Rightarrow> (nat \<Rightarrow> bytes option) \<Rightarrow> fs \<Rightarrow> bool" where
  "holds_chunks D T m s \<longleftrightarrow>
     (\<forall>k. case m k of
        None \<Rightarrow> map_of (names s) (D @ [cow_chunk_name k]) = None
      | Some b \<Rightarrow> chunk_file s (D @ [cow_chunk_name k]) b)
     \<and> (\<forall>x. map_of (names s) (D @ [x]) \<noteq> None \<longrightarrow>
          (\<exists>k. x = cow_chunk_name k \<and> m k \<noteq> None) \<or> x \<in> T \<and> stray_file s (D @ [x]))"

definition session_state ::
  "storage_lib \<Rightarrow> StorageLayout \<Rightarrow> uuid \<Rightarrow> fs \<Rightarrow> string set \<Rightarrow> (nat \<Rightarrow> bytes option) \<Rightarrow> fs \<Rightarrow> bool" where
  "session_state L root session s0 T m s \<longleftrightarrow>
     fs_ok s0 \<and> (\<forall>p \<in> session_dirs L root session. secure_dir s0 p)
     \<and> fs_ok s \<and> untouched (cow_path L root session) s0 s
     \<and> holds_chunks (cow_path L root session) T m s"

lemma untouched_refl: "untouched D s s"
  by (simp add: untouched_def)

lemma untouched_trans: "untouched D s0 s1 \<Longrightarrow> untouched D s1 s2 \<Longrightarrow> untouched D s0 s2"
  by (auto simp: untouched_def)

lemma untouched_lookup:
  assumes "fs_ok s0" and "untouched D s0 s" and "\<not> strict_prefix D p"
  shows "lookup s p = lookup s0 p"
proof (rule lookup_cong)
  show "map_of (names s) p = map_of (names s0) p"
    using assms(2,3) by (simp add: untouched_def)
  show "inodes s i = inodes s0 i" if "map_of (names s0) p = Some i" for i
    using assms(2) fs_ok_bound [OF assms(1) that] by (simp add: untouched_def)
qed

lemma untouched_secure_dir:
  "fs_ok s0 \<Longrightarrow> untouched D s0 s \<Longrightarrow> \<not> strict_prefix D p \<Longrightarrow> secure_dir s p \<longleftrightarrow> secure_dir s0 p"
  by (simp add: secure_dir_def untouched_lookup) (simp add: untouched_def)

lemma session_dirs_outside: "p \<in> session_dirs L root session \<Longrightarrow> \<not> strict_prefix (cow_path L root session) p"
  by (auto simp: session_dirs_def cow_path_def staging_shard_def strict_prefix_def prefix_def)

lemma session_secure:
  "session_state L root session s0 T m s \<Longrightarrow> p \<in> session_dirs L root session \<Longrightarrow> secure_dir s p"
  using untouched_secure_dir session_dirs_outside by (auto simp: session_state_def)

lemma secure_dir_is_dir: "secure_dir s p \<Longrightarrow> is_dir s p"
  by (auto simp: secure_dir_def is_dir_def)

section \<open>Verification steps\<close>

lemma wp_lift_Ok [wp_rules]: "r = Ok x \<Longrightarrow> Q x s \<Longrightarrow> wp (lift_result r) Q E s"
  by (simp add: lift_result_def wp_ret)

lemma wp_parent [wp_rules]: "p \<noteq> [] \<Longrightarrow> Q (butlast p) s \<Longrightarrow> wp (parent p) Q E s"
  by (simp add: parent_def wp_ret)

lemma wp_verify_directory:
  "secure_dir s p \<Longrightarrow> Q () s \<Longrightarrow> E s \<Longrightarrow> wp (verify_directory p) Q E s"
  unfolding verify_directory_def secure_dir_def by (auto intro!: wp_rules)

lemma wp_verify_same_owner:
  "lookup s p = Some n \<Longrightarrow> lookup s q = Some m \<Longrightarrow> owner_uid n = owner_uid m \<Longrightarrow> Q () s \<Longrightarrow> E s \<Longrightarrow>
   wp (verify_same_owner p q) Q E s"
  unfolding verify_same_owner_def by (auto intro!: wp_rules)

lemma wp_sync_directory:
  assumes "secure_dir s p" and "Q () s" and "E s"
  shows "wp (sync_directory p) Q E s"
proof -
  obtain i n where "map_of (names s) p = Some i" "inodes s i = Some n" "ftype n = Directory"
    using assms(1) by (auto simp: secure_dir_def lookup_Some)
  then show ?thesis
    unfolding sync_directory_def using assms
    by (auto intro!: wp_rules wp_verify_directory wp_file_open)
qed

lemma wp_create_secure_directory_present:
  assumes "secure_dir s p" and "Q () s" and "E s"
  shows "wp (create_secure_directory p) Q E s"
proof -
  obtain n where "lookup s p = Some n" using assms(1) by (auto simp: secure_dir_def)
  then show ?thesis
    unfolding create_secure_directory_def symlink_metadata_def
    by (intro wp_match [where r = "Ok n" and s' = s])
      (use assms in \<open>auto intro: wp_verify_directory\<close>)
qed

lemma wp_secure_child:
  assumes "secure_dir s base" "secure_dir s (base @ [name])" and "Q (base @ [name]) s" and "E s"
  shows "wp (secure_child base name) Q E s"
proof -
  obtain n m where "lookup s base = Some n" "lookup s (base @ [name]) = Some m"
    "owner_uid m = owner_uid n"
    using assms(1,2) by (auto simp: secure_dir_def)
  then show ?thesis
    unfolding secure_child_def using assms
    by (intro wp_then wp_create_secure_directory_present wp_verify_same_owner [where n = m and m = n] wp_ret) auto
qed

lemma wp_cow_directory:
  assumes "\<And>p. p \<in> session_dirs L root session \<Longrightarrow> secure_dir s p"
    and "Q (cow_path L root session) s" and "E s"
  shows "wp (cow_directory L root session) Q E s"
proof -
  have "root \<in> session_dirs L root session" "root @ [''staging''] \<in> session_dirs L root session"
    "(root @ [''staging'']) @ [take 2 (uuid_simple L session)] \<in> session_dirs L root session"
    "((root @ [''staging'']) @ [take 2 (uuid_simple L session)])
       @ [take 2 (drop 2 (uuid_simple L session))] \<in> session_dirs L root session"
    by (simp_all add: session_dirs_def staging_shard_def)
  with assms show ?thesis
    unfolding cow_directory_def shard_directory_def Let_def
    by (intro wp_then wp_secure_child wp_ret) (auto simp: cow_path_def staging_shard_def)
qed

lemma wp_path_kind:
  assumes "Q (if lookup s p = None then Missing else Present) s" and "E s"
  shows "wp (path_kind p) Q E s"
proof (cases "lookup s p")
  case None
  with assms show ?thesis
    unfolding path_kind_def symlink_metadata_def
    by (intro wp_match [where r = "Err NotFound" and s' = s]) (auto intro: wp_ret)
next
  case (Some n)
  with assms show ?thesis
    unfolding path_kind_def symlink_metadata_def
    by (intro wp_match [where r = "Ok n" and s' = s]) (auto intro: wp_ret)
qed

lemma wp_verify_regular_file:
  assumes "chunk_file s p b" "p \<noteq> []" "secure_dir s (butlast p)" and "Q () s" and "E s"
  shows "wp (verify_regular_file p) Q E s"
proof -
  obtain n c m where "lookup s p = Some n" "ftype n = Regular c" "perm n AND 0x1FF = FILE_MODE"
    "lookup s (butlast p) = Some m" "owner_uid n = owner_uid m"
    using assms(1,3) by (auto simp: secure_dir_def chunk_file_def)
  then show ?thesis
    unfolding verify_regular_file_def using assms
    by (auto simp: is_file_def intro!: wp_then wp_symlink_metadata wp_parent wp_verify_same_owner)
qed

section \<open>The temporary copy\<close>

definition tmp_entry :: "fs \<Rightarrow> path \<Rightarrow> (inode \<Rightarrow> bool) \<Rightarrow> fs \<Rightarrow> bool" where
  "tmp_entry s p P s' \<longleftrightarrow>
     map_of (names s') = (map_of (names s))(p \<mapsto> next_ino s) \<and> next_ino s' = Suc (next_ino s)
     \<and> fs_ok s' \<and> euid s' = euid s
     \<and> (\<forall>j. j \<noteq> next_ino s \<longrightarrow> inodes s' j = inodes s j)
     \<and> (\<exists>n. inodes s' (next_ino s) = Some n \<and> P n)"

definition created :: "fs \<Rightarrow> path \<Rightarrow> bytes \<Rightarrow> fs \<Rightarrow> bool" where
  "created s p b = tmp_entry s p (\<lambda>n.
     (\<exists>c. ftype n = Regular c \<and> contents c = b) \<and> perm n = FILE_MODE \<and> owner_uid n = euid s)"

definition part_written :: "fs \<Rightarrow> path \<Rightarrow> fs \<Rightarrow> bool" where
  "part_written s p = tmp_entry s p (\<lambda>n.
     (\<exists>c. ftype n = Regular c) \<and> perm n AND 0xE7F = 0 \<and> owner_uid n = euid s)"

lemma tmp_entry_mono: "tmp_entry s p P s' \<Longrightarrow> (\<And>n. P n \<Longrightarrow> Q n) \<Longrightarrow> tmp_entry s p Q s'"
  by (auto simp: tmp_entry_def)

lemma created_part_written: "created s p b s' \<Longrightarrow> part_written s p s'"
  unfolding created_def part_written_def by (erule tmp_entry_mono) (auto simp: FILE_MODE_def)

lemma masked_mode: "(FILE_MODE AND x) AND 0xE7F = 0"
proof -
  have "(FILE_MODE AND x) AND 0xE7F = (FILE_MODE AND 0xE7F) AND x"
    by (simp only: ac_simps)
  then show ?thesis by (simp add: FILE_MODE_def)
qed

lemma created_cell:
  assumes "created s p b s1"
  obtains n c where "inodes s1 (next_ino s) = Some n" "ftype n = Regular c" "contents c = b"
  using assms by (auto simp: created_def tmp_entry_def)

lemma created_change:
  assumes s1: "created s p b s1" and n: "inodes s1 (next_ino s) = Some n"
  shows "created s p (contents c') (touch (next_ino s) (set_inode (next_ino s) (n\<lparr>ftype := Regular c'\<rparr>) s1))"
proof -
  obtain c where "ftype n = Regular c" using s1 n by (auto simp: created_def tmp_entry_def)
  then have "fs_ok (set_inode (next_ino s) (n\<lparr>ftype := Regular c'\<rparr>) s1)"
    using s1 n by (intro fs_ok_set_inode) (auto simp: created_def tmp_entry_def)
  with s1 n show ?thesis
    by (auto simp: created_def tmp_entry_def)
qed

lemma wp_create_new_file:
  assumes ok: "fs_ok s" and p: "p \<noteq> []" "is_dir s (butlast p)" "map_of (names s) p = None"
    and Q: "\<And>s'. created s p [] s' \<Longrightarrow> Q (next_ino s) s'"
    and E: "E s" "\<And>s'. part_written s p s' \<Longrightarrow> E s'"
  shows "wp (create_new_file p) Q E s"
proof -
  define n :: inode where
    "n = \<lparr>ftype = Regular [], perm = FILE_MODE AND NOT (umask s), owner_uid = euid s\<rparr>"
  let ?s1 = "add_entry p n s"
  have ok1: "fs_ok ?s1" using fs_ok_add_entry [OF ok p] .
  have tmp: "tmp_entry s p P ?s1" if "P n" for P
    using that ok1 by (auto simp: tmp_entry_def update_conv')
  have part: "part_written s p ?s1"
    unfolding part_written_def using masked_mode by (intro tmp) (simp add: n_def)
  let ?s2 = "set_inode (next_ino s) (n\<lparr>perm := FILE_MODE\<rparr>) ?s1"
  have "fs_ok ?s2"
    using ok1 by (rule fs_ok_set_inode [where m = n]) simp_all
  then have "created s p [] ?s2"
    by (auto simp: created_def tmp_entry_def update_conv' n_def contents_def)
  then show ?thesis
    unfolding create_new_file_def using p E Q part
    by (intro wp_then wp_open_create_new wp_fchmod [where n = n] wp_ret) (auto simp: n_def)
qed

lemma wp_set_len_created:
  assumes "created s p b s1" and "\<And>s2. created s p (take n b @ zeros (n - length b)) s2 \<Longrightarrow> Q () s2"
    and "E s1"
  shows "wp (try_sys (set_len (next_ino s) n)) Q E s1"
proof -
  obtain m c where m: "inodes s1 (next_ino s) = Some m" "ftype m = Regular c" "contents c = b"
    using created_cell [OF assms(1)] .
  have len: "length c = length b" using m(3) by auto
  show ?thesis
    by (rule wp_set_len [OF m(1,2)])
      (use assms created_change [OF assms(1) m(1), of "resize n c"] len m(3) in \<open>auto simp: contents_resize\<close>)
qed

lemma wp_write_all_created:
  assumes "created s p b s1" "pos \<le> length b"
    and "\<And>s2. created s p (overwrite b pos bs) s2 \<Longrightarrow> Q () s2" and "\<And>s2. part_written s p s2 \<Longrightarrow> E s2"
  shows "wp (try_sys (write_all (next_ino s) pos bs)) Q E s1"
proof -
  obtain m c where m: "inodes s1 (next_ino s) = Some m" "ftype m = Regular c" "contents c = b"
    using created_cell [OF assms(1)] .
  have len: "pos \<le> length c" using m(3) assms(2) by auto
  have chg: "created s p (overwrite b pos xs)
      (touch (next_ino s) (set_inode (next_ino s) (m\<lparr>ftype := Regular (write_cells pos xs c)\<rparr>) s1))" for xs
    using created_change [OF assms(1) m(1), of "write_cells pos xs c"] contents_write_cells [OF len, of xs] m(3)
    by simp
  show ?thesis
    by (rule wp_write_all [OF m(1,2)]) (use assms(3,4) chg created_part_written in blast)+
qed

lemma wp_fstat_created:
  assumes "created s p b s1" and "\<And>m. file_len m = length b \<Longrightarrow> Q m s1" and "E s1"
  shows "wp (try_sys (fstat (next_ino s))) Q E s1"
proof -
  obtain m c where m: "inodes s1 (next_ino s) = Some m" "ftype m = Regular c" "contents c = b"
    using created_cell [OF assms(1)] .
  then have "file_len m = length b" by (auto simp: file_len_def)
  with assms m(1) show ?thesis by (intro wp_fstat) auto
qed

text \<open>What a change of the temporary copy does to its content.\<close>

definition mutates :: "(ino \<Rightarrow> unit io) \<Rightarrow> bytes \<Rightarrow> bytes \<Rightarrow> bool" where
  "mutates m b b' \<longleftrightarrow>
     (\<forall>s p s1. created s p b s1 \<longrightarrow>
        wp (m (next_ino s)) (\<lambda>_. created s p b') (part_written s p) s1)"

lemma mutates_pad_file_to: "mutates (\<lambda>i. pad_file_to i n) b (pad_to n b)"
  unfolding mutates_def pad_file_to_def
proof (intro allI impI)
  fix s p s1 assume s1: "created s p b s1"
  show "wp (io_then (try_sys (fstat (next_ino s)))
      (\<lambda>m. if file_len m < n then try_sys (set_len (next_ino s) n) else ret ()))
      (\<lambda>_. created s p (pad_to n b)) (part_written s p) s1"
  proof (intro wp_then wp_fstat_created [OF s1])
    fix m :: inode assume m: "file_len m = length b"
    show "wp (if file_len m < n then try_sys (set_len (next_ino s) n) else ret ())
        (\<lambda>_. created s p (pad_to n b)) (part_written s p) s1"
    proof (cases "length b < n")
      case True
      then have "wp (try_sys (set_len (next_ino s) n)) (\<lambda>_. created s p (pad_to n b)) (part_written s p) s1"
        using created_part_written [OF s1]
        by (intro wp_set_len_created [OF s1]) (auto simp: pad_to_def)
      with True m show ?thesis by simp
    next
      case False
      then show ?thesis using m s1 by (simp add: wp_ret)
    qed
  qed (rule created_part_written [OF s1])
qed

lemma mutates_write_segment: "mutates (write_segment seg w) b (overwrite b w seg)"
  unfolding mutates_def write_segment_def
proof (intro allI impI wp_then)
  fix s p s1 assume s1: "created s p b s1"
  have "wp (pad_file_to (next_ino s) w) (\<lambda>_. created s p (pad_to w b)) (part_written s p) s1"
    using mutates_pad_file_to s1 by (simp add: mutates_def)
  then show "wp (pad_file_to (next_ino s) w)
      (\<lambda>_. wp (io_then (try_sys (seek_start (next_ino s) w))
             (\<lambda>_. try_sys (write_all (next_ino s) w seg)))
           (\<lambda>_. created s p (overwrite b w seg)) (part_written s p)) (part_written s p) s1"
    by (rule wp_conseq)
      (auto intro!: wp_then wp_seek_start wp_write_all_created intro: created_part_written
        simp: overwrite_pad_to)
qed

section \<open>Copying a sparse file\<close>

lemma wp_read_exact:
  assumes "inodes s i = Some n" "ftype n = Regular c" "pos + len \<le> length c"
    and "Q (take len (drop pos (contents c))) s" and "E s"
  shows "wp (try_sys (read_exact i pos len)) Q E s"
  unfolding read_exact_def by (rule wp_call) (use assms in simp_all)

lemma created_other:
  "created s p b s1 \<Longrightarrow> i < next_ino s \<Longrightarrow> inodes s1 i = inodes s i"
  by (simp add: created_def tmp_entry_def)

lemma wp_copy_extent:
  assumes i: "i < next_ino s" "inodes s i = Some n" "ftype n = Regular c"
  shows "created s p b s1 \<Longrightarrow> pos + remaining \<le> length c \<Longrightarrow> pos \<le> length b \<Longrightarrow>
    wp (copy_extent i (next_ino s) pos remaining)
      (\<lambda>_. created s p (overwrite b pos (take remaining (drop pos (contents c))))) (part_written s p) s1"
proof (induction remaining arbitrary: pos b s1 rule: less_induct)
  case (less remaining)
  show ?case
  proof (cases "remaining = 0")
    case True
    with less.prems show ?thesis by (subst copy_extent.simps) (auto intro: wp_ret simp: overwrite_Nil)
  next
    case False
    let ?k = "min remaining COPY_BUFFER"
    let ?bytes = "take ?k (drop pos (contents c))"
    have src: "inodes s1 i = Some n" using created_other [OF less.prems(1) i(1)] i(2) by simp
    have len: "length ?bytes = ?k" using less.prems(2) by auto
    have rest: "wp (copy_extent i (next_ino s) (pos + ?k) (remaining - ?k))
        (\<lambda>_. created s p (overwrite b pos (take remaining (drop pos (contents c))))) (part_written s p) s2"
      if s2: "created s p (overwrite b pos ?bytes) s2" for s2
    proof -
      have "wp (copy_extent i (next_ino s) (pos + ?k) (remaining - ?k))
        (\<lambda>_. created s p (overwrite (overwrite b pos ?bytes) (pos + ?k)
               (take (remaining - ?k) (drop (pos + ?k) (contents c))))) (part_written s p) s2"
        using False less.prems(2,3) len
        by (intro less.IH [OF _ s2]) (auto simp: COPY_BUFFER_def)
      moreover have "overwrite (overwrite b pos ?bytes) (pos + ?k)
          (take (remaining - ?k) (drop (pos + ?k) (contents c)))
        = overwrite b pos (take remaining (drop pos (contents c)))"
      proof -
        have "?bytes @ take (remaining - ?k) (drop (pos + ?k) (contents c))
            = take remaining (drop pos (contents c))"
          using take_add [of ?k "remaining - ?k" "drop pos (contents c)"]
          by (simp add: add.commute min_def)
        with overwrite_overwrite [OF less.prems(3), of ?bytes] len show ?thesis by simp
      qed
      ultimately show ?thesis by simp
    qed
    have "wp (io_then (try_sys (read_exact i pos ?k)) (\<lambda>bytes.
        io_then (try_sys (write_all (next_ino s) pos bytes)) (\<lambda>_.
        copy_extent i (next_ino s) (pos + ?k) (remaining - ?k))))
      (\<lambda>_. created s p (overwrite b pos (take remaining (drop pos (contents c))))) (part_written s p) s1"
      using less.prems created_part_written rest
      by (intro wp_then wp_read_exact [OF src i(3)] wp_write_all_created) auto
    then show ?thesis
      using False by (subst copy_extent.simps) (simp add: Let_def)
  qed
qed

definition copied_to :: "bytes \<Rightarrow> nat \<Rightarrow> bytes" where
  "copied_to src cursor = take cursor src @ zeros (length src - cursor)"

lemma copied_to_zero_gap:
  assumes "cursor \<le> data" "data \<le> length src"
    and "\<forall>j. cursor \<le> j \<and> j < data \<longrightarrow> src ! j = CHR 0x00"
  shows "copied_to src cursor = copied_to src data"
  by (rule nth_equalityI) (use assms in \<open>auto simp: copied_to_def nth_append\<close>)

lemma copied_to_extent:
  assumes "data \<le> hole" "hole \<le> length src"
  shows "overwrite (copied_to src data) data (take (hole - data) (drop data src)) = copied_to src hole"
proof -
  have "take data src @ take (hole - data) (drop data src) = take hole src"
    using assms take_add [of data "hole - data" src] by simp
  with assms show ?thesis
    by (simp add: overwrite_inside copied_to_def)
qed

lemma wp_match_seek:
  assumes "inodes s i = Some n" "ftype n = Regular c"
    and "wp (g (case kind of SeekData \<Rightarrow> seek_data L c pos | SeekHole \<Rightarrow> seek_hole L c pos)) Q E s"
    and "E s" "g (Err OtherErrno) = fail (Io DeviceError)"
  shows "wp (match_sys (seek_extent L kind i pos) g) Q E s"
  unfolding seek_extent_def by (rule wp_match) (use assms in \<open>simp_all split: SparseSeek.splits\<close>)

lemma wp_try_seek:
  assumes "inodes s i = Some n" "ftype n = Regular c"
    and "(case kind of SeekData \<Rightarrow> seek_data L c pos | SeekHole \<Rightarrow> seek_hole L c pos) = Ok x"
    and "Q x s" "E s"
  shows "wp (try_errno (seek_extent L kind i pos)) Q E s"
  unfolding try_errno_def
  by (rule wp_match_seek [OF assms(1,2)])
    (use assms in \<open>simp_all add: wp_ret storage_errno_def\<close>)

lemma wp_copy_extents:
  assumes laws: "sparse_laws L" and i: "i < next_ino s" "inodes s i = Some n" "ftype n = Regular c"
  shows "created s p (copied_to (contents c) cursor) s1 \<Longrightarrow> length c < fuel + cursor \<Longrightarrow>
    cursor \<le> length c \<Longrightarrow>
    wp (copy_extents L fuel i (next_ino s) (length c) cursor) (\<lambda>_. created s p (contents c))
      (part_written s p) s1"
proof (induction fuel arbitrary: cursor s1)
  case (Suc fuel)
  have src: "inodes s1 i = Some n" using created_other [OF Suc.prems(1) i(1)] i(2) by simp
  have part: "part_written s p s1" using Suc.prems(1) by (rule created_part_written)
  show ?case
  proof (cases "cursor = length c")
    case True
    then have "copied_to (contents c) cursor = contents c"
      by (simp add: copied_to_def)
    with Suc.prems(1) True show ?thesis by (auto intro: wp_ret)
  next
    case False
    then have lt: "cursor < length c" using Suc.prems by simp
    have law: "case seek_data L c cursor of
        Ok d \<Rightarrow> cursor \<le> d \<and> d < length c \<and> (\<forall>j. cursor \<le> j \<and> j < d \<longrightarrow> contents c ! j = CHR 0x00)
          \<and> (\<exists>h. seek_hole L c d = Ok h \<and> d < h \<and> h \<le> length c)
      | Err e \<Rightarrow> e = NXIO \<and> (\<forall>j. cursor \<le> j \<and> j < length c \<longrightarrow> contents c ! j = CHR 0x00)"
      using laws lt unfolding sparse_laws_def by blast
    show ?thesis
    proof (cases "seek_data L c cursor")
      case (Err e)
      with law have "copied_to (contents c) cursor = copied_to (contents c) (length c)" "e = NXIO"
        using lt by (auto intro!: copied_to_zero_gap)
      moreover have "copied_to (contents c) (length c) = contents c"
        by (simp add: copied_to_def)
      ultimately show ?thesis
        using lt Suc.prems(1) part Err
        by (auto intro!: wp_match_seek [OF src i(3)] wp_ret simp: storage_errno_def)
    next
      case (Ok d)
      with law obtain h where d: "cursor \<le> d" "d < length c" "seek_hole L c d = Ok h" "d < h" "h \<le> length c"
        and gap: "\<forall>j. cursor \<le> j \<and> j < d \<longrightarrow> contents c ! j = CHR 0x00"
        by auto
      have cur: "created s p (copied_to (contents c) d) s1"
        using Suc.prems(1) copied_to_zero_gap [OF d(1) _ gap] d(2) by simp
      have ext: "wp (copy_extent i (next_ino s) d (h - d))
          (\<lambda>_. wp (copy_extents L fuel i (next_ino s) (length c) h) (\<lambda>_. created s p (contents c))
              (part_written s p)) (part_written s p) s1"
      proof (rule wp_conseq [OF wp_copy_extent [OF i cur]])
        show "d + (h - d) \<le> length c" using d by simp
        show "d \<le> length (copied_to (contents c) d)" using d by (simp add: copied_to_def)
        fix x s2
        assume "created s p (overwrite (copied_to (contents c) d) d (take (h - d) (drop d (contents c)))) s2"
        then have "created s p (copied_to (contents c) h) s2"
          using copied_to_extent [of d h "contents c"] d by simp
        then show "wp (copy_extents L fuel i (next_ino s) (length c) h) (\<lambda>_. created s p (contents c))
            (part_written s p) s2"
          using Suc.prems(2) d by (intro Suc.IH) auto
      qed simp
      show ?thesis
        using lt part Ok d ext
        by (auto simp: storage_errno_def intro!: wp_match_seek [OF src i(3)] wp_try_seek [OF src i(3)] wp_then wp_ret wp_seek_start
            simp: Let_def)
    qed
  qed
qed simp

lemma wp_copy_sparse_file:
  assumes laws: "sparse_laws L" and i: "i < next_ino s" "inodes s i = Some n" "ftype n = Regular c"
    and s1: "created s p [] s1"
  shows "wp (copy_sparse_file L i (next_ino s)) (\<lambda>_. created s p (contents c)) (part_written s p) s1"
proof -
  have src: "inodes s1 i = Some n" using created_other [OF s1 i(1)] i(2) by simp
  have len: "file_len n = length c" using i(3) by (simp add: file_len_def)
  have "copied_to (contents c) 0 = take (length c) [] @ zeros (length c - length [])"
    by (simp add: copied_to_def)
  then show ?thesis
    unfolding copy_sparse_file_def
    using created_part_written [OF s1] wp_copy_extents [OF laws i, of p 0 _ "Suc (length c)"] len
    by (intro wp_then wp_fstat [OF src] wp_set_len_created [OF s1]) auto
qed

section \<open>Replacing a chunk\<close>

lemma chunk_file_transfer:
  "lookup s' p = lookup s p \<Longrightarrow> euid s' = euid s \<Longrightarrow> chunk_file s' p b \<longleftrightarrow> chunk_file s p b"
  by (simp add: chunk_file_def)

lemma chunk_file_no_dir: "chunk_file s p b \<Longrightarrow> \<not> is_dir s p"
  by (auto simp: chunk_file_def is_dir_def)

lemma holds_chunks_no_dir: "holds_chunks D T m s \<Longrightarrow> \<not> is_dir s (D @ [cow_chunk_name k])"
proof (cases "m k")
  case None
  moreover assume "holds_chunks D T m s"
  ultimately have "map_of (names s) (D @ [cow_chunk_name k]) = None"
    unfolding holds_chunks_def by (metis option.simps(4))
  then show ?thesis by (simp add: is_dir_iff)
next
  case (Some b)
  moreover assume "holds_chunks D T m s"
  ultimately have "chunk_file s (D @ [cow_chunk_name k]) b"
    unfolding holds_chunks_def by (metis option.simps(5))
  then show ?thesis by (rule chunk_file_no_dir)
qed

lemma holds_chunksD:
  assumes "holds_chunks D T m s"
  shows "m k = None \<Longrightarrow> map_of (names s) (D @ [cow_chunk_name k]) = None"
    and "m k = Some b \<Longrightarrow> chunk_file s (D @ [cow_chunk_name k]) b"
    and "map_of (names s) (D @ [x]) = Some i \<Longrightarrow>
      (\<exists>k. x = cow_chunk_name k \<and> m k \<noteq> None) \<or> x \<in> T \<and> stray_file s (D @ [x])"
  using assms unfolding holds_chunks_def
  by (metis option.simps(4), metis option.simps(5), metis option.distinct(1))

lemma tmp_lookup:
  assumes ok: "fs_ok s" and tmp: "tmp_entry s p P s1" and "q \<noteq> p"
  shows "lookup s1 q = lookup s q"
proof (rule lookup_cong)
  show "map_of (names s1) q = map_of (names s) q"
    using tmp assms(3) by (simp add: tmp_entry_def)
  show "inodes s1 i = inodes s i" if "map_of (names s) q = Some i" for i
    using tmp fs_ok_bound [OF ok that] by (simp add: tmp_entry_def)
qed

lemma part_written_holds:
  assumes ok: "fs_ok s" and h: "holds_chunks D {} m s" and tmp: "part_written s (D @ [x]) s1"
    and x: "\<And>k. x \<noteq> cow_chunk_name k"
  shows "holds_chunks D {x} m s1" and "untouched D s s1"
proof -
  have entry: "tmp_entry s (D @ [x]) (\<lambda>n. (\<exists>c. ftype n = Regular c) \<and> perm n AND 0xE7F = 0 \<and> owner_uid n = euid s) s1"
    using tmp by (simp add: part_written_def)
  note same = tmp_lookup [OF ok entry]
  have names: "map_of (names s1) = (map_of (names s))(D @ [x] \<mapsto> next_ino s)" and eu: "euid s1 = euid s"
    using entry by (auto simp: tmp_entry_def)
  have stray: "stray_file s1 (D @ [x])"
    using entry by (auto simp: stray_file_def lookup_Some tmp_entry_def)
  show "holds_chunks D {x} m s1"
    unfolding holds_chunks_def
  proof (intro conjI allI impI)
    fix k
    have ne: "D @ [cow_chunk_name k] \<noteq> D @ [x]" using x by auto
    show "case m k of None \<Rightarrow> map_of (names s1) (D @ [cow_chunk_name k]) = None
      | Some b \<Rightarrow> chunk_file s1 (D @ [cow_chunk_name k]) b"
      using holds_chunksD(1,2) [OF h, of k] names ne chunk_file_transfer [OF same [OF ne] eu]
      by (auto split: option.splits)
  next
    fix y assume y: "map_of (names s1) (D @ [y]) \<noteq> None"
    show "(\<exists>k. y = cow_chunk_name k \<and> m k \<noteq> None) \<or> y \<in> {x} \<and> stray_file s1 (D @ [y])"
    proof (cases "y = x")
      case False
      with y names obtain i where "map_of (names s) (D @ [y]) = Some i" by auto
      from holds_chunksD(3) [OF h this] show ?thesis by simp
    qed (use stray in simp)
  qed
  have "\<not> strict_prefix D q \<longrightarrow> map_of (names s1) q = map_of (names s) q" for q
    using names by (auto simp: strict_prefix_def)
  then show "untouched D s s1"
    using entry unfolding untouched_def tmp_entry_def by auto
qed

lemma rename_holds:
  assumes ok: "fs_ok s" and D: "secure_dir s D" and h: "holds_chunks D {} m s"
    and tmp: "created s (D @ [x]) b s1" and x: "\<And>k. x \<noteq> cow_chunk_name k"
    and s2_def: "s2 = rename_entry (D @ [x]) (D @ [cow_chunk_name n]) s1"
  shows "rename_check s1 (D @ [x]) (D @ [cow_chunk_name n]) = Ok ()"
    and "holds_chunks D {} (m(n \<mapsto> b)) s2" and "untouched D s s2" and "fs_ok s2"
proof -
  let ?src = "D @ [x]" and ?dst = "D @ [cow_chunk_name n]"
  have entry: "tmp_entry s ?src (\<lambda>f. (\<exists>c. ftype f = Regular c \<and> contents c = b) \<and> perm f = FILE_MODE \<and> owner_uid f = euid s) s1"
    using tmp by (simp add: created_def)
  then obtain f c where f: "inodes s1 (next_ino s) = Some f" "ftype f = Regular c" "contents c = b"
    "perm f = FILE_MODE" "owner_uid f = euid s"
    by (auto simp: tmp_entry_def)
  note same = tmp_lookup [OF ok entry]
  have names: "map_of (names s1) = (map_of (names s))(?src \<mapsto> next_ino s)" and eu: "euid s1 = euid s"
    and ok1: "fs_ok s1"
    using entry by (auto simp: tmp_entry_def)
  have src: "map_of (names s1) ?src = Some (next_ino s)" "\<not> is_dir s1 ?src"
    using names f by (auto simp: is_dir_iff)
  have dir: "is_dir s1 (butlast ?dst)"
    using secure_dir_is_dir [OF D] same [of D] by (simp add: is_dir_def)
  have ne: "?dst \<noteq> ?src" using x by auto
  have dst: "\<not> is_dir s1 ?dst"
    using holds_chunks_no_dir [OF h] same [OF ne] by (simp add: is_dir_def)
  have dst_old: "map_of (names s1) ?dst \<noteq> Some (next_ino s)"
    using names ne fs_ok_bound [OF ok, of ?dst "next_ino s"] by auto
  show "rename_check s1 ?src ?dst = Ok ()"
    by (rule rename_check_file [of _ _ f]) (use src f dir dst in \<open>auto simp: lookup_Some\<close>)
  note ren = rename_file_names [OF ok1 src dst_old dst _ dir, folded s2_def]
  show "fs_ok s2" using ren(2) by simp
  have ren1: "map_of (names s2) q = (if q = ?dst then Some (next_ino s) else if q = ?src then None else map_of (names s) q)" for q
    using ren(1) [of q] names by auto
  have eu2: "euid s2 = euid s" and ino2: "inodes s2 = inodes s1" using eu by (simp_all add: s2_def)
  have same2: "lookup s2 q = lookup s q" if "q \<noteq> ?dst" "q \<noteq> ?src" for q
  proof -
    have "lookup s2 q = lookup s1 q"
      using that names by (intro lookup_cong) (simp_all add: ren1 ino2)
    with same [OF that(2)] show ?thesis by simp
  qed
  have new: "chunk_file s2 ?dst b"
    using f eu2 by (auto simp: chunk_file_def lookup_Some ren1 ino2 FILE_MODE_def)
  show "holds_chunks D {} (m(n \<mapsto> b)) s2"
    unfolding holds_chunks_def
  proof (intro conjI allI impI)
    fix k
    show "case (m(n \<mapsto> b)) k of None \<Rightarrow> map_of (names s2) (D @ [cow_chunk_name k]) = None
      | Some b' \<Rightarrow> chunk_file s2 (D @ [cow_chunk_name k]) b'"
    proof (cases "k = n")
      case False
      then have kn: "D @ [cow_chunk_name k] \<noteq> ?dst" "D @ [cow_chunk_name k] \<noteq> ?src"
        using x by auto
      show ?thesis
        using holds_chunksD(1,2) [OF h, of k] False kn ren1 chunk_file_transfer [OF same2 [OF kn] eu2]
        by (auto split: option.splits)
    qed (use new in simp)
  next
    fix y assume "map_of (names s2) (D @ [y]) \<noteq> None"
    then have "y = cow_chunk_name n \<or> (\<exists>i. map_of (names s) (D @ [y]) = Some i)"
      by (auto simp: ren1 split: if_splits)
    then show "(\<exists>k. y = cow_chunk_name k \<and> (m(n \<mapsto> b)) k \<noteq> None) \<or> y \<in> {} \<and> stray_file s2 (D @ [y])"
      using holds_chunksD(3) [OF h] by fastforce
  qed
  have "\<not> strict_prefix D q \<longrightarrow> map_of (names s2) q = map_of (names s) q" for q
    by (auto simp: ren1 strict_prefix_def)
  then show "untouched D s s2"
    using entry eu2 unfolding untouched_def tmp_entry_def by (auto simp: s2_def)
qed

lemma session_state_step:
  assumes "session_state L root session s0 T m s" and "fs_ok s1"
    and "untouched (cow_path L root session) s s1" and "holds_chunks (cow_path L root session) T' m' s1"
  shows "session_state L root session s0 T' m' s1"
  using assms untouched_trans unfolding session_state_def by blast

lemma holds_chunks_mono: "holds_chunks D T m s \<Longrightarrow> T \<subseteq> T' \<Longrightarrow> holds_chunks D T' m s"
  unfolding holds_chunks_def by blast

lemma session_state_mono:
  "session_state L root session s0 T m s \<Longrightarrow> T \<subseteq> T' \<Longrightarrow> session_state L root session s0 T' m s"
  using holds_chunks_mono unfolding session_state_def by blast

lemma session_stateD:
  assumes "session_state L root session s0 T m s"
  shows "fs_ok s" and "holds_chunks (cow_path L root session) T m s"
    and "secure_dir s (cow_path L root session)"
    and "\<And>p. p \<in> session_dirs L root session \<Longrightarrow> secure_dir s p"
  using assms session_secure [OF assms]
  by (auto simp: session_state_def session_dirs_def)

lemma wp_replace_chunk:
  assumes laws: "sparse_laws L" and st: "session_state L root session s0 {} m s"
    and n: "n < MAX_CHUNK_COUNT" and mut: "mutates mutate (old_chunk m n) b'"
    and Q: "\<And>s'. session_state L root session s0 {} (m(n \<mapsto> b')) s' \<Longrightarrow> Q () s'"
    and E1: "\<And>s'. session_state L root session s0 {writing_name L n operation} m s' \<Longrightarrow> E s'"
    and E2: "\<And>s'. session_state L root session s0 {} (m(n \<mapsto> b')) s' \<Longrightarrow> E s'"
  shows "wp (replace_chunk L root session operation n mutate) Q E s"
proof -
  let ?D = "cow_path L root session"
  let ?x = "writing_name L n operation"
  let ?dst = "?D @ [cow_chunk_name n]" and ?tmp = "?D @ [?x]"
  have D: "?D \<noteq> []" by (simp add: cow_path_def)
  have x: "?x \<noteq> cow_chunk_name k" for k by simp
  note ok = session_stateD(1) [OF st] and holds = session_stateD(2) [OF st]
    and sec = session_stateD(3) [OF st]
  have free: "map_of (names s) ?tmp = None"
    using holds_chunksD(3) [OF holds, of ?x] by (cases "map_of (names s) ?tmp") auto
  have Es: "E s" using E1 session_state_mono [OF st] by blast
  have part: "E s1" if "part_written s ?tmp s1" for s1
  proof (rule E1, rule session_state_step [OF st])
    show "fs_ok s1" using that by (simp add: part_written_def tmp_entry_def)
  qed (use part_written_holds [OF ok holds that x] in auto)
  define finish :: "ino \<Rightarrow> unit io" where
    "finish h = io_then (mutate h) (\<lambda>_. io_then (try_sys (sync_all h)) (\<lambda>_.
       io_then (try_sys (rename ?tmp ?dst)) (\<lambda>_. sync_directory ?D)))" for h
  have finish: "wp (finish (next_ino s)) Q E s1" if c: "created s ?tmp (old_chunk m n) s1" for s1
  proof -
    have "wp (mutate (next_ino s)) (\<lambda>_. created s ?tmp b') (part_written s ?tmp) s1"
      using mut c by (simp add: mutates_def)
    then show ?thesis
      unfolding finish_def
    proof (intro wp_then, elim wp_conseq)
      fix s2 assume c2: "created s ?tmp b' s2"
      let ?s3 = "rename_entry ?tmp ?dst s2"
      note ren = rename_holds [OF ok sec holds c2 x refl, of n]
      have s3: "session_state L root session s0 {} (m(n \<mapsto> b')) ?s3"
        by (rule session_state_step [OF st ren(4,3,2)])
      have "wp (sync_directory ?D) Q E ?s3"
        using session_stateD(3) [OF s3] Q [OF s3] E2 [OF s3] by (rule wp_sync_directory)
      then show "wp (io_then (try_sys (sync_all (next_ino s))) (\<lambda>_.
          io_then (try_sys (rename ?tmp ?dst)) (\<lambda>_. sync_directory ?D))) Q E s2"
        using part [OF created_part_written [OF c2]] ren(1)
        by (intro wp_then wp_sync_all wp_rename)
    qed (rule part)
  qed
  have make: "wp (create_new_file ?tmp) R E s"
    if "\<And>s1. created s ?tmp [] s1 \<Longrightarrow> R (next_ino s) s1" for R
    using that secure_dir_is_dir [OF sec] free part Es by (intro wp_create_new_file [OF ok]) auto
  have "wp (io_then
      (case if lookup s ?dst = None then Missing else Present of
         Present \<Rightarrow> io_then (verify_regular_file ?dst) (\<lambda>_. io_then (try_sys (file_open ?dst)) (\<lambda>source.
             io_then (create_new_file ?tmp) (\<lambda>file. io_then (copy_sparse_file L source file) (\<lambda>_. ret file))))
       | Missing \<Rightarrow> create_new_file ?tmp) finish) Q E s"
  proof (cases "m n")
    case None
    then have "lookup s ?dst = None"
      using holds_chunksD(1) [OF holds] by (simp add: lookup_def)
    moreover have "old_chunk m n = []" using None by (simp add: old_chunk_def)
    ultimately show ?thesis using finish by (auto intro!: wp_then make)
  next
    case (Some b)
    then have cf: "chunk_file s ?dst b" using holds_chunksD(2) [OF holds] by simp
    then obtain i f c where f: "map_of (names s) ?dst = Some i" "inodes s i = Some f"
      "ftype f = Regular c" "contents c = b"
      by (auto simp: chunk_file_def lookup_Some)
    have i: "i < next_ino s" using fs_ok_bound [OF ok f(1)] .
    have old: "old_chunk m n = contents c" using Some f(4) by (simp add: old_chunk_def)
    have copy: "wp (copy_sparse_file L i (next_ino s)) (\<lambda>_. wp (ret (next_ino s)) (\<lambda>x. wp (finish x) Q E) E) E s1"
      if "created s ?tmp [] s1" for s1
      by (rule wp_conseq [OF wp_copy_sparse_file [OF laws i f(2,3) that]])
        (use finish old part in \<open>auto intro: wp_ret\<close>)
    have "lookup s ?dst \<noteq> None" using f by (auto simp: lookup_def)
    then show ?thesis
      using cf sec D Es f copy
      by (auto intro!: wp_then wp_verify_regular_file wp_file_open make)
  qed
  then show ?thesis
    unfolding replace_chunk_def Let_def finish_def
    using n Es sec session_stateD(4) [OF st]
    by (auto intro!: wp_then wp_cow_directory wp_verify_directory wp_path_kind)
qed

section \<open>Ranges\<close>

definition leftovers :: "storage_lib \<Rightarrow> uuid \<Rightarrow> string set" where
  "leftovers L operation = (\<lambda>n. writing_name L n operation) ` {..<MAX_CHUNK_COUNT}"

lemma chunk_index_bound:
  assumes "0 < c" "offset < c * MAX_CHUNK_COUNT" shows "offset div c < MAX_CHUNK_COUNT"
  using assms by (simp add: less_mult_imp_div_less mult.commute)

text \<open>
  One loop rule for both kinds of ranges: \<open>G k\<close> is the flat content once the range is done up
  to \<open>k\<close>, and a step at an offset turns the chunks of \<open>G offset\<close> into those of
  \<open>G (offset + amount)\<close>.
\<close>

definition range_step ::
  "nat \<Rightarrow> nat \<Rightarrow> nat \<Rightarrow> (nat \<Rightarrow> bytes) \<Rightarrow> (nat \<Rightarrow> nat \<Rightarrow> ino \<Rightarrow> unit io) \<Rightarrow> bool" where
  "range_step c start limit G change \<longleftrightarrow>
     (\<forall>offset amount. start \<le> offset \<and> 0 < amount \<and> offset mod c + amount \<le> c \<and> offset + amount \<le> limit \<longrightarrow>
        (\<exists>b. mutates (change offset amount) (old_chunk (chunk_map c (G offset)) (offset div c)) b
           \<and> chunk_map c (G (offset + amount)) = (chunk_map c (G offset))(offset div c \<mapsto> b)))"

lemma wp_range_step:
  assumes laws: "sparse_laws L" and c: "0 < c" and step: "range_step c start limit G change"
    and lim: "limit \<le> c * MAX_CHUNK_COUNT"
    and st: "session_state L root session s0 {} (chunk_map c (G offset)) s"
    and off: "start \<le> offset" "0 < amount" "offset mod c + amount \<le> c" "offset + amount \<le> limit"
    and Q: "\<And>s'. session_state L root session s0 {} (chunk_map c (G (offset + amount))) s' \<Longrightarrow> Q () s'"
    and E: "\<And>s' k. session_state L root session s0 (leftovers L operation) (chunk_map c (G k)) s' \<Longrightarrow>
      start \<le> k \<Longrightarrow> k \<le> limit \<Longrightarrow> E s'"
  shows "wp (replace_chunk L root session operation (offset div c) (change offset amount)) Q E s"
proof -
  obtain b where b: "mutates (change offset amount) (old_chunk (chunk_map c (G offset)) (offset div c)) b"
    "chunk_map c (G (offset + amount)) = (chunk_map c (G offset))(offset div c \<mapsto> b)"
    using step off unfolding range_step_def by blast
  have n: "offset div c < MAX_CHUNK_COUNT"
    using c off lim by (intro chunk_index_bound) auto
  show ?thesis
  proof (rule wp_replace_chunk [OF laws st n b(1)])
    fix s'
    show "session_state L root session s0 {} ((chunk_map c (G offset))(offset div c \<mapsto> b)) s' \<Longrightarrow> Q () s'"
      using Q b(2) by simp
    show "session_state L root session s0 {writing_name L (offset div c) operation} (chunk_map c (G offset)) s' \<Longrightarrow> E s'"
      using off by (intro E [where k = offset]) (auto elim!: session_state_mono simp: leftovers_def n)
    show "session_state L root session s0 {} ((chunk_map c (G offset))(offset div c \<mapsto> b)) s' \<Longrightarrow> E s'"
      using off b(2) by (intro E [where k = "offset + amount"]) (auto elim!: session_state_mono)
  qed
qed

lemma wp_for_each_cow_range:
  assumes laws: "sparse_laws L" and c: "0 < c" "c * MAX_CHUNK_COUNT \<le> U64_MAX"
    and step: "range_step c start limit G (\<lambda>offset amount i. change i (offset mod c) amount)"
    and lim: "limit \<le> c * MAX_CHUNK_COUNT"
    and Q: "\<And>s'. session_state L root session s0 {} (chunk_map c (G limit)) s' \<Longrightarrow> Q () s'"
    and E: "\<And>s' k. session_state L root session s0 (leftovers L operation) (chunk_map c (G k)) s' \<Longrightarrow>
      start \<le> k \<Longrightarrow> k \<le> limit \<Longrightarrow> E s'"
  shows "session_state L root session s0 {} (chunk_map c (G offset)) s \<Longrightarrow> start \<le> offset \<Longrightarrow>
    offset + len = limit \<Longrightarrow> wp (for_each_cow_range L root session operation c offset len change) Q E s"
proof (induction len arbitrary: offset s rule: less_induct)
  case (less len)
  show ?case
  proof (cases "len = 0")
    case True
    with less.prems Q show ?thesis
      by (subst for_each_cow_range.simps) (auto intro: wp_ret)
  next
    case False
    let ?amount = "min len (c - offset mod c)"
    have w: "offset mod c < c" using c by simp
    have amount: "0 < ?amount" "offset mod c + ?amount \<le> c" "offset + ?amount \<le> limit"
      using False w less.prems(3) by auto
    have add: "u64_checked_add offset ?amount = Some (offset + ?amount)"
      using amount lim c by (simp add: u64_checked_add_def)
    have rest: "wp (for_each_cow_range L root session operation c (offset + ?amount) (len - ?amount) change) Q E s'"
      if "session_state L root session s0 {} (chunk_map c (G (offset + ?amount))) s'" for s'
      using False amount less.prems(2,3) by (intro less.IH [OF _ that]) auto
    have "wp (replace_chunk L root session operation (offset div c) (\<lambda>i. change i (offset mod c) ?amount))
        (\<lambda>_. wp (for_each_cow_range L root session operation c (offset + ?amount) (len - ?amount) change) Q E) E s"
      by (rule wp_range_step [OF laws c(1) step lim less.prems(1,2) amount]) (erule rest, erule E)
    then show ?thesis
      using False c add by (subst for_each_cow_range.simps) (auto simp: Let_def intro!: wp_then)
  qed
qed

lemma wp_write_cow_range:
  assumes laws: "sparse_laws L" and c: "0 < c" "c * MAX_CHUNK_COUNT \<le> U64_MAX"
    and d: "start \<le> length d" and lim: "start + length all_bytes \<le> c * MAX_CHUNK_COUNT"
    and Q: "\<And>s'. session_state L root session s0 {} (chunk_map c (overwrite d start all_bytes)) s' \<Longrightarrow> Q () s'"
    and E: "\<And>s' k. session_state L root session s0 (leftovers L operation)
        (chunk_map c (overwrite d start (take k all_bytes))) s' \<Longrightarrow> E s'"
  shows "session_state L root session s0 {} (chunk_map c (overwrite d start (take k all_bytes))) s \<Longrightarrow>
    bytes = drop k all_bytes \<Longrightarrow> k \<le> length all_bytes \<Longrightarrow>
    wp (write_cow_range L root session operation c (start + k) bytes) Q E s"
proof (induction "length bytes" arbitrary: k bytes s rule: less_induct)
  case less
  define G where "G off = overwrite d start (take (off - start) all_bytes)" for off
  show ?case
  proof (cases "bytes = []")
    case True
    with less.prems Q show ?thesis
      by (subst write_cow_range.simps) (auto intro: wp_ret)
  next
    case False
    let ?off = "start + k" and ?limit = "start + length all_bytes"
    let ?amount = "min (length bytes) (c - ?off mod c)"
    have w: "?off mod c < c" using c by simp
    have pos: "0 < length bytes" using False by simp
    have amount: "0 < ?amount" "?off mod c + ?amount \<le> c" "?off + ?amount \<le> ?limit"
      using pos w less.prems(2,3) by auto
    have step: "range_step c start ?limit G (\<lambda>off n. write_segment (take n (drop (off - start) all_bytes)) (off mod c))"
      unfolding range_step_def
    proof (intro allI impI, elim conjE)
      fix off n assume off: "start \<le> off" "0 < n" "off mod c + n \<le> c" "off + n \<le> ?limit"
      let ?seg = "take n (drop (off - start) all_bytes)"
      have len: "length ?seg = n" using off by auto
      have "length (take (off - start) all_bytes) = off - start" using off by auto
      then have "G (off + n) = overwrite (G off) off ?seg"
        using overwrite_overwrite [OF d, of "take (off - start) all_bytes" ?seg] off(1)
        by (simp add: G_def take_add [symmetric])
      moreover have "off \<le> length (G off)" using off by (auto simp: G_def)
      ultimately have "chunk_map c (G (off + n)) = (chunk_map c (G off))
          (off div c \<mapsto> overwrite (old_chunk (chunk_map c (G off)) (off div c)) (off mod c) ?seg)"
        using chunk_map_overwrite [OF c(1), of off "G off" ?seg] len off(2,3) by auto
      with mutates_write_segment
      show "\<exists>b. mutates (write_segment ?seg (off mod c)) (old_chunk (chunk_map c (G off)) (off div c)) b
         \<and> chunk_map c (G (off + n)) = (chunk_map c (G off))(off div c \<mapsto> b)"
        by blast
    qed
    have add: "u64_checked_add ?off ?amount = Some (?off + ?amount)"
      using amount lim c by (simp add: u64_checked_add_def)
    have rest: "wp (write_cow_range L root session operation c (?off + ?amount) (drop ?amount bytes)) Q E s'"
      if "session_state L root session s0 {} (chunk_map c (G (?off + ?amount))) s'" for s'
    proof -
      have "wp (write_cow_range L root session operation c (start + (k + ?amount)) (drop ?amount bytes)) Q E s'"
      proof (rule less.hyps)
        show "length (drop ?amount bytes) < length bytes" using pos amount(1) by simp
        show "session_state L root session s0 {} (chunk_map c (overwrite d start (take (k + ?amount) all_bytes))) s'"
          using that by (simp add: G_def add.assoc)
        show "drop ?amount bytes = drop (k + ?amount) all_bytes"
          using less.prems(2) by (simp add: add.commute)
        show "k + ?amount \<le> length all_bytes"
          using amount(3) by simp
      qed
      then show ?thesis by (simp only: add.assoc)
    qed
    have st: "session_state L root session s0 {} (chunk_map c (G ?off)) s"
      using less.prems(1) by (simp add: G_def)
    have E': "E s'" if "session_state L root session s0 (leftovers L operation) (chunk_map c (G j)) s'" for s' j
      using that by (auto simp: G_def intro: E)
    have "wp (replace_chunk L root session operation (?off div c)
          (write_segment (take ?amount (drop (?off - start) all_bytes)) (?off mod c)))
        (\<lambda>_. wp (write_cow_range L root session operation c (?off + ?amount) (drop ?amount bytes)) Q E) E s"
      by (rule wp_range_step [OF laws c(1) step lim st _ amount]) (simp, erule rest, erule E')
    then show ?thesis
      using False c add less.prems(2)
      by (subst write_cow_range.simps) (auto simp: Let_def intro!: wp_then)
  qed
qed

end
