(* ===== verification/Cow_Operations.thy ===== *)
theory Cow_Operations
  imports Cow_Refine
begin

text \<open>
  The operations of a write session against the flat content: writing, truncating, allocating and
  deallocating, with and without faults.
\<close>

definition cow_session ::
  "storage_lib \<Rightarrow> StorageLayout \<Rightarrow> uuid \<Rightarrow> nat \<Rightarrow> bytes \<Rightarrow> fs \<Rightarrow> bool" where
  "cow_session L root session c d s \<longleftrightarrow> session_state L root session s {} (chunk_map c d) s"

definition interrupted_session ::
  "storage_lib \<Rightarrow> StorageLayout \<Rightarrow> uuid \<Rightarrow> uuid \<Rightarrow> nat \<Rightarrow> bytes \<Rightarrow> fs \<Rightarrow> bool" where
  "interrupted_session L root session operation c d s \<longleftrightarrow>
     session_state L root session s (leftovers L operation) (chunk_map c d) s"

lemma session_state_self:
  assumes "session_state L root session s0 T m s"
  shows "session_state L root session s T m s"
    and "untouched (cow_path L root session) s0 s"
  using assms session_secure [OF assms] by (auto simp: session_state_def untouched_refl)

lemma validate_chunk_size_bounds:
  assumes "validate_chunk_size c = Ok ()"
  shows "0 < c" and "c * MAX_CHUNK_COUNT \<le> U64_MAX" and "c \<le> U64_MAX"
proof -
  from assms have c: "MIN_CHUNK_SIZE \<le> c" "c \<le> MAX_CHUNK_SIZE"
    by (auto simp: validate_chunk_size_def split: if_splits)
  then show "0 < c" by (simp add: MIN_CHUNK_SIZE_def)
  have "c * MAX_CHUNK_COUNT \<le> MAX_CHUNK_SIZE * MAX_CHUNK_COUNT"
    using c(2) by (rule mult_le_mono1)
  also have "\<dots> \<le> U64_MAX"
    by (simp add: MAX_CHUNK_SIZE_def MAX_CHUNK_COUNT_def U64_MAX_def)
  finally show "c * MAX_CHUNK_COUNT \<le> U64_MAX" .
  show "c \<le> U64_MAX"
    using c(2) by (simp add: MAX_CHUNK_SIZE_def U64_MAX_def)
qed

section \<open>Padding, allocating and punching one chunk\<close>

lemma mutates_pad_to_end:
  assumes "w + n \<le> c" "c \<le> U64_MAX"
  shows "mutates (\<lambda>i. pad_to_end i w n) b (pad_to (w + n) b)"
  using mutates_pad_file_to [of "w + n" b] assms by (simp add: pad_to_end_def u64_checked_add_def)

lemma wp_fallocate_created:
  assumes "created s p b s1"
    and law: "\<And>c. contents c = b \<Longrightarrow> \<exists>c'. fallocate L flags w n c = Ok c' \<and> contents c' = b'"
    and Q: "\<And>s2. created s p b' s2 \<Longrightarrow> Q () s2" and "E s1"
  shows "wp (try_errno (fallocate_call L flags (next_ino s) w n)) Q E s1"
proof -
  obtain m c where m: "inodes s1 (next_ino s) = Some m" "ftype m = Regular c" "contents c = b"
    using created_cell [OF assms(1)] .
  obtain c' where c': "fallocate L flags w n c = Ok c'" "contents c' = b'"
    using law [OF m(3)] by blast
  have "created s p b' (touch (next_ino s) (set_inode (next_ino s) (m\<lparr>ftype := Regular c'\<rparr>) s1))"
    using created_change [OF assms(1) m(1), of c'] c'(2) by simp
  from Q [OF this] show ?thesis
    unfolding try_errno_def fallocate_call_def
    by (intro wp_match [where r = "Ok ()"
          and s' = "touch (next_ino s) (set_inode (next_ino s) (m\<lparr>ftype := Regular c'\<rparr>) s1)"])
      (use m c' assms(4) in \<open>auto intro: wp_ret simp: storage_errno_def\<close>)
qed

lemma mutates_punch_step:
  assumes laws: "sparse_laws L" and "0 < n" "w + n \<le> length b"
  shows "mutates (\<lambda>i. punch_step L i w n) b (overwrite b w (zeros n))"
  unfolding mutates_def punch_step_def
proof (intro allI impI)
  fix s p s1 assume s1: "created s p b s1"
  show "wp (try_errno (fallocate_call L PunchHoleKeepSize (next_ino s) w n))
      (\<lambda>_. created s p (overwrite b w (zeros n))) (part_written s p) s1"
  proof (rule wp_fallocate_created [OF s1])
    fix c assume "contents c = b"
    moreover from this have "w + n \<le> length c" using assms(3) by auto
    ultimately show "\<exists>c'. fallocate L PunchHoleKeepSize w n c = Ok c' \<and> contents c' = overwrite b w (zeros n)"
      using laws assms(2) unfolding sparse_laws_def by blast
  qed (simp_all add: created_part_written [OF s1])
qed

lemma mutates_allocate_step:
  assumes laws: "sparse_laws L" and n: "0 < n" and "w + n \<le> c" "c \<le> U64_MAX"
  shows "mutates (\<lambda>i. allocate_step L i w n) b (pad_to (w + n) b)"
  unfolding mutates_def allocate_step_def
proof (intro allI impI wp_then)
  fix s p s1 assume s1: "created s p b s1"
  have "wp (pad_to_end (next_ino s) w n) (\<lambda>_. created s p (pad_to (w + n) b)) (part_written s p) s1"
    using mutates_pad_to_end [OF assms(3,4)] s1 by (simp add: mutates_def)
  then show "wp (pad_to_end (next_ino s) w n)
      (\<lambda>_. wp (try_errno (fallocate_call L NoFlags (next_ino s) w n))
        (\<lambda>_. created s p (pad_to (w + n) b)) (part_written s p)) (part_written s p) s1"
  proof (rule wp_conseq)
    fix x s2 assume s2: "created s p (pad_to (w + n) b) s2"
    show "wp (try_errno (fallocate_call L NoFlags (next_ino s) w n))
        (\<lambda>_. created s p (pad_to (w + n) b)) (part_written s p) s2"
    proof (rule wp_fallocate_created [OF s2])
      fix f assume f: "contents f = pad_to (w + n) b"
      obtain f' where "fallocate L NoFlags w n f = Ok f'" "contents f' = pad_to (w + n) (contents f)"
        using laws n unfolding sparse_laws_def by blast
      with f show "\<exists>c'. fallocate L NoFlags w n f = Ok c' \<and> contents c' = pad_to (w + n) b"
        by simp
    qed (simp_all add: created_part_written [OF s2])
  qed
qed

section \<open>Ranges on the flat content\<close>

lemma pad_to_pad_to: "m \<le> n \<Longrightarrow> pad_to n (pad_to m d) = pad_to n d"
proof (cases "m \<le> length d")
  case False
  moreover assume "m \<le> n"
  ultimately have "n - length d = (m - length d) + (n - m)" by simp
  then have "zeros (n - length d) = zeros (m - length d) @ zeros (n - m)"
    by (simp only: zeros_add)
  with False show ?thesis by (simp add: pad_to_def max_def)
qed simp

lemma range_step_pad:
  assumes c: "0 < c"
    and m: "\<And>off n b. 0 < n \<Longrightarrow> off mod c + n \<le> c \<Longrightarrow>
      mutates (change off n) b (pad_to (off mod c + n) b)"
  shows "range_step c start limit (\<lambda>k. pad_to k d) change"
  unfolding range_step_def
proof (intro allI impI, elim conjE)
  fix off n assume off: "start \<le> off" "0 < n" "off mod c + n \<le> c" "off + n \<le> limit"
  have "chunk_map c (pad_to (off + n) (pad_to off d)) = (chunk_map c (pad_to off d))
      (off div c \<mapsto> pad_to (off mod c + n) (old_chunk (chunk_map c (pad_to off d)) (off div c)))"
    using c off by (intro chunk_map_pad) auto
  then have "chunk_map c (pad_to (off + n) d) = (chunk_map c (pad_to off d))
      (off div c \<mapsto> pad_to (off mod c + n) (old_chunk (chunk_map c (pad_to off d)) (off div c)))"
    by (simp add: pad_to_pad_to)
  with m [OF off(2,3)] show "\<exists>b. mutates (change off n)
      (old_chunk (chunk_map c (pad_to off d)) (off div c)) b
    \<and> chunk_map c (pad_to (off + n) d) = (chunk_map c (pad_to off d))(off div c \<mapsto> b)"
    by blast
qed

lemma range_step_punch:
  assumes laws: "sparse_laws L" and c: "0 < c" and limit: "limit \<le> length d"
  shows "range_step c start limit (\<lambda>k. overwrite d start (zeros (k - start)))
    (\<lambda>off n i. punch_step L i (off mod c) n)"
  unfolding range_step_def
proof (intro allI impI, elim conjE)
  fix off n assume off: "start \<le> off" "0 < n" "off mod c + n \<le> c" "off + n \<le> limit"
  let ?d = "overwrite d start (zeros (off - start))"
  let ?old = "old_chunk (chunk_map c ?d) (off div c)"
  have len: "length ?d = length d" using off limit by simp
  have start: "start \<le> length d" using off limit by simp
  have "overwrite ?d off (zeros n) = overwrite d start (zeros (off - start) @ zeros n)"
    using overwrite_overwrite [OF start, of "zeros (off - start)" "zeros n"] off(1) by simp
  also have "zeros (off - start) @ zeros n = zeros (off + n - start)"
    using off(1) by (simp add: zeros_add [symmetric])
  finally have "overwrite d start (zeros (off + n - start)) = overwrite ?d off (zeros n)" ..
  moreover have "chunk_map c (overwrite ?d off (zeros n)) =
      (chunk_map c ?d)(off div c \<mapsto> overwrite ?old (off mod c) (zeros n))"
    using c off limit len by (intro chunk_map_overwrite) (auto simp: zeros_def)
  moreover have "mutates (\<lambda>i. punch_step L i (off mod c) n) ?old (overwrite ?old (off mod c) (zeros n))"
  proof (rule mutates_punch_step [OF laws off(2)])
    have "off div c * c + off mod c + n \<le> length d" using off(4) limit by simp
    then have "off mod c + n \<le> length d - off div c * c" by linarith
    then show "off mod c + n \<le> length ?old"
      using off(3) by (simp add: old_chunk_map len)
  qed
  ultimately show "\<exists>b. mutates (\<lambda>i. punch_step L i (off mod c) n) ?old b
    \<and> chunk_map c (overwrite d start (zeros (off + n - start))) = (chunk_map c ?d)(off div c \<mapsto> b)"
    by auto
qed

lemma wp_extend_to_offset:
  assumes laws: "sparse_laws L" and c: "validate_chunk_size c = Ok ()"
    and st: "session_state L root session s0 {} (chunk_map c d) s" and lim: "offset \<le> c * MAX_CHUNK_COUNT"
    and Q: "\<And>s'. session_state L root session s0 {} (chunk_map c (pad_to offset d)) s' \<Longrightarrow> Q () s'"
    and E: "\<And>s' k. session_state L root session s0 (leftovers L operation) (chunk_map c (pad_to k d)) s' \<Longrightarrow>
      length d \<le> k \<Longrightarrow> k \<le> offset \<Longrightarrow> E s'"
  shows "wp (extend_to_offset L root session operation c (length d) offset) Q E s"
proof (cases "offset > length d")
  case True
  note cb = validate_chunk_size_bounds [OF c]
  have "wp (extend_cow_with_holes L root session operation c (length d) (offset - length d)) Q E s"
    unfolding extend_cow_with_holes_def
  proof (rule wp_for_each_cow_range [OF laws cb(1,2)])
    show "range_step c (length d) offset (\<lambda>k. pad_to k d)
        (\<lambda>offset amount i. pad_to_end i (offset mod c) amount)"
      using cb by (intro range_step_pad mutates_pad_to_end [where c = c]) auto
    show "session_state L root session s0 {} (chunk_map c (pad_to (length d) d)) s" using st by simp
  qed (use True lim in \<open>auto intro: Q E\<close>)
  with True show ?thesis by (simp add: extend_to_offset_def)
next
  case False
  with st show ?thesis by (auto simp: extend_to_offset_def intro!: wp_ret Q)
qed

section \<open>Writing\<close>

definition write_interrupted :: "bytes \<Rightarrow> nat \<Rightarrow> bytes \<Rightarrow> bytes \<Rightarrow> bool" where
  "write_interrupted d offset bs d' \<longleftrightarrow>
     (\<exists>k. length d \<le> k \<and> k \<le> offset \<and> d' = pad_to k d) \<or> (\<exists>k. d' = overwrite d offset (take k bs))"

lemma wp_write_cow_at:
  assumes laws: "sparse_laws L" and c: "validate_chunk_size c = Ok ()"
    and st: "session_state L root session s0 {} (chunk_map c d) s"
    and lim: "offset + length bs \<le> c * MAX_CHUNK_COUNT"
    and Q: "\<And>s'. session_state L root session s0 {} (chunk_map c (overwrite d offset bs)) s' \<Longrightarrow>
      Q (cow_result (max (length d) (offset + length bs)) (length d)) s'"
    and E: "\<And>s' d'. session_state L root session s0 (leftovers L operation) (chunk_map c d') s' \<Longrightarrow>
      write_interrupted d offset bs d' \<Longrightarrow> E s'"
  shows "wp (write_cow_at L root session operation c (length d) offset bs) Q E s"
proof -
  note cb = validate_chunk_size_bounds [OF c]
  have add: "ok_or (u64_checked_add offset (length bs)) StateConflict = Ok (offset + length bs)"
    using lim cb by (simp add: u64_checked_add_def)
  have E1: "E s'" if "session_state L root session s0 (leftovers L operation) (chunk_map c (pad_to k d)) s'"
    "length d \<le> k" "k \<le> offset" for s' k
    using E [OF that(1)] that by (auto simp: write_interrupted_def)
  have E2: "E s'" if "session_state L root session s0 (leftovers L operation)
      (chunk_map c (overwrite (pad_to offset d) offset (take k bs))) s'" for s' k
    using E [of "overwrite d offset (take k bs)"] that by (auto simp: write_interrupted_def overwrite_pad_to)
  have writing: "wp (write_cow_range L root session operation c offset bs)
      (\<lambda>_. wp (ret (cow_result (max (length d) (offset + length bs)) (length d))) Q E) E s1"
    if s1: "session_state L root session s0 {} (chunk_map c (pad_to offset d)) s1" for s1
  proof -
    have "wp (write_cow_range L root session operation c (offset + 0) bs)
      (\<lambda>_. wp (ret (cow_result (max (length d) (offset + length bs)) (length d))) Q E) E s1"
    proof (rule wp_write_cow_range [OF laws cb(1,2), where d = "pad_to offset d" and all_bytes = bs])
      show "session_state L root session s0 {} (chunk_map c (overwrite (pad_to offset d) offset (take 0 bs))) s1"
        using s1 by (simp add: overwrite_Nil)
    qed (use lim in \<open>auto intro!: wp_ret Q E2 simp: overwrite_pad_to\<close>)
    then show ?thesis by simp
  qed
  show ?thesis
    unfolding write_cow_at_def
    using c add lim writing E1
    by (intro wp_then wp_lift_Ok [OF c] wp_lift_Ok [OF add] wp_extend_to_offset [OF laws c st]) auto
qed

section \<open>Truncating\<close>

lemma is_ascii_append [simp]: "is_ascii (a @ b) \<longleftrightarrow> is_ascii a \<and> is_ascii b"
  by (simp add: is_ascii_def)

lemma is_ascii_digits: "list_all is_ascii_digit s \<Longrightarrow> is_ascii s"
  by (auto simp: is_ascii_def list_all_iff is_ascii_digit_def byte_def)

lemma is_ascii_part: "is_ascii ''.part''"
  by (simp add: is_ascii_def byte_def)

lemma parse_cow_chunk_name_name:
  assumes "n < MAX_CHUNK_COUNT"
  shows "parse_cow_chunk_name (cow_chunk_name n) = Ok n"
proof -
  let ?digits = "zero_pad 8 (decimal n)"
  have "length (decimal n) \<le> 8"
    using assms by (intro length_decimal) (simp_all add: MAX_CHUNK_COUNT_def)
  then have len: "length ?digits = 8" by (simp add: zero_pad_def)
  then obtain x r where cons: "?digits = x # r" by (cases ?digits) auto
  have digit: "list_all is_ascii_digit ?digits" by (rule zero_pad_digits)
  with cons have "x \<noteq> CHR ''+''" by (auto simp: is_ascii_digit_def byte_def)
  moreover have "int n \<le> int U64_MAX"
    using assms by (simp add: MAX_CHUNK_COUNT_def U64_MAX_def)
  ultimately have "parse_u64 ?digits = Some n"
    using digit zero_pad_decimal [of 8 n] unfolding parse_u64_def cons by simp
  moreover have "strip_suffix_str ''.part'' (cow_chunk_name n) = Some ?digits"
    by (simp only: strip_suffix_str_Some cow_chunk_name_def)
  moreover have "utf8_valid (cow_chunk_name n)"
    unfolding cow_chunk_name_def
    by (intro utf8_valid_ascii) (simp only: is_ascii_append is_ascii_digits [OF digit] is_ascii_part)
  ultimately show ?thesis using len by (simp add: parse_cow_chunk_name_def)
qed

lemma remove_holds:
  assumes ok: "fs_ok s" and h: "holds_chunks D {} m s" and k: "m k = Some b"
  shows "holds_chunks D {} (m(k := None)) (remove_entry (D @ [cow_chunk_name k]) s)"
    and "untouched D s (remove_entry (D @ [cow_chunk_name k]) s)"
    and "fs_ok (remove_entry (D @ [cow_chunk_name k]) s)"
    and "\<exists>n. lookup s (D @ [cow_chunk_name k]) = Some n \<and> ftype n \<noteq> Directory"
proof -
  let ?p = "D @ [cow_chunk_name k]" and ?t = "remove_entry (D @ [cow_chunk_name k]) s"
  have same: "lookup ?t q = lookup s q" if "q \<noteq> ?p" for q
    using that by (intro lookup_cong) (simp_all add: delete_conv')
  have cf: "chunk_file s ?p b" using holds_chunksD(2) [OF h k] .
  then show "\<exists>n. lookup s ?p = Some n \<and> ftype n \<noteq> Directory"
    by (auto simp: chunk_file_def)
  show "fs_ok ?t"
    using no_descendants [OF ok chunk_file_no_dir [OF cf]] by (intro fs_ok_remove_entry [OF ok]) simp
  show "untouched D s ?t"
    by (auto simp: untouched_def strict_prefix_def delete_conv')
  show "holds_chunks D {} (m(k := None)) ?t"
    unfolding holds_chunks_def
  proof (intro conjI allI impI)
    fix j
    show "case (m(k := None)) j of None \<Rightarrow> map_of (names ?t) (D @ [cow_chunk_name j]) = None
      | Some b' \<Rightarrow> chunk_file ?t (D @ [cow_chunk_name j]) b'"
    proof (cases "j = k")
      case False
      then have ne: "D @ [cow_chunk_name j] \<noteq> ?p" by simp
      show ?thesis
        using holds_chunksD(1,2) [OF h, of j] False ne chunk_file_transfer [OF same [OF ne]]
        by (auto simp: delete_conv' split: option.splits)
    qed (simp add: delete_conv')
  next
    fix y assume y: "map_of (names ?t) (D @ [y]) \<noteq> None"
    then have "y \<noteq> cow_chunk_name k" "\<exists>i. map_of (names s) (D @ [y]) = Some i"
      by (auto simp: delete_conv' split: if_splits)
    then show "(\<exists>j. y = cow_chunk_name j \<and> (m(k := None)) j \<noteq> None) \<or> y \<in> {} \<and> stray_file ?t (D @ [y])"
      using holds_chunksD(3) [OF h] by fastforce
  qed
qed

definition drop_listed :: "nat \<Rightarrow> string list \<Rightarrow> (nat \<Rightarrow> bytes option) \<Rightarrow> nat \<Rightarrow> bytes option" where
  "drop_listed r ys m k = (if r \<le> k \<and> cow_chunk_name k \<in> set ys then None else m k)"

lemma wp_truncate_loop:
  assumes st: "session_state L root session s0 {} m s" and bound: "\<And>k. m k \<noteq> None \<Longrightarrow> k < MAX_CHUNK_COUNT"
    and E: "\<And>ys s'. session_state L root session s0 {} (drop_listed r ys m) s' \<Longrightarrow> E s'"
  shows "wp (io_each (\<lambda>name.
       io_then (lift_result (parse_cow_chunk_name name)) (\<lambda>number.
       if number \<ge> r then
         io_then (verify_regular_file (cow_path L root session @ [name])) (\<lambda>_.
         try_sys (remove_file (cow_path L root session @ [name])))
       else ret ())) (children s (cow_path L root session)))
     (\<lambda>_. session_state L root session s0 {} (\<lambda>k. if r \<le> k then None else m k)) E s"
    (is "wp (io_each ?f ?xs) _ E s")
proof -
  let ?D = "cow_path L root session"
  have distinct: "distinct ?xs" using distinct_children fs_ok_distinct session_stateD(1) [OF st] by blast
  have set: "set ?xs = {x. map_of (names s) (?D @ [x]) \<noteq> None}"
    using set_children fs_ok_distinct session_stateD(1) [OF st] by blast
  have listed: "cow_chunk_name k \<in> set ?xs \<longleftrightarrow> m k \<noteq> None" for k
    using holds_chunksD(1,2) [OF session_stateD(2) [OF st], of k]
    by (cases "m k") (auto simp: set chunk_file_def lookup_Some)
  have "wp (io_each ?f ?xs) (\<lambda>_. session_state L root session s0 {} (drop_listed r ?xs m)) E s"
  proof (rule wp_each [where J = "\<lambda>ys. session_state L root session s0 {} (drop_listed r ys m)"])
    show "session_state L root session s0 {} (drop_listed r [] m) s"
      using st by (simp add: drop_listed_def [abs_def])
  next
    fix x ys zs s1
    assume split: "?xs = ys @ x # zs" and s1: "session_state L root session s0 {} (drop_listed r ys m) s1"
    from split have "x \<in> set ?xs" and fresh: "x \<notin> set ys" using distinct by auto
    then obtain k b where k: "x = cow_chunk_name k" "m k = Some b"
      using holds_chunksD(3) [OF session_stateD(2) [OF st], of x] set by fastforce
    have mk: "drop_listed r ys m k = Some b" using k fresh by (simp add: drop_listed_def)
    have next_m: "drop_listed r (ys @ [x]) m = (if r \<le> k then (drop_listed r ys m)(k := None) else drop_listed r ys m)"
      using k by (auto simp: drop_listed_def)
    have parse: "parse_cow_chunk_name x = Ok k"
      using bound k parse_cow_chunk_name_name by simp
    note h = session_stateD(2) [OF s1] and ok = session_stateD(1) [OF s1]
    note rem = remove_holds [OF ok h mk, folded k(1)]
    have cf: "chunk_file s1 (?D @ [x]) b" using holds_chunksD(2) [OF h mk] k by simp
    have after: "session_state L root session s0 {} (drop_listed r (ys @ [x]) m) (remove_entry (?D @ [x]) s1)"
      if "r \<le> k" using session_state_step [OF s1 rem(3,2,1)] next_m that by simp
    obtain n where n: "lookup s1 (?D @ [x]) = Some n" "ftype n \<noteq> Directory" using rem(4) by blast
    show "wp (?f x) (\<lambda>_. session_state L root session s0 {} (drop_listed r (ys @ [x]) m)) E s1"
    proof (rule wp_then, rule wp_lift_Ok [OF parse])
      show "wp (if r \<le> k then io_then (verify_regular_file (?D @ [x])) (\<lambda>_. try_sys (remove_file (?D @ [x])))
          else ret ()) (\<lambda>_. session_state L root session s0 {} (drop_listed r (ys @ [x]) m)) E s1"
      proof (cases "r \<le> k")
        case True
        have "wp (verify_regular_file (?D @ [x]))
          (\<lambda>_. wp (try_sys (remove_file (?D @ [x])))
            (\<lambda>_. session_state L root session s0 {} (drop_listed r (ys @ [x]) m)) E) E s1"
          using session_stateD(3) [OF s1] E [OF s1] after [OF True] n
          by (intro wp_verify_regular_file [OF cf] wp_remove_file [OF n]) auto
        with True show ?thesis by (simp add: wp_then)
      next
        case False
        with next_m s1 show ?thesis by (simp add: wp_ret)
      qed
    qed
  qed
  moreover have "drop_listed r ?xs m = (\<lambda>k. if r \<le> k then None else m k)"
    using listed by (auto simp: drop_listed_def)
  ultimately show ?thesis by simp
qed

lemma chunk_map_take:
  assumes c: "0 < c" and n: "0 < n" "n \<le> length d"
  shows "chunk_map c (take n d) = (\<lambda>k. if div_ceil n c \<le> k then None else chunk_map c d k)
      ((n - 1) div c \<mapsto> take (n - (n - 1) div c * c) (take c (drop ((n - 1) div c * c) d)))"
    and "div_ceil n c = (n - 1) div c + 1"
    and "n - (n - 1) div c * c \<le> c" and "(n - 1) div c * c < n"
proof -
  define q where "q = (n - 1) div c"
  define w where "w = (n - 1) mod c"
  have n1: "n = q * c + w + 1" using n(1) by (simp add: q_def w_def)
  have w: "w < c" using c by (simp add: w_def)
  have "div_ceil n c = q + 1"
  proof (cases "w + 1 = c")
    case True
    then have "n = (q + 1) * c" using n1 by simp
    then show ?thesis using c by (simp add: div_ceil_def)
  next
    case False
    then have "n div c = q" "n mod c = w + 1"
      using n1 w c by (auto simp: div_nat_eqI mod_nat_eqI)
    then show ?thesis by (simp add: div_ceil_def)
  qed
  then show ceil: "div_ceil n c = (n - 1) div c + 1" by (simp add: q_def)
  show "n - (n - 1) div c * c \<le> c" "(n - 1) div c * c < n"
    using n1 w by (simp_all add: q_def [symmetric])
  show "chunk_map c (take n d) = (\<lambda>k. if div_ceil n c \<le> k then None else chunk_map c d k)
      ((n - 1) div c \<mapsto> take (n - (n - 1) div c * c) (take c (drop ((n - 1) div c * c) d)))"
    unfolding ceil q_def [symmetric]
  proof
    fix k
    consider "k < q" | "k = q" | "q < k" by linarith
    then show "chunk_map c (take n d) k =
        ((\<lambda>k. if q + 1 \<le> k then None else chunk_map c d k)(q \<mapsto> take (n - q * c) (take c (drop (q * c) d)))) k"
    proof cases
      case 1
      then have "(k + 1) * c \<le> q * c" by (intro mult_le_mono1) simp
      then have le: "k * c + c \<le> n" using n1 by simp
      then have "take c (drop (k * c) (take n d)) = take c (drop (k * c) d)"
        by (simp add: drop_take min_def)
      then show ?thesis using 1 n c le by (simp add: chunk_map_def)
    next
      case 2
      have "take c (drop (q * c) (take n d)) = take (n - q * c) (take c (drop (q * c) d))"
        by (simp add: drop_take min.commute)
      with 2 show ?thesis using n1 n by (simp add: chunk_map_def)
    next
      case 3
      then have "(q + 1) * c \<le> k * c" by (intro mult_le_mono1) simp
      then have "n \<le> k * c" using n1 w by simp
      then show ?thesis using 3 by (simp add: chunk_map_def)
    qed
  qed
qed

lemma wp_set_len_chunk:
  "mutates (\<lambda>i. try_sys (set_len i n)) b (take n b @ zeros (n - length b))"
  unfolding mutates_def by (blast intro: wp_set_len_created created_part_written)

lemma wp_truncate_shrink:
  assumes laws: "sparse_laws L" and c: "validate_chunk_size c = Ok ()"
    and st: "session_state L root session s0 {} (chunk_map c d) s"
    and n: "n < length d" and lim: "length d \<le> c * MAX_CHUNK_COUNT"
    and Q: "\<And>s'. session_state L root session s0 {} (chunk_map c (take n d)) s' \<Longrightarrow> Q (cow_result n (length d)) s'"
    and E: "\<And>s' m'. session_state L root session s0 (leftovers L operation) m' s' \<Longrightarrow>
      \<forall>k. m' k = chunk_map c d k \<or> m' k = chunk_map c (take n d) k \<Longrightarrow> E s'"
  shows "wp (truncate_cow L root session operation c (length d) n) Q E s"
proof -
  let ?D = "cow_path L root session" and ?m = "chunk_map c d" and ?r = "div_ceil n c"
  let ?m1 = "\<lambda>k. if ?r \<le> k then None else ?m k"
  note cb = validate_chunk_size_bounds [OF c]
  have bound: "k < MAX_CHUNK_COUNT" if "?m k \<noteq> None" for k
  proof -
    have "k * c < length d" using that by (auto simp: chunk_map_def split: if_splits)
    also have "\<dots> \<le> MAX_CHUNK_COUNT * c" using lim by (simp only: mult.commute)
    finally show ?thesis by simp
  qed
  have E0: "E s'" if "session_state L root session s0 {} m' s'"
    "\<forall>k. m' k = ?m k \<or> m' k = chunk_map c (take n d) k" for s' m'
    using E [OF session_state_mono [OF that(1)] that(2)] by simp
  have r_new: "chunk_map c (take n d) k = None" if "?r \<le> k" for k
  proof (cases "n = 0")
    case False
    then show ?thesis
      using chunk_map_take [OF cb(1), of n d] n that by simp
  qed (simp add: chunk_map_def)
  have Eloop: "E s'" if "session_state L root session s0 {} (drop_listed ?r ys ?m) s'" for ys s'
    using that r_new by (intro E0 [OF that]) (auto simp: drop_listed_def)
  have E1: "E s1" if s1: "session_state L root session s0 {} ?m1 s1" for s1
    using E0 [OF s1] r_new by simp
  have last: "wp (if n > 0 then replace_chunk L root session operation ((n - 1) div c)
        (\<lambda>file. try_sys (set_len file (n - (n - 1) div c * c))) else ret ())
      (\<lambda>_ s2. session_state L root session s0 {} (chunk_map c (take n d)) s2) E s1"
    if s1: "session_state L root session s0 {} ?m1 s1" for s1
  proof (cases "n = 0")
    case True
    then have "?m1 = chunk_map c (take n d)" by (auto simp: chunk_map_def div_ceil_def)
    with s1 True show ?thesis by (simp add: wp_ret)
  next
    case False
    let ?q = "(n - 1) div c"
    note tk = chunk_map_take [OF cb(1), of n d]
    have q: "?q < MAX_CHUNK_COUNT"
      using bound [of ?q] tk(4) n False by (simp add: chunk_map_def)
    moreover have old: "old_chunk ?m1 ?q = take c (drop (?q * c) d)"
      using tk(2,4) n False by (simp add: old_chunk_def chunk_map_def)
    moreover have "take (n - ?q * c) (old_chunk ?m1 ?q) @ zeros (n - ?q * c - length (old_chunk ?m1 ?q))
        = take (n - ?q * c) (take c (drop (?q * c) d))"
      unfolding old using tk(3) n False by simp
    moreover have map: "chunk_map c (take n d) = ?m1(?q \<mapsto> take (n - ?q * c) (take c (drop (?q * c) d)))"
      using tk(1) n False by simp
    ultimately have "wp (replace_chunk L root session operation ?q (\<lambda>file. try_sys (set_len file (n - ?q * c))))
      (\<lambda>_ s2. session_state L root session s0 {} (chunk_map c (take n d)) s2) E s1"
      using wp_set_len_chunk [of "n - ?q * c" "old_chunk ?m1 ?q"] r_new
      by (intro wp_replace_chunk [OF laws s1])
        (auto intro!: E elim!: session_state_mono simp: leftovers_def simp del: One_nat_def)
    with False show ?thesis by simp
  qed
  have complete: "wp (sync_directory ?D) (\<lambda>_. wp (ret (cow_result n (length d))) Q E) E s2"
    if s2: "session_state L root session s0 {} (chunk_map c (take n d)) s2" for s2
    using session_stateD(3) [OF s2] Q [OF s2] E0 [OF s2] by (auto intro!: wp_sync_directory wp_ret)
  have finish: "wp (if n > 0 then replace_chunk L root session operation ((n - 1) div c)
        (\<lambda>file. try_sys (set_len file (n - (n - 1) div c * c))) else ret ())
      (\<lambda>_. wp (sync_directory ?D) (\<lambda>_. wp (ret (cow_result n (length d))) Q E) E) E s1"
    if "session_state L root session s0 {} ?m1 s1" for s1
    by (rule wp_conseq [OF last [OF that]]) (rule complete)
  have Es: "E s" using E0 [OF st] by simp
  have not_gt: "\<not> length d < n" using n by simp
  show ?thesis
    unfolding truncate_cow_def Let_def if_not_P [OF not_gt] if_P [OF n]
    using session_stateD(3,4) [OF st] Es secure_dir_is_dir [OF session_stateD(3) [OF st]]
    apply (intro wp_then wp_lift_Ok [OF c] wp_cow_directory wp_verify_directory wp_read_dir
      wp_conseq [OF wp_truncate_loop [OF st bound Eloop]] finish)
    apply assumption+
    done
qed

section \<open>One operation\<close>

datatype cow_op =
    WriteOp nat bytes
  | TruncateOp nat
  | AllocateOp nat nat
  | DeallocateOp nat nat

fun run_op ::
  "storage_lib \<Rightarrow> StorageLayout \<Rightarrow> uuid \<Rightarrow> uuid \<Rightarrow> nat \<Rightarrow> nat \<Rightarrow> cow_op \<Rightarrow> CowWriteResult io" where
  "run_op L root session operation c current (WriteOp offset bs) =
     write_cow_at L root session operation c current offset bs"
| "run_op L root session operation c current (TruncateOp n) =
     truncate_cow L root session operation c current n"
| "run_op L root session operation c current (AllocateOp offset len) =
     allocate_cow_range L root session operation c current offset len"
| "run_op L root session operation c current (DeallocateOp offset len) =
     deallocate_cow_range L root session operation c current offset len"

text \<open>The effect on the flat content, and the content after an interruption.\<close>

definition punched :: "nat \<Rightarrow> nat \<Rightarrow> bytes \<Rightarrow> bytes" where
  "punched offset limit d = (if offset < limit then overwrite d offset (zeros (limit - offset)) else d)"

fun flat_op :: "cow_op \<Rightarrow> bytes \<Rightarrow> bytes" where
  "flat_op (WriteOp offset bs) d = overwrite d offset bs"
| "flat_op (TruncateOp n) d = take n (pad_to n d)"
| "flat_op (AllocateOp offset len) d = pad_to (offset + len) d"
| "flat_op (DeallocateOp offset len) d = punched offset (min (offset + len) (length d)) d"

fun op_fits :: "nat \<Rightarrow> bytes \<Rightarrow> cow_op \<Rightarrow> bool" where
  "op_fits c d (WriteOp offset bs) \<longleftrightarrow> offset + length bs \<le> c * MAX_CHUNK_COUNT"
| "op_fits c d (TruncateOp n) \<longleftrightarrow> n \<le> c * MAX_CHUNK_COUNT"
| "op_fits c d (AllocateOp offset len) \<longleftrightarrow> 0 < len \<and> offset + len \<le> c * MAX_CHUNK_COUNT"
| "op_fits c d (DeallocateOp offset len) \<longleftrightarrow> 0 < len \<and> offset + len \<le> U64_MAX"

fun op_interrupted :: "nat \<Rightarrow> bytes \<Rightarrow> cow_op \<Rightarrow> (nat \<Rightarrow> bytes option) \<Rightarrow> bool" where
  "op_interrupted c d (WriteOp offset bs) m \<longleftrightarrow>
     (\<exists>d'. write_interrupted d offset bs d' \<and> m = chunk_map c d')"
| "op_interrupted c d (TruncateOp n) m \<longleftrightarrow>
     (\<exists>k. length d \<le> k \<and> k \<le> n \<and> m = chunk_map c (pad_to k d))
     \<or> (\<forall>k. m k = chunk_map c d k \<or> m k = chunk_map c (take n d) k)"
| "op_interrupted c d (AllocateOp offset len) m \<longleftrightarrow>
     (\<exists>k \<le> offset + len. m = chunk_map c (pad_to k d))"
| "op_interrupted c d (DeallocateOp offset len) m \<longleftrightarrow>
     (\<exists>k \<le> min (offset + len) (length d). m = chunk_map c (punched offset k d))"

lemma wp_truncate_cow:
  assumes laws: "sparse_laws L" and c: "validate_chunk_size c = Ok ()"
    and st: "session_state L root session s0 {} (chunk_map c d) s"
    and n: "n \<le> c * MAX_CHUNK_COUNT" and lim: "length d \<le> c * MAX_CHUNK_COUNT"
    and Q: "\<And>s'. session_state L root session s0 {} (chunk_map c (take n (pad_to n d))) s' \<Longrightarrow> Q (cow_result n (length d)) s'"
    and E: "\<And>s' m'. session_state L root session s0 (leftovers L operation) m' s' \<Longrightarrow>
      op_interrupted c d (TruncateOp n) m' \<Longrightarrow> E s'"
  shows "wp (truncate_cow L root session operation c (length d) n) Q E s"
proof (cases "n < length d")
  case True
  with Q E show ?thesis
    by (intro wp_truncate_shrink [OF laws c st True lim]) auto
next
  case False
  then have flat: "take n (pad_to n d) = pad_to n d" by simp
  have "wp (extend_to_offset L root session operation c (length d) n)
      (\<lambda>_. wp (ret (cow_result n (length d))) Q E) E s"
    using n Q flat E by (intro wp_extend_to_offset [OF laws c st]) (auto intro!: wp_ret)
  then show ?thesis
    unfolding truncate_cow_def using False c
    by (intro wp_then wp_lift_Ok [OF c]) (simp only: extend_to_offset_def if_False)
qed

lemma wp_allocate_cow_range:
  assumes laws: "sparse_laws L" and c: "validate_chunk_size c = Ok ()"
    and st: "session_state L root session s0 {} (chunk_map c d) s"
    and len: "0 < len" "offset + len \<le> c * MAX_CHUNK_COUNT"
    and Q: "\<And>s'. session_state L root session s0 {} (chunk_map c (pad_to (offset + len) d)) s' \<Longrightarrow>
      Q (cow_result (max (length d) (offset + len)) (length d)) s'"
    and E: "\<And>s' m'. session_state L root session s0 (leftovers L operation) m' s' \<Longrightarrow>
      op_interrupted c d (AllocateOp offset len) m' \<Longrightarrow> E s'"
  shows "wp (allocate_cow_range L root session operation c (length d) offset len) Q E s"
proof -
  note cb = validate_chunk_size_bounds [OF c]
  have range: "checked_nonempty_range_end offset len = Ok (offset + len)"
    using len cb by (simp add: checked_nonempty_range_end_def u64_checked_add_def)
  have E': "E s'" if "session_state L root session s0 (leftovers L operation) (chunk_map c (pad_to k d)) s'"
    "k \<le> offset + len" for s' k
    using E [OF that(1)] that(2) by auto
  have step: "range_step c offset (offset + len) (\<lambda>k. pad_to k d) (\<lambda>off n i. allocate_step L i (off mod c) n)"
    using cb(3) by (intro range_step_pad [OF cb(1)] mutates_allocate_step [OF laws, where c = c])
  have alloc: "wp (for_each_cow_range L root session operation c offset len (allocate_step L))
      (\<lambda>_. wp (ret (cow_result (max (length d) (offset + len)) (length d))) Q E) E s1"
    if "session_state L root session s0 {} (chunk_map c (pad_to offset d)) s1" for s1
    using that len Q E'
    by (intro wp_for_each_cow_range [OF laws cb(1,2) step]) (auto intro!: wp_ret)
  show ?thesis
    unfolding allocate_cow_range_def
    using len E' alloc
    by (intro wp_then wp_lift_Ok [OF c] wp_lift_Ok [OF range] wp_extend_to_offset [OF laws c st]) auto
qed

lemma wp_deallocate_cow_range:
  assumes laws: "sparse_laws L" and c: "validate_chunk_size c = Ok ()"
    and st: "session_state L root session s0 {} (chunk_map c d) s"
    and len: "0 < len" "offset + len \<le> U64_MAX" and lim: "length d \<le> c * MAX_CHUNK_COUNT"
    and Q: "\<And>s'. session_state L root session s0 {}
        (chunk_map c (flat_op (DeallocateOp offset len) d)) s' \<Longrightarrow>
      Q \<lparr>logical_size = length d, reservation_delta = 0\<rparr> s'"
    and E: "\<And>s' m'. session_state L root session s0 (leftovers L operation) m' s' \<Longrightarrow>
      op_interrupted c d (DeallocateOp offset len) m' \<Longrightarrow> E s'"
  shows "wp (deallocate_cow_range L root session operation c (length d) offset len) Q E s"
proof -
  let ?limit = "min (offset + len) (length d)"
  note cb = validate_chunk_size_bounds [OF c]
  have range: "checked_nonempty_range_end offset len = Ok (offset + len)"
    using len by (simp add: checked_nonempty_range_end_def u64_checked_add_def)
  have "wp (if offset < ?limit
      then for_each_cow_range L root session operation c offset (?limit - offset) (punch_step L) else ret ())
    (\<lambda>_. wp (ret \<lparr>logical_size = length d, reservation_delta = 0\<rparr>) Q E) E s"
  proof (cases "offset < ?limit")
    case True
    have step: "range_step c offset ?limit (\<lambda>k. overwrite d offset (zeros (k - offset)))
        (\<lambda>off n i. punch_step L i (off mod c) n)"
      by (intro range_step_punch [OF laws cb(1)]) simp
    have E': "E s'" if s': "session_state L root session s0 (leftovers L operation)
        (chunk_map c (overwrite d offset (zeros (k - offset)))) s'" "offset \<le> k" "k \<le> ?limit" for s' k
    proof (rule E [OF s'(1)])
      have "overwrite d offset (zeros (k - offset)) = punched offset k d"
        using True s' by (cases "k = offset") (auto simp: punched_def overwrite_Nil)
      then show "op_interrupted c d (DeallocateOp offset len) (chunk_map c (overwrite d offset (zeros (k - offset))))"
        using s' by auto
    qed
    have start: "session_state L root session s0 {} (chunk_map c (overwrite d offset (zeros (offset - offset)))) s"
      using st True by (simp add: overwrite_Nil)
    have "?limit \<le> c * MAX_CHUNK_COUNT" using lim by simp
    then have "wp (for_each_cow_range L root session operation c offset (?limit - offset) (punch_step L))
      (\<lambda>_. wp (ret \<lparr>logical_size = length d, reservation_delta = 0\<rparr>) Q E) E s"
      using start True Q E'
      by (intro wp_for_each_cow_range [OF laws cb(1,2) step])
        (auto intro!: wp_ret simp: punched_def)
    with True show ?thesis by simp
  next
    case False
    with st Q show ?thesis by (auto simp: punched_def intro!: wp_ret)
  qed
  then show ?thesis
    unfolding deallocate_cow_range_def Let_def
    by (intro wp_then wp_lift_Ok [OF c] wp_lift_Ok [OF range])
qed

lemma wp_run_op:
  assumes laws: "sparse_laws L" and c: "validate_chunk_size c = Ok ()"
    and st: "session_state L root session s0 {} (chunk_map c d) s"
    and fits: "op_fits c d a" and lim: "length d \<le> c * MAX_CHUNK_COUNT"
  shows "wp (run_op L root session operation c (length d) a)
    (\<lambda>r s'. session_state L root session s0 {} (chunk_map c (flat_op a d)) s'
       \<and> logical_size r = length (flat_op a d)
       \<and> reservation_delta r = length (flat_op a d) - length d)
    (\<lambda>s'. \<exists>m. session_state L root session s0 (leftovers L operation) m s' \<and> op_interrupted c d a m) s"
proof (cases a)
  case (WriteOp offset bs)
  with fits show ?thesis
    by (auto intro!: wp_write_cow_at [OF laws c st] simp: cow_result_def)
next
  case (TruncateOp n)
  have eq: "length (take n (pad_to n d)) = n" by simp
  have "wp (truncate_cow L root session operation c (length d) n)
    (\<lambda>r s'. session_state L root session s0 {} (chunk_map c (take n (pad_to n d))) s'
       \<and> logical_size r = n \<and> reservation_delta r = n - length d)
    (\<lambda>s'. \<exists>m. session_state L root session s0 (leftovers L operation) m s' \<and> op_interrupted c d (TruncateOp n) m) s"
    using fits TruncateOp lim
    by (intro wp_truncate_cow [OF laws c st]) (simp_all only: op_fits.simps cow_result_def, simp, blast)
  then show ?thesis unfolding TruncateOp run_op.simps flat_op.simps eq .
next
  case (AllocateOp offset len)
  have "wp (allocate_cow_range L root session operation c (length d) offset len)
    (\<lambda>r s'. session_state L root session s0 {} (chunk_map c (pad_to (offset + len) d)) s'
       \<and> logical_size r = length (pad_to (offset + len) d)
       \<and> reservation_delta r = length (pad_to (offset + len) d) - length d)
    (\<lambda>s'. \<exists>m. session_state L root session s0 (leftovers L operation) m s' \<and> op_interrupted c d (AllocateOp offset len) m) s"
    using fits AllocateOp
    by (intro wp_allocate_cow_range [OF laws c st]) (simp_all only: op_fits.simps, simp add: cow_result_def max.commute, blast)
  then show ?thesis unfolding AllocateOp run_op.simps flat_op.simps .
next
  case (DeallocateOp offset len)
  have eq: "length (flat_op (DeallocateOp offset len) d) = length d"
    by (simp add: punched_def max_def)
  have "wp (deallocate_cow_range L root session operation c (length d) offset len)
    (\<lambda>r s'. session_state L root session s0 {} (chunk_map c (flat_op (DeallocateOp offset len) d)) s'
       \<and> logical_size r = length d \<and> reservation_delta r = length d - length d)
    (\<lambda>s'. \<exists>m. session_state L root session s0 (leftovers L operation) m s' \<and> op_interrupted c d (DeallocateOp offset len) m) s"
    using fits DeallocateOp
    by (intro wp_deallocate_cow_range [OF laws c st _ _ lim]) (simp_all only: op_fits.simps, simp, blast)
  then show ?thesis unfolding DeallocateOp run_op.simps eq .
qed

end
