(* ===== verification/Cow_Recovery.thy ===== *)
theory Cow_Recovery
  imports Cow_Operations
begin

text \<open>
  Recovery of an interrupted session: the leftover temporaries are removed, the chunks stay, and
  the size read back from the directory is the length of the flat content.
\<close>

section \<open>Names of temporaries\<close>

text \<open>What the recovery relies on from the \<open>uuid\<close> crate: the printed form is ASCII and parses back.\<close>

definition uuid_laws :: "storage_lib \<Rightarrow> bool" where
  "uuid_laws L \<longleftrightarrow>
     (\<forall>u. is_ascii (uuid_text L u) \<and> uuid_parse_str (ids L) (uuid_text L u) = Some u)"

lemma split_once_str_first:
  "p = x # r \<Longrightarrow> x \<notin> set a \<Longrightarrow> split_once_str p (a @ p @ b) = Some (a, b)"
proof (induction a)
  case Nil
  then show ?case by (simp add: strip_prefix_append [of "x # r" b, simplified])
next
  case (Cons y a)
  then have "strip_prefix p (y # a @ p @ b) = None"
    by (cases "strip_prefix p (y # a @ p @ b)") (auto simp: strip_prefix_Some)
  with Cons show ?case by simp
qed

lemma zero_pad_no_dot: "CHR ''.'' \<notin> set (zero_pad w (decimal n))"
  using zero_pad_digits [of w n] by (auto simp: list_all_iff is_ascii_digit_def byte_def)

lemma is_ascii_chunk_name: "is_ascii (cow_chunk_name n)"
  unfolding cow_chunk_name_def
  by (simp only: is_ascii_append is_ascii_digits [OF zero_pad_digits] is_ascii_part)

lemma parse_cow_writing_name_name:
  assumes laws: "uuid_laws L" and n: "n < MAX_CHUNK_COUNT"
  shows "parse_cow_writing_name L (writing_name L n operation) = Ok n"
proof -
  let ?u = "uuid_text L operation" and ?d = "zero_pad 8 (decimal n)"
  have name: "writing_name L n operation = ''.'' @ (?d @ ''.part.'' @ ?u) @ ''.writing''"
    by (simp add: writing_name_def cow_chunk_name_def)
  have "is_ascii (writing_name L n operation)"
    using laws is_ascii_chunk_name [of n]
    by (auto simp: writing_name_def uuid_laws_def is_ascii_def byte_def)
  then have "utf8_valid (writing_name L n operation)" by (rule utf8_valid_ascii)
  moreover have "Option.bind (strip_prefix ''.'' (writing_name L n operation)) (strip_suffix_str ''.writing'')
      = Some (?d @ ''.part.'' @ ?u)"
    using strip_suffix_str_Some [of "''.writing''" "(?d @ ''.part.'' @ ?u) @ ''.writing''"]
    by (simp add: name strip_prefix_append [of "''.''", simplified])
  moreover have "split_once_str ''.part.'' (?d @ ''.part.'' @ ?u) = Some (?d, ?u)"
    by (rule split_once_str_first [OF refl zero_pad_no_dot])
  moreover have "parse_cow_chunk_name (?d @ ''.part'') = Ok n"
    using parse_cow_chunk_name_name [OF n] by (simp add: cow_chunk_name_def)
  ultimately show ?thesis
    using laws by (simp add: parse_cow_writing_name_def uuid_laws_def)
qed

lemma parse_cow_chunk_name_writing: "\<not> is_ok (parse_cow_chunk_name (writing_name L n operation))"
proof -
  have "strip_suffix_str ''.part'' (writing_name L n operation) = None"
  proof (cases "strip_suffix_str ''.part'' (writing_name L n operation)")
    case (Some r)
    then have "last (writing_name L n operation) = last (r @ ''.part'')"
      by (simp only: strip_suffix_str_Some)
    then show ?thesis by (simp add: writing_name_def)
  qed
  then show ?thesis by (simp add: parse_cow_chunk_name_def)
qed

section \<open>Removing temporaries\<close>

lemma remove_stray_holds:
  assumes ok: "fs_ok s" and h: "holds_chunks D T m s" and x: "\<And>k. x \<noteq> cow_chunk_name k"
    and stray: "stray_file s (D @ [x])"
  shows "holds_chunks D (T - {x}) m (remove_entry (D @ [x]) s)"
    and "untouched D s (remove_entry (D @ [x]) s)"
    and "fs_ok (remove_entry (D @ [x]) s)"
proof -
  let ?p = "D @ [x]" and ?t = "remove_entry (D @ [x]) s"
  have same: "lookup ?t q = lookup s q" if "q \<noteq> ?p" for q
    using that by (intro lookup_cong) (simp_all add: delete_conv')
  have not_dir: "\<not> is_dir s ?p" using stray by (auto simp: stray_file_def is_dir_def)
  show "fs_ok ?t"
    using no_descendants [OF ok not_dir] by (intro fs_ok_remove_entry [OF ok]) simp
  show "untouched D s ?t"
    by (auto simp: untouched_def strict_prefix_def delete_conv')
  show "holds_chunks D (T - {x}) m ?t"
    unfolding holds_chunks_def
  proof (intro conjI allI impI)
    fix j
    have ne: "D @ [cow_chunk_name j] \<noteq> ?p" using x [of j] by auto
    then show "case m j of None \<Rightarrow> map_of (names ?t) (D @ [cow_chunk_name j]) = None
      | Some b' \<Rightarrow> chunk_file ?t (D @ [cow_chunk_name j]) b'"
      using holds_chunksD(1,2) [OF h, of j] chunk_file_transfer [OF same [OF ne]]
      by (auto simp: delete_conv' split: option.splits)
  next
    fix y assume y: "map_of (names ?t) (D @ [y]) \<noteq> None"
    then have yx: "y \<noteq> x" and "map_of (names s) (D @ [y]) \<noteq> None"
      by (auto simp: delete_conv' split: if_splits)
    then have "(\<exists>k. y = cow_chunk_name k \<and> m k \<noteq> None) \<or> y \<in> T \<and> stray_file s (D @ [y])"
      using h by (auto simp: holds_chunks_def)
    then show "(\<exists>j. y = cow_chunk_name j \<and> m j \<noteq> None) \<or> y \<in> T - {x} \<and> stray_file ?t (D @ [y])"
      using yx same [of "D @ [y]"] by (auto simp: stray_file_def)
  qed
qed

lemma wp_verify_interrupted_cow_file:
  assumes "stray_file s p" "p \<noteq> []" "secure_dir s (butlast p)" and "Q () s" and "E s"
  shows "wp (verify_interrupted_cow_file p) Q E s"
proof -
  obtain n c m where "lookup s p = Some n" "ftype n = Regular c" "perm n AND 0xE7F = 0"
    "lookup s (butlast p) = Some m" "owner_uid n = owner_uid m"
    using assms(1,3) by (auto simp: secure_dir_def stray_file_def)
  then show ?thesis
    unfolding verify_interrupted_cow_file_def using assms
    by (auto simp: is_file_def intro!: wp_then wp_symlink_metadata wp_parent wp_ret)
qed

lemma wp_recover_chunks:
  assumes laws: "uuid_laws L" and bound: "\<And>k. m k \<noteq> None \<Longrightarrow> k < MAX_CHUNK_COUNT"
    and xs: "distinct xs" "\<And>x. x \<in> set xs \<Longrightarrow> map_of (names s) (cow_path L root session @ [x]) \<noteq> None"
    and st: "session_state L root session s0 (leftovers L operation \<inter> set xs) m s"
    and Q: "\<And>s' b. session_state L root session s0 {} m s' \<Longrightarrow> Q b s'"
    and E: "\<And>s'. session_state L root session s0 (leftovers L operation) m s' \<Longrightarrow> E s'"
  shows "wp (recover_chunks L (cow_path L root session) xs changed) Q E s"
  using xs st
proof (induction xs arbitrary: changed s)
  case Nil
  then show ?case by (auto intro!: wp_ret Q)
next
  case (Cons x xs)
  let ?D = "cow_path L root session" and ?T = "leftovers L operation"
  note st = Cons.prems(3) and h = session_stateD(2) [OF Cons.prems(3)]
  have Es: "E s" by (rule E [OF session_state_mono [OF st]]) simp
  note sec = session_stateD(3) [OF st]
  have "(\<exists>k. x = cow_chunk_name k \<and> m k \<noteq> None) \<or> x \<in> ?T \<and> stray_file s (?D @ [x])"
    using h Cons.prems(2) [of x] by (auto simp: holds_chunks_def)
  then show ?case
  proof
    assume "\<exists>k. x = cow_chunk_name k \<and> m k \<noteq> None"
    then obtain k b where k: "x = cow_chunk_name k" "m k = Some b" by auto
    then have cf: "chunk_file s (?D @ [x]) b" using holds_chunksD(2) [OF h] by simp
    have ok: "is_ok (parse_cow_chunk_name x)"
      using parse_cow_chunk_name_name [of k] bound [of k] k by simp
    have "?T \<inter> set (x # xs) = ?T \<inter> set xs"
      using k by (auto simp: leftovers_def dest: sym)
    then have "wp (recover_chunks L ?D xs changed) Q E s"
      using Cons.prems by (intro Cons.IH) auto
    then show ?thesis
      using cf sec Es ok by (auto intro!: wp_then wp_verify_regular_file)
  next
    assume x: "x \<in> ?T \<and> stray_file s (?D @ [x])"
    then obtain n where n: "x = writing_name L n operation" "n < MAX_CHUNK_COUNT"
      by (auto simp: leftovers_def)
    have not_ok: "\<not> is_ok (parse_cow_chunk_name x)" using parse_cow_chunk_name_writing n by simp
    have parse: "parse_cow_writing_name L x = Ok n" using parse_cow_writing_name_name [OF laws] n by simp
    have x_name: "x \<noteq> cow_chunk_name k" for k using n by simp
    let ?s = "remove_entry (?D @ [x]) s"
    note rem = remove_stray_holds [OF session_stateD(1) [OF st] h x_name conjunct2 [OF x]]
    have "?T \<inter> set (x # xs) - {x} = ?T \<inter> set xs" using Cons.prems(1) by auto
    then have "session_state L root session s0 (?T \<inter> set xs) m ?s"
      using session_state_step [OF st rem(3,2,1)] by simp
    then have "wp (recover_chunks L ?D xs True) Q E ?s"
      using Cons.prems(1,2) by (intro Cons.IH) (auto simp: delete_conv')
    moreover obtain f where "lookup s (?D @ [x]) = Some f" "ftype f \<noteq> Directory"
      using x by (auto simp: stray_file_def)
    ultimately show ?thesis
      using x sec Es not_ok
      by (auto intro!: wp_then wp_lift_Ok [OF parse] wp_verify_interrupted_cow_file wp_remove_file)
  qed
qed

section \<open>Recovery\<close>

text \<open>The fixed areas exist, and no initialization of the session is in progress beside it.\<close>

definition recovery_ready :: "storage_lib \<Rightarrow> StorageLayout \<Rightarrow> uuid \<Rightarrow> fs \<Rightarrow> bool" where
  "recovery_ready L root session s \<longleftrightarrow>
     (\<forall>name \<in> set [''whole'', ''chunks'', ''staging'', ''quarantine'', ''revision-chunks'',
        ''revision-quarantine'']. secure_dir s (root @ [name]))
     \<and> (\<forall>x. map_of (names s) (staging_shard L root session @ [x]) \<noteq> None \<longrightarrow>
          utf8_valid x \<and> strip_prefix (initialization_prefix L session) x = None)"

lemma recovery_ready_untouched:
  assumes "session_state L root session s0 T m s" and "recovery_ready L root session s0"
  shows "recovery_ready L root session s"
proof -
  let ?D = "cow_path L root session"
  have ok: "fs_ok s0" "untouched ?D s0 s" using assms(1) by (auto simp: session_state_def)
  have "\<not> strict_prefix ?D (root @ [name])" for name
    by (auto simp: cow_path_def staging_shard_def strict_prefix_def prefix_def)
  moreover have "\<not> strict_prefix ?D (staging_shard L root session @ [x])" for x
    by (auto simp: cow_path_def staging_shard_def strict_prefix_def prefix_def)
  then have "map_of (names s) (staging_shard L root session @ [x])
      = map_of (names s0) (staging_shard L root session @ [x])" for x
    using ok(2) by (simp add: untouched_def)
  ultimately show ?thesis
    using assms(2) untouched_secure_dir [OF ok] by (auto simp: recovery_ready_def)
qed

lemma wp_prepare:
  assumes root: "secure_dir s root"
    and areas: "\<And>name. name \<in> set [''whole'', ''chunks'', ''staging'', ''quarantine'', ''revision-chunks'',
        ''revision-quarantine''] \<Longrightarrow> secure_dir s (root @ [name])"
    and Q: "Q () s" and E: "E s"
  shows "wp (prepare root) Q E s"
proof -
  let ?areas = "[''whole'', ''chunks'', ''staging'', ''quarantine'', ''revision-chunks'', ''revision-quarantine'']"
  have "wp (io_each (\<lambda>name. io_then (secure_child root name) (\<lambda>_. ret ())) ?areas) (\<lambda>_ s'. s' = s) E s"
  proof (rule wp_each [where J = "\<lambda>ys s'. s' = s"])
    fix name ys zs s' assume split: "?areas = ys @ name # zs" and "s' = s"
    have "name \<in> set ?areas" unfolding split by simp
    then show "wp (io_then (secure_child root name) (\<lambda>_. ret ())) (\<lambda>_ s'. s' = s) E s'"
      unfolding \<open>s' = s\<close> using root areas E by (intro wp_then wp_secure_child wp_ret) blast+
  qed simp
  then have "wp (io_each (\<lambda>name. io_then (secure_child root name) (\<lambda>_. ret ())) ?areas) Q E s"
    by (rule wp_conseq) (use Q in auto)
  then show ?thesis
    unfolding prepare_def using root E by (intro wp_then wp_create_secure_directory_present)
qed

lemma recover_initializations_none:
  "(\<And>x. x \<in> set xs \<Longrightarrow> utf8_valid x \<and> strip_prefix p x = None) \<Longrightarrow>
   recover_initializations L d p xs changed = ret changed"
  by (induction xs) simp_all

lemma wp_recover_cow_under_lock:
  assumes laws: "uuid_laws L" and bound: "\<And>k. m k \<noteq> None \<Longrightarrow> k < MAX_CHUNK_COUNT"
    and ready: "recovery_ready L root session s0"
    and st: "session_state L root session s0 (leftovers L operation) m s"
    and Q: "\<And>s'. session_state L root session s0 {} m s' \<Longrightarrow> Q () s'"
    and E: "\<And>s'. session_state L root session s0 (leftovers L operation) m s' \<Longrightarrow> E s'"
  shows "wp (recover_cow_under_lock L root session) Q E s"
proof -
  let ?D = "cow_path L root session" and ?P = "staging_shard L root session"
  note ok = session_stateD(1) [OF st] and sec = session_stateD(3) [OF st] and dirs = session_stateD(4) [OF st]
  have Es: "E s" using E [OF st] .
  have root: "secure_dir s' root" "secure_dir s' ?P" if "session_state L root session s0 T m s'" for T s'
    using session_stateD(4) [OF that] by (simp_all add: session_dirs_def)
  have r: "recovery_ready L root session s" by (rule recovery_ready_untouched [OF st ready])
  have D: "parent ?D = ret ?P" by (simp add: parent_def cow_path_def)
  have xs: "distinct (children s ?D)" "set (children s ?D) = {x. map_of (names s) (?D @ [x]) \<noteq> None}"
    using distinct_children set_children fs_ok_distinct [OF ok] by blast+
  have here: "session_state L root session s0 (leftovers L operation \<inter> set (children s ?D)) m s"
    using st by (auto simp: session_state_def holds_chunks_def xs(2))
  have present: "(if lookup s ?D = None then Missing else Present) \<noteq> Missing"
    using sec by (auto simp: secure_dir_def)
  have finish: "wp (io_then (if b then sync_directory ?D else ret ()) (\<lambda>_. sync_directory ?P)) Q E s'"
    if s': "session_state L root session s0 {} m s'" for b s'
  proof -
    have "E s'" by (rule E [OF session_state_mono [OF s']]) simp
    then have "wp (sync_directory ?P) Q E s'" using root [OF s'] Q [OF s'] by (intro wp_sync_directory)
    then show ?thesis
      using \<open>E s'\<close> session_stateD(3) [OF s'] by (cases b) (auto intro!: wp_then wp_sync_directory wp_ret)
  qed
  have chunks: "wp (recover_chunks L ?D (children s ?D) False)
      (\<lambda>b. wp (io_then (if b then sync_directory ?D else ret ()) (\<lambda>_. sync_directory ?P)) Q E) E s"
    by (rule wp_recover_chunks [OF laws bound xs(1) _ here]) (use xs(2) finish E in auto)
  have none: "recover_initializations L ?P (initialization_prefix L session) (children s ?P) False = ret False"
    using r set_children [OF fs_ok_distinct [OF ok], of ?P]
    by (intro recover_initializations_none) (auto simp: recovery_ready_def)
  show ?thesis
    unfolding recover_cow_under_lock_def
    apply (intro wp_then wp_prepare wp_cow_directory)
    subgoal using root [OF st] by simp
    subgoal using r unfolding recovery_ready_def by blast
    subgoal using dirs .
    subgoal
      unfolding D
      using Es chunks none present sec secure_dir_is_dir [OF root(2) [OF st]] secure_dir_is_dir [OF sec]
      by (auto intro!: wp_then wp_ret wp_read_dir wp_path_kind wp_verify_directory)
    subgoal using Es .
    subgoal using Es .
    done
qed

section \<open>The size of a session\<close>

lemma wp_collect:
  assumes "\<And>x P. x \<in> set xs \<Longrightarrow> P (g x) s \<Longrightarrow> wp (f x) P E s" and "Q (map g xs) s"
  shows "wp (io_collect f xs) Q E s"
  using assms
proof (induction xs arbitrary: Q)
  case (Cons x xs)
  have "wp (io_then (io_collect f xs) (\<lambda>ys. ret (g x # ys))) Q E s"
    using Cons.prems by (intro wp_then Cons.IH) (auto intro!: wp_ret)
  then show ?case
    using Cons.prems(1) [of x "\<lambda>y. wp (io_then (io_collect f xs) (\<lambda>ys. ret (y # ys))) Q E"]
    by (auto intro: wp_then)
qed (simp add: wp_ret)

text \<open>The length of chunk number \<open>k\<close> of a content of length \<open>n\<close>.\<close>

definition chunk_length :: "nat \<Rightarrow> nat \<Rightarrow> nat \<Rightarrow> nat" where
  "chunk_length c n k = min c (n - k * c)"

lemma div_ceil_iff:
  assumes "0 < c" shows "k < div_ceil n c \<longleftrightarrow> k * c < n"
proof -
  define q r where "q = n div c" and "r = n mod c"
  have n: "n = q * c + r" "r < c" using assms by (simp_all add: q_def r_def)
  have "k * c \<le> q * c" if "k \<le> q" using that by simp
  moreover have "q * c + c \<le> k * c" if "q < k"
    using mult_le_mono1 [of "Suc q" k c] that by simp
  moreover have "div_ceil n c = (if r = 0 then q else q + 1)" by (simp add: div_ceil_def q_def r_def)
  moreover have "k * c + c \<le> q * c" if "k < q"
    using mult_le_mono1 [of "Suc k" q c] that by simp
  ultimately show ?thesis using n assms by (cases "k < q"; cases "q < k") auto
qed

lemma logical_size_loop_exact:
  assumes c: "0 < c" and n: "n \<le> U64_MAX" and k: "k \<le> div_ceil n c"
  shows "logical_size_loop c (div_ceil n c) k (map (\<lambda>j. (j, chunk_length c n j)) [k..<div_ceil n c]) (min n (k * c)) = Ok n"
  using k
proof (induction "div_ceil n c - k" arbitrary: k)
  case 0
  then have "k = div_ceil n c" by simp
  then have "\<not> k * c < n" using div_ceil_iff [OF c, of k n] by simp
  then show ?case using 0 by simp
next
  case (Suc l)
  then have lt: "k < div_ceil n c" by simp
  then have kc: "k * c < n" using div_ceil_iff [OF c] by simp
  have upt: "[k..<div_ceil n c] = k # [Suc k..<div_ceil n c]" using lt by (rule upt_conv_Cons)
  have full: "chunk_length c n k = c" if "k + 1 < div_ceil n c"
    using div_ceil_iff [OF c, of "k + 1" n] that by (simp add: chunk_length_def)
  have pos: "0 < chunk_length c n k" "chunk_length c n k \<le> c"
    using kc c by (simp_all add: chunk_length_def)
  have "min n (k * c) + chunk_length c n k = min n (Suc k * c)"
    using kc by (simp add: chunk_length_def)
  then have add: "u64_checked_add (min n (k * c)) (chunk_length c n k) = Some (min n (Suc k * c))"
    using n by (simp add: u64_checked_add_def)
  have "logical_size_loop c (div_ceil n c) (Suc k)
      (map (\<lambda>j. (j, chunk_length c n j)) [Suc k..<div_ceil n c]) (min n (Suc k * c)) = Ok n"
    using Suc lt by (intro Suc.hyps(1)) simp_all
  then show ?case
    unfolding upt using pos full add by auto
qed

lemma chunk_map_Some_length:
  "0 < c \<Longrightarrow> chunk_map c d k = Some b \<Longrightarrow> k < div_ceil (length d) c \<and> length b = chunk_length c (length d) k"
  by (auto simp: chunk_map_def chunk_length_def div_ceil_iff split: if_splits)

lemma chunk_map_defined: "0 < c \<Longrightarrow> chunk_map c d k \<noteq> None \<longleftrightarrow> k < div_ceil (length d) c"
  by (simp add: chunk_map_def div_ceil_iff)

lemma chunk_map_bound:
  assumes "0 < c" and "length d \<le> c * MAX_CHUNK_COUNT" and "chunk_map c d k \<noteq> None"
  shows "k < MAX_CHUNK_COUNT"
proof -
  have "k < div_ceil (length d) c" using chunk_map_defined assms(1,3) by blast
  then have "k * c < length d" by (simp only: div_ceil_iff [OF assms(1)])
  also have "\<dots> \<le> MAX_CHUNK_COUNT * c" using assms(2) by (simp only: mult.commute)
  finally show ?thesis by simp
qed

lemma wp_cow_logical_size:
  assumes c: "validate_chunk_size c = Ok ()" and lim: "length d \<le> c * MAX_CHUNK_COUNT"
    and st: "session_state L root session s0 {} (chunk_map c d) s"
    and Q: "Q (length d) s" and E: "E s"
  shows "wp (cow_logical_size L root session c) Q E s"
proof -
  let ?D = "cow_path L root session" and ?N = "div_ceil (length d) c"
  note cb = validate_chunk_size_bounds [OF c]
  note ok = session_stateD(1) [OF st] and h = session_stateD(2) [OF st] and sec = session_stateD(3) [OF st]
  have xs: "distinct (children s ?D)" "set (children s ?D) = {x. map_of (names s) (?D @ [x]) \<noteq> None}"
    using distinct_children set_children fs_ok_distinct [OF ok] by blast+
  define num where "num x = (THE k. x = cow_chunk_name k)" for x
  have num: "num (cow_chunk_name k) = k" for k by (simp add: num_def)
  have listed: "set (children s ?D) = cow_chunk_name ` {..<?N}"
  proof (rule set_eqI)
    fix x
    have "map_of (names s) (?D @ [x]) \<noteq> None \<longleftrightarrow> (\<exists>k. x = cow_chunk_name k \<and> chunk_map c d k \<noteq> None)"
      using holds_chunksD(2,3) [OF h] by (fastforce simp: chunk_file_def lookup_Some)
    then show "x \<in> set (children s ?D) \<longleftrightarrow> x \<in> cow_chunk_name ` {..<?N}"
      unfolding xs(2) using chunk_map_defined [OF cb(1), of d] by auto
  qed
  let ?g = "\<lambda>x. (num x, chunk_length c (length d) (num x))"
  let ?chunks = "map (\<lambda>j. (j, chunk_length c (length d) j)) [0..<?N]"
  have "sort_key fst (map ?g (children s ?D)) = ?chunks"
  proof (rule map_sorted_distinct_set_unique [where f = fst])
    show eq: "set (sort_key fst (map ?g (children s ?D))) = set ?chunks"
      using listed by (auto simp: num image_iff atLeast0LessThan)
    show "inj_on fst (set (sort_key fst (map ?g (children s ?D))) \<union> set ?chunks)"
      unfolding eq by (auto simp: inj_on_def)
    have "inj_on num (set (children s ?D))" unfolding listed by (auto simp: inj_on_def num)
    then have "distinct (map fst (map ?g (children s ?D)))" using xs(1) by (simp add: distinct_map o_def)
    then show "distinct (map fst (sort_key fst (map ?g (children s ?D))))"
      by (simp only: distinct_map distinct_sort set_sort)
  qed (simp_all add: o_def)
  then have size: "logical_size_loop c (length (map ?g (children s ?D))) 0
      (sort_key fst (map ?g (children s ?D))) 0 = Ok (length d)"
    using logical_size_loop_exact [OF cb(1), of "length d" 0] lim cb(2) distinct_card [OF xs(1)]
      card_image [of cow_chunk_name "{..<?N}"] listed
    by (simp add: inj_on_def)
  have each: "wp (io_then (lift_result (parse_cow_chunk_name x)) (\<lambda>n.
        io_then (verify_regular_file (?D @ [x])) (\<lambda>_.
        io_then (try_sys (symlink_metadata (?D @ [x]))) (\<lambda>m. ret (n, file_len m))))) P E s"
    if x: "x \<in> set (children s ?D)" and P: "P (?g x) s" for x P
  proof -
    obtain k b where k: "x = cow_chunk_name k" "chunk_map c d k = Some b"
      using x chunk_map_defined [OF cb(1), of d] unfolding listed by (metis imageE lessThan_iff not_None_eq)
    then have cf: "chunk_file s (?D @ [x]) b" using holds_chunksD(2) [OF h] by simp
    then obtain f where f: "lookup s (?D @ [x]) = Some f" "file_len f = length b"
      by (auto simp: chunk_file_def file_len_def)
    have "k < MAX_CHUNK_COUNT" using chunk_map_bound [OF cb(1) lim] k(2) by simp
    then have parse: "parse_cow_chunk_name x = Ok k" using k(1) by (simp add: parse_cow_chunk_name_name)
    show ?thesis
      using sec E P f chunk_map_Some_length [OF cb(1) k(2)]
      by (intro wp_then wp_lift_Ok [OF parse] wp_verify_regular_file [OF cf] wp_symlink_metadata wp_ret)
        (auto simp: k(1) num)
  qed
  show ?thesis
    unfolding cow_logical_size_def
    using E Q sec session_stateD(4) [OF st] secure_dir_is_dir [OF sec] size
    by (intro wp_then wp_lift_Ok [OF c] wp_cow_directory wp_verify_directory wp_read_dir
      wp_collect [where g = ?g] each) (auto intro!: wp_lift_Ok)
qed

end
