(* ===== verification/Cow_Correct.thy ===== *)
theory Cow_Correct
  imports Cow_Recovery
begin

text \<open>
  What a write session promises: sequences of operations against the flat content, isolation from
  the published payloads, and recovery. The last section is a concrete instance of the parameters
  (a cell-exact sparse file, decimal identifiers and an empty session) in which the hypotheses hold.
\<close>

section \<open>Sequences of operations\<close>

text \<open>Operations one after the other, each from the size the previous one returned.\<close>

fun run_ops ::
  "storage_lib \<Rightarrow> StorageLayout \<Rightarrow> uuid \<Rightarrow> uuid \<Rightarrow> nat \<Rightarrow> nat \<Rightarrow> cow_op list \<Rightarrow> nat io" where
  "run_ops L root session operation c current [] = ret current"
| "run_ops L root session operation c current (a # as) =
     io_then (run_op L root session operation c current a) (\<lambda>r.
     run_ops L root session operation c (logical_size r) as)"

fun ops_fit :: "nat \<Rightarrow> bytes \<Rightarrow> cow_op list \<Rightarrow> bool" where
  "ops_fit c d [] \<longleftrightarrow> length d \<le> c * MAX_CHUNK_COUNT"
| "ops_fit c d (a # as) \<longleftrightarrow>
     length d \<le> c * MAX_CHUNK_COUNT \<and> op_fits c d a \<and> ops_fit c (flat_op a d) as"

definition flat_ops :: "cow_op list \<Rightarrow> bytes \<Rightarrow> bytes" where
  "flat_ops as d = fold flat_op as d"

text \<open>Some operation of the sequence was interrupted, and the ones before it took effect.\<close>

definition ops_interrupted :: "nat \<Rightarrow> bytes \<Rightarrow> cow_op list \<Rightarrow> (nat \<Rightarrow> bytes option) \<Rightarrow> bool" where
  "ops_interrupted c d as m \<longleftrightarrow>
     (\<exists>before a after. as = before @ a # after \<and> op_interrupted c (flat_ops before d) a m)"

lemma wp_run_ops:
  assumes laws: "sparse_laws L" and c: "validate_chunk_size c = Ok ()"
    and "session_state L root session s0 {} (chunk_map c d) s" and "ops_fit c d as"
  shows "wp (run_ops L root session operation c (length d) as)
    (\<lambda>n s'. session_state L root session s0 {} (chunk_map c (flat_ops as d)) s' \<and> n = length (flat_ops as d))
    (\<lambda>s'. \<exists>m. session_state L root session s0 (leftovers L operation) m s' \<and> ops_interrupted c d as m) s"
  using assms(3,4)
proof (induction as arbitrary: d s)
  case Nil
  then show ?case by (simp add: flat_ops_def wp_ret)
next
  case (Cons a as)
  have lim: "length d \<le> c * MAX_CHUNK_COUNT" and fits: "op_fits c d a" "ops_fit c (flat_op a d) as"
    using Cons.prems(2) by auto
  let ?Q = "\<lambda>n s'. session_state L root session s0 {} (chunk_map c (flat_ops (a # as) d)) s'
      \<and> n = length (flat_ops (a # as) d)"
  let ?E = "\<lambda>s'. \<exists>m. session_state L root session s0 (leftovers L operation) m s' \<and> ops_interrupted c d (a # as) m"
  have later: "ops_interrupted c d (a # as) m" if i: "ops_interrupted c (flat_op a d) as m" for m
  proof -
    obtain before b after where "as = before @ b # after" "op_interrupted c (flat_ops before (flat_op a d)) b m"
      using i by (auto simp: ops_interrupted_def)
    then have "a # as = (a # before) @ b # after" "op_interrupted c (flat_ops (a # before) d) b m"
      by (simp_all add: flat_ops_def)
    then show ?thesis unfolding ops_interrupted_def by blast
  qed
  have first: "ops_interrupted c d (a # as) m" if "op_interrupted c d a m" for m
    unfolding ops_interrupted_def using that by (intro exI [of _ "[]"]) (auto simp: flat_ops_def)
  have rest: "wp (run_ops L root session operation c (length (flat_op a d)) as) ?Q ?E s'"
    if "session_state L root session s0 {} (chunk_map c (flat_op a d)) s'" for s'
    by (rule wp_conseq [OF Cons.IH [OF that fits(2)]]) (auto simp: flat_ops_def dest: later)
  show ?case
    unfolding run_ops.simps
    by (rule wp_then, rule wp_conseq [OF wp_run_op [OF laws c Cons.prems(1) fits(1) lim]])
      (use rest first in auto)
qed

section \<open>A concrete instance\<close>

definition exact_seek_data :: "sparse \<Rightarrow> nat \<Rightarrow> (nat, Errno) result" where
  "exact_seek_data f pos =
     (case filter (\<lambda>j. pos \<le> j \<and> f ! j \<noteq> Hole) [0..<length f] of [] \<Rightarrow> Err NXIO | j # _ \<Rightarrow> Ok j)"

definition exact_seek_hole :: "sparse \<Rightarrow> nat \<Rightarrow> (nat, Errno) result" where
  "exact_seek_hole f pos =
     (case filter (\<lambda>j. pos \<le> j \<and> f ! j = Hole) [0..<length f] of [] \<Rightarrow> Ok (length f) | j # _ \<Rightarrow> Ok j)"

fun exact_fallocate :: "FallocateFlags \<Rightarrow> nat \<Rightarrow> nat \<Rightarrow> sparse \<Rightarrow> (sparse, Errno) result" where
  "exact_fallocate NoFlags pos len f = Ok (f @ replicate (pos + len - length f) Hole)"
| "exact_fallocate PunchHoleKeepSize pos len f =
     Ok (take pos f @ replicate (min len (length f - pos)) Hole @ drop (pos + len) f)"

definition exact_lib :: storage_lib where
  "exact_lib =
     \<lparr>ids = \<lparr>uuid_parse_str = \<lambda>s. if list_all is_ascii_digit s then Some (word_of_int (decimal_value s)) else None,
        uuid_hyphenated = \<lambda>u. decimal (unat u), uuid_get_variant = \<lambda>_. RFC4122, uuid_get_version_num = \<lambda>_. 4\<rparr>,
      uuid_simple = \<lambda>u. zero_pad 32 (decimal (unat u)), blake3 = take 32, seek_data = exact_seek_data,
      seek_hole = exact_seek_hole, fallocate = exact_fallocate, allocated_blocks = length\<rparr>"

lemma filter_upt_Cons:
  assumes "filter P [0..<n] = j # js"
  shows "j < n" "P j" "\<And>i. i < j \<Longrightarrow> \<not> P i"
proof -
  obtain us vs where u: "[0..<n] = us @ j # vs" "\<forall>i \<in> set us. \<not> P i" "P j"
    using assms by (auto simp: filter_eq_Cons_iff)
  have "j \<in> set [0..<n]" unfolding u(1) by simp
  then show "j < n" by simp
  show "P j" by (fact u(3))
  show "\<not> P i" if "i < j" for i
  proof -
    have "i \<in> set us"
    proof -
      have "i \<in> set [0..<n]" using that \<open>j < n\<close> by simp
      moreover have "sorted ([0..<n])" "distinct ([0..<n])" by simp_all
      ultimately show ?thesis using that unfolding u(1) by (auto simp: sorted_append)
    qed
    then show ?thesis using u(2) by simp
  qed
qed

lemma exact_lib_sparse: "sparse_laws exact_lib"
  unfolding sparse_laws_def
proof (intro conjI allI impI)
  fix f :: sparse and pos assume pos: "pos < length f"
  show "case seek_data exact_lib f pos of
      Ok d \<Rightarrow> pos \<le> d \<and> d < length f \<and> (\<forall>j. pos \<le> j \<and> j < d \<longrightarrow> contents f ! j = CHR 0x00)
        \<and> (\<exists>h. seek_hole exact_lib f d = Ok h \<and> d < h \<and> h \<le> length f)
    | Err e \<Rightarrow> e = NXIO \<and> (\<forall>j. pos \<le> j \<and> j < length f \<longrightarrow> contents f ! j = CHR 0x00)"
  proof (cases "filter (\<lambda>j. pos \<le> j \<and> f ! j \<noteq> Hole) [0..<length f]")
    case Nil
    then have "f ! j = Hole" if "pos \<le> j" "j < length f" for j
      using that by (auto simp: filter_empty_conv)
    then show ?thesis
      using Nil by (simp add: exact_lib_def exact_seek_data_def contents_def)
  next
    case (Cons d ds)
    note d = filter_upt_Cons [OF Cons]
    have "contents f ! j = CHR 0x00" if "pos \<le> j" "j < d" for j
      using d(1) d(3) [OF that(2)] that by (simp add: contents_def)
    moreover have "\<exists>h. exact_seek_hole f d = Ok h \<and> d < h \<and> h \<le> length f"
    proof (cases "filter (\<lambda>j. d \<le> j \<and> f ! j = Hole) [0..<length f]")
      case Nil
      then show ?thesis using d(1) by (simp add: exact_seek_hole_def)
    next
      case (Cons h hs)
      note h = filter_upt_Cons [OF Cons]
      have "h \<noteq> d" using h(2) d(2) by auto
      then show ?thesis using h Cons by (simp add: exact_seek_hole_def)
    qed
    ultimately show ?thesis
      using Cons d by (auto simp: exact_lib_def exact_seek_data_def)
  qed
next
  fix f :: sparse and pos len
  show "\<exists>c'. fallocate exact_lib NoFlags pos len f = Ok c' \<and> contents c' = pad_to (pos + len) (contents f)"
    by (simp add: exact_lib_def contents_def pad_to_def zeros_def)
next
  fix f :: sparse and pos len assume "pos + len \<le> length f"
  then show "\<exists>c'. fallocate exact_lib PunchHoleKeepSize pos len f = Ok c'
      \<and> contents c' = overwrite (contents f) pos (zeros len)"
    by (simp add: exact_lib_def contents_def overwrite_def zeros_def take_map drop_map min_def)
qed

lemma exact_lib_uuid: "uuid_laws exact_lib"
  using decimal_digits decimal_value_decimal
  by (auto simp: uuid_laws_def exact_lib_def is_ascii_digits)

definition sample_root :: StorageLayout where
  "sample_root = [''data'']"

text \<open>The fixed areas, the shard of the session with identifier 7, and its empty directory.\<close>

definition sample_dirs :: "path list" where
  "sample_dirs =
     [[], [''data''], [''data'', ''whole''], [''data'', ''chunks''], [''data'', ''staging''],
      [''data'', ''quarantine''], [''data'', ''revision-chunks''], [''data'', ''revision-quarantine''],
      [''data'', ''staging'', ''00''], [''data'', ''staging'', ''00'', ''00''],
      [''data'', ''staging'', ''00'', ''00'', ''7.cow'']]"

definition sample_fs :: fs where
  "sample_fs =
     \<lparr>names = zip sample_dirs [0..<11],
      inodes = \<lambda>i. if i < 11 then Some \<lparr>ftype = Directory, perm = 0x1C0, owner_uid = 1000\<rparr> else None,
      next_ino = 11, umask = 0x3F, euid = 1000, clock = 0, modified = \<lambda>_. 0\<rparr>"

lemma sample_lookup:
  "lookup sample_fs p = (if p \<in> set sample_dirs then Some \<lparr>ftype = Directory, perm = 0x1C0, owner_uid = 1000\<rparr> else None)"
proof -
  have "map_of (zip sample_dirs [0..<11]) p = None \<longleftrightarrow> p \<notin> set sample_dirs"
    by (subst map_of_zip_is_None) (simp_all add: sample_dirs_def)
  moreover have "i < 11" if "map_of (zip sample_dirs [0..<11]) p = Some i" for i
    using map_of_SomeD [OF that] by (auto dest: set_zip_rightD)
  ultimately show ?thesis
    by (cases "map_of (zip sample_dirs [0..<11]) p") (auto simp: lookup_def sample_fs_def)
qed

lemma sample_names: "map_of (names sample_fs) p \<noteq> None \<longleftrightarrow> p \<in> set sample_dirs"
proof -
  have "map_of (zip sample_dirs [0..<11]) p = None \<longleftrightarrow> p \<notin> set sample_dirs"
    by (subst map_of_zip_is_None) (simp_all add: sample_dirs_def)
  then show ?thesis by (simp only: sample_fs_def fs.simps) blast
qed

lemma sample_secure: "p \<in> set sample_dirs \<Longrightarrow> secure_dir sample_fs p"
proof -
  have "euid sample_fs = 1000" by (simp add: sample_fs_def)
  then show "p \<in> set sample_dirs \<Longrightarrow> secure_dir sample_fs p"
    by (simp add: secure_dir_def sample_lookup DIRECTORY_MODE_def)
qed

lemma decimal_7: "decimal 7 = ''7''"
  by code_simp

lemma sample_uuid:
  "uuid_text exact_lib 7 = ''7''" "uuid_simple exact_lib 7 = replicate 31 (CHR ''0'') @ ''7''"
  unfolding exact_lib_def zero_pad_def storage_lib.simps uuid_lib.simps
  by (simp_all add: decimal_7)

lemma sample_shards:
  "take 2 (uuid_simple exact_lib 7) = ''00''" "take 2 (drop 2 (uuid_simple exact_lib 7)) = ''00''"
  unfolding sample_uuid by (simp_all add: numeral_2_eq_2)

lemma sample_path: "cow_path exact_lib sample_root 7 = [''data'', ''staging'', ''00'', ''00'', ''7.cow'']"
  by (simp add: cow_path_def staging_shard_def sample_shards sample_root_def sample_uuid(1))

lemma sample_shard: "staging_shard exact_lib sample_root 7 = [''data'', ''staging'', ''00'', ''00'']"
  using sample_path by (simp add: cow_path_def)

lemma sample_fs_ok: "fs_ok sample_fs"
proof -
  have "i < 11 \<and> (p \<noteq> [] \<longrightarrow> is_dir sample_fs (butlast p))" if i: "map_of (names sample_fs) p = Some i" for p i
  proof -
    have "p \<in> set sample_dirs" using i sample_names [of p] by simp
    then have "butlast p \<in> set sample_dirs" by (auto simp: sample_dirs_def)
    then have "is_dir sample_fs (butlast p)" by (auto simp: is_dir_def sample_lookup)
    then show ?thesis
      using map_of_SomeD [OF i] by (auto simp: sample_fs_def dest: set_zip_rightD)
  qed
  moreover have "distinct (map fst (names sample_fs))"
    by (simp add: sample_fs_def sample_dirs_def)
  ultimately show ?thesis by (auto simp: fs_ok_def sample_fs_def)
qed

lemma sample_session: "cow_session exact_lib sample_root 7 65536 [] sample_fs"
proof -
  have "secure_dir sample_fs p" if "p \<in> session_dirs exact_lib sample_root 7" for p
    using that unfolding session_dirs_def sample_path sample_shard
    by (intro sample_secure) (auto simp: sample_dirs_def sample_root_def sample_shards)
  moreover have "map_of (names sample_fs) ([''data'', ''staging'', ''00'', ''00'', ''7.cow''] @ [x]) = None" for x
    using sample_names [of "[''data'', ''staging'', ''00'', ''00'', ''7.cow''] @ [x]"] by (simp add: sample_dirs_def)
  ultimately show ?thesis
    unfolding cow_session_def session_state_def holds_chunks_def sample_path
    using sample_fs_ok by (auto simp: untouched_refl chunk_map_def)
qed

lemma sample_ready: "recovery_ready exact_lib sample_root 7 sample_fs"
  unfolding recovery_ready_def sample_shard
proof (intro conjI ballI allI impI)
  fix name assume "name \<in> set [''whole'', ''chunks'', ''staging'', ''quarantine'', ''revision-chunks'', ''revision-quarantine'']"
  then show "secure_dir sample_fs (sample_root @ [name])"
    by (intro sample_secure) (auto simp: sample_dirs_def sample_root_def)
next
  fix x assume "map_of (names sample_fs) ([''data'', ''staging'', ''00'', ''00''] @ [x]) \<noteq> None"
  then have "x = ''7.cow''" unfolding sample_names by (simp add: sample_dirs_def)
  then show "utf8_valid x" "strip_prefix (initialization_prefix exact_lib 7) x = None"
    by (simp_all add: byte_def initialization_prefix_def sample_uuid(1) strip_prefix_def)
qed

lemma sample_fits: "ops_fit 65536 [] [WriteOp 65530 ''filebelt'', TruncateOp 65540, DeallocateOp 0 10]"
  by (simp add: MAX_CHUNK_COUNT_def U64_MAX_def punched_def)

lemma sample_chunk_size: "validate_chunk_size 65536 = Ok ()"
proof -
  have "is_power_of_two 65536"
    unfolding is_power_of_two_def list_ex_iff by (rule bexI [of _ 16]) simp_all
  then show ?thesis by (simp add: validate_chunk_size_def MIN_CHUNK_SIZE_def MAX_CHUNK_SIZE_def)
qed

section \<open>Guarantees\<close>



text \<open>C18: The operations of a session never touch anything else, finished or interrupted: no name
  outside the session directory appears, disappears or changes what it refers to, and no inode
  that existed before changes, so that a published payload whose chunks are hard-linked into the
  session keeps its content.\<close>

theorem cow_session_isolated:
  assumes "sparse_laws L" and "validate_chunk_size c = Ok ()"
    and "cow_session L root session c d s" and "ops_fit c d as"
    and "run_ops L root session operation c (length d) as (s, faults) = (r, (s', faults'))"
  shows "(\<forall>p. \<not> strict_prefix (cow_path L root session) p \<longrightarrow>
        map_of (names s') p = map_of (names s) p \<and> lookup s' p = lookup s p)
      \<and> (\<forall>i n. inodes s i = Some n \<longrightarrow> inodes s' i = Some n)"
proof -
  have ok: "fs_ok s" using assms(3) by (simp add: cow_session_def session_state_def)
  have "outcome_ok (\<lambda>n. untouched (cow_path L root session) s) (untouched (cow_path L root session) s) faults
      (run_ops L root session operation c (length d) as (s, faults))"
    using wpD [OF wp_run_ops [OF assms(1,2) assms(3) [unfolded cow_session_def] assms(4)], of operation faults]
    by (rule outcome_mono) (auto dest: session_state_self(2))
  then have un: "untouched (cow_path L root session) s s'"
    unfolding assms(5) by (cases r) simp_all
  have "i < next_ino s" if "inodes s i = Some n" for i n
    using ok that by (metis fs_ok_def not_less option.distinct(1))
  then show ?thesis
    using un untouched_lookup [OF ok un] by (auto simp: untouched_def)
qed

theorem cow_session_isolated_witness:
  "\<exists>r s' faults'. run_ops exact_lib sample_root 7 9 65536 0 [WriteOp 65530 ''filebelt'', TruncateOp 65540, DeallocateOp 0 10]
      (sample_fs, [None, Some 0]) = (r, (s', faults'))
    \<and> map_of (names s') [''data'', ''whole''] = map_of (names sample_fs) [''data'', ''whole'']
    \<and> inodes s' 3 = Some \<lparr>ftype = Directory, perm = 0x1C0, owner_uid = 1000\<rparr>"
proof -
  obtain r s' faults' where run: "run_ops exact_lib sample_root 7 9 65536 0
      [WriteOp 65530 ''filebelt'', TruncateOp 65540, DeallocateOp 0 10] (sample_fs, [None, Some 0]) = (r, (s', faults'))"
    by (metis surj_pair)
  then have run': "run_ops exact_lib sample_root 7 9 65536 (length ([] :: bytes))
      [WriteOp 65530 ''filebelt'', TruncateOp 65540, DeallocateOp 0 10] (sample_fs, [None, Some 0]) = (r, (s', faults'))"
    by simp
  have "\<not> strict_prefix (cow_path exact_lib sample_root 7) [''data'', ''whole'']"
    unfolding sample_path by (simp add: strict_prefix_def)
  moreover have "inodes sample_fs 3 = Some \<lparr>ftype = Directory, perm = 0x1C0, owner_uid = 1000\<rparr>"
    by (simp add: sample_fs_def)
  ultimately show ?thesis
    using cow_session_isolated [OF exact_lib_sparse sample_chunk_size sample_session sample_fits run'] run by blast
qed

end
