(* ===== verification/Mount_Write.thy ===== *)
theory Mount_Write
  imports Worker_Gate Cow_Correct
begin

text \<open>
  Range mutations of a mount write session in the storage worker
  (\<open>mutate_mount_range\<close>, \<open>seek_mount_range\<close>, \<open>flush_mount_write\<close> and
  \<open>finalize_mount_write\<close>): admission against the database, the cross-process lock, and the
  blocking step on the copy-on-write staging.

  The database, the lock and the other processes are an environment: a record of calls on a state
  of which nothing is assumed. While the worker waits for the lock, the environment may change the
  file system as well. The body of a request is the list of the chunks its stream yields.
\<close>

section \<open>The blocking step\<close>

definition mount_base_chunk :: "MountPayloadPartRecord \<Rightarrow> (CowBaseChunk, StorageError) result" where
  "mount_base_chunk part =
     and_then (ok_or (u64_try_from (mpart_chunk_number part)) StateConflict) (\<lambda>n.
     and_then (ok_or (u64_try_from (mpart_size_bytes part)) StateConflict) (\<lambda>sz.
     Ok \<lparr>base_chunk_number = n, base_size = sz, base_digest = mpart_blake3 part\<rparr>))"

definition ensure_mount_cow ::
  "storage_lib \<Rightarrow> StorageLayout \<Rightarrow> MountWriteStorageRecord \<Rightarrow> nat \<Rightarrow> uuid \<Rightarrow> unit io" where
  "ensure_mount_cow L root r c init_id =
     io_then (recover_cow_under_lock L root (st_write_session_id r)) (\<lambda>_.
     match_io (cow_logical_size L root (st_write_session_id r) c) (\<lambda>answer.
     case answer of
       Ok _ \<Rightarrow> ret ()
     | Err e \<Rightarrow>
         if e = Io io_error.NotFound then
           io_then (lift_result (collect_ok mount_base_chunk (st_base_parts r))) (\<lambda>base_chunks.
           begin_cow_write L root (st_write_session_id r) c (st_base_payload r) base_chunks init_id)
         else fail e))"

definition planned_size ::
  "MountWriteRangeOperation \<Rightarrow> nat \<Rightarrow> nat \<Rightarrow> nat \<Rightarrow> (nat, StorageError) result" where
  "planned_size operation current_size start len =
     (case operation of
        MountWriteRangeOperation.WriteData \<Rightarrow> map_ok (max current_size) (ok_or (u64_checked_add start len) StateConflict)
      | MountWriteRangeOperation.Allocate \<Rightarrow> map_ok (max current_size) (ok_or (u64_checked_add start len) StateConflict)
      | MountWriteRangeOperation.HoleDeallocate \<Rightarrow> Ok current_size
      | _ \<Rightarrow> Err StateConflict)"

definition mutate_from_size ::
  "storage_lib \<Rightarrow> StorageLayout \<Rightarrow> uuid \<Rightarrow> uuid \<Rightarrow> nat \<Rightarrow> MountWriteRangeOperation \<Rightarrow> nat \<Rightarrow> nat \<Rightarrow> bytes \<Rightarrow> nat
     \<Rightarrow> nat \<Rightarrow> CowWriteResult io" where
  "mutate_from_size L root session operation_id c operation start len bs expected_logical_size current_size =
     io_then (lift_result (planned_size operation current_size start len)) (\<lambda>planned.
     if planned \<noteq> expected_logical_size then fail StateConflict
     else
       io_then
         (case operation of
            MountWriteRangeOperation.WriteData \<Rightarrow>
              write_cow_at L root session operation_id c current_size start bs
          | MountWriteRangeOperation.HoleDeallocate \<Rightarrow>
              deallocate_cow_range L root session operation_id c current_size start len
          | MountWriteRangeOperation.Allocate \<Rightarrow>
              allocate_cow_range L root session operation_id c current_size start len
          | _ \<Rightarrow> fail StateConflict) (\<lambda>written.
       if logical_size written \<noteq> expected_logical_size then fail StateConflict else ret written))"

definition mutate_range_blocking ::
  "storage_lib \<Rightarrow> StorageLayout \<Rightarrow> uuid \<Rightarrow> uuid \<Rightarrow> nat \<Rightarrow> MountWriteStorageRecord \<Rightarrow> MountWriteRangeOperation
     \<Rightarrow> nat \<Rightarrow> nat \<Rightarrow> bytes \<Rightarrow> nat \<Rightarrow> uuid \<Rightarrow> CowWriteResult io" where
  "mutate_range_blocking L root session operation_id c r operation start len bs expected_logical_size init_id =
     io_then (recover_cow_under_lock L root session) (\<lambda>_.
     io_then (ensure_mount_cow L root r c init_id) (\<lambda>_.
     io_then (cow_logical_size L root session c)
       (mutate_from_size L root session operation_id c operation start len bs expected_logical_size)))"

definition seek_range_blocking ::
  "storage_lib \<Rightarrow> StorageLayout \<Rightarrow> uuid \<Rightarrow> nat \<Rightarrow> MountWriteStorageRecord \<Rightarrow> MountWriteRangeOperation
     \<Rightarrow> nat \<Rightarrow> nat \<Rightarrow> uuid \<Rightarrow> nat option io" where
  "seek_range_blocking L root session c r operation log_size offset init_id =
     io_then (recover_cow_under_lock L root session) (\<lambda>_.
     io_then (ensure_mount_cow L root r c init_id) (\<lambda>_.
     io_then (cow_logical_size L root session c) (\<lambda>current_size.
     if current_size \<noteq> log_size then fail StateConflict
     else
       case operation of
         MountWriteRangeOperation.SeekData \<Rightarrow> cow_next_data L root session c log_size offset
       | MountWriteRangeOperation.SeekHole \<Rightarrow> cow_next_hole L root session c log_size offset
       | _ \<Rightarrow> fail StateConflict)))"

definition flush_blocking ::
  "storage_lib \<Rightarrow> StorageLayout \<Rightarrow> uuid \<Rightarrow> nat \<Rightarrow> MountWriteStorageRecord \<Rightarrow> uuid \<Rightarrow> CowManifest io" where
  "flush_blocking L root session c r init_id =
     io_then (recover_cow_under_lock L root session) (\<lambda>_.
     io_then (ensure_mount_cow L root r c init_id) (\<lambda>_.
     io_then (sync_cow L root session) (\<lambda>_.
     io_then (cow_logical_size L root session c) (\<lambda>log_size.
     cow_manifest L root session c log_size))))"

definition i64_try_from :: "nat \<Rightarrow> i64 option" where
  "i64_try_from n = (if n < 2 ^ 63 then Some (of_nat n) else None)"

definition finalize_blocking ::
  "storage_lib \<Rightarrow> StorageLayout \<Rightarrow> uuid \<Rightarrow> nat \<Rightarrow> MountWriteStorageRecord \<Rightarrow> PayloadRecord \<Rightarrow> nat \<Rightarrow> uuid
     \<Rightarrow> CowManifest io" where
  "finalize_blocking L root session c r staging_payload log_size init_id =
     io_then (recover_cow_under_lock L root session) (\<lambda>_.
     io_then (ensure_mount_cow L root r c init_id) (\<lambda>_.
     io_then (cow_staging_manifest L root session staging_payload c log_size) (\<lambda>manifest.
     io_then (lift_result (ok_or (i64_try_from (man_logical_size manifest)) StateConflict)) (\<lambda>size_bytes.
     io_then (publish_cow L root session
       (staging_payload\<lparr>pay_size_bytes := size_bytes, pay_blake3 := Some (man_digest manifest)\<rparr>) c manifest) (\<lambda>_.
     ret manifest)))))"

definition mount_chunk_evidence :: "CowManifest \<Rightarrow> (MountWriteChunkEvidence list, AppError) result" where
  "mount_chunk_evidence manifest =
     collect_ok (\<lambda>chunk.
       and_then (ok_or (i64_try_from (chunk_number chunk)) (AppError.Conflict ''mount_write_too_large'')) (\<lambda>n.
       and_then (ok_or (i64_try_from (chunk_digest_size chunk)) (AppError.Conflict ''mount_write_too_large'')) (\<lambda>sz.
       Ok \<lparr>ev_chunk_number = n, ev_size_bytes = sz, ev_blake3 = chunk_digest chunk\<rparr>))) (man_chunks manifest)"

section \<open>Handlers\<close>

type_synonym ('e, 'a) handler = "'e \<times> world \<Rightarrow> ('a, AppError) result \<times> ('e \<times> world)"

definition h_result :: "('a, AppError) result \<Rightarrow> ('e, 'a) handler" where
  "h_result r st = (r, st)"

definition h_then :: "('e, 'a) handler \<Rightarrow> ('a \<Rightarrow> ('e, 'b) handler) \<Rightarrow> ('e, 'b) handler" where
  "h_then m f st = (case m st of (Ok x, st') \<Rightarrow> f x st' | (Err e, st') \<Rightarrow> (Err e, st'))"

definition h_db ::
  "('e \<times> world \<Rightarrow> ('a, DatabaseError) result \<times> ('e \<times> world)) \<Rightarrow> ('e, 'a) handler" where
  "h_db query st = (case query st of (r, st') \<Rightarrow> (map_err app_error_from_database r, st'))"

text \<open>\<open>spawn_blocking\<close>: a panic of the closure is a join error.\<close>

definition h_blocking :: "'a io \<Rightarrow> ('e, 'a) handler" where
  "h_blocking m st = (case st of (e, w) \<Rightarrow>
     (case m w of
        (Ok x, w') \<Rightarrow> (Ok x, (e, w'))
      | (Err (Fails d), w') \<Rightarrow> (Err (storage_error d), (e, w'))
      | (Err _, w') \<Rightarrow> (Err Internal, (e, w'))))"

record 'e mount_env =
  lookup_mount_io_completion ::
    "BeginMountIoOperationInput \<Rightarrow> 'e \<times> world \<Rightarrow> (MountIoLookup, DatabaseError) result \<times> ('e \<times> world)"
  admit_mount_write_range ::
    "MountWriteCapabilityFence \<Rightarrow> uuid \<Rightarrow> MountWriteRangeOperation \<Rightarrow> i64 \<Rightarrow> i64 \<Rightarrow> 'e \<times> world
       \<Rightarrow> (MountWriteRangeAdmission, DatabaseError) result \<times> ('e \<times> world)"
  begin_mount_io_operation ::
    "BeginMountIoOperationInput \<Rightarrow> 'e \<times> world \<Rightarrow> (MountIoAdmission, DatabaseError) result \<times> ('e \<times> world)"
  complete_mount_io_operation ::
    "BeginMountIoOperationInput \<Rightarrow> MountIoCompletion \<Rightarrow> 'e \<times> world
       \<Rightarrow> (MountIoCompletion, DatabaseError) result \<times> ('e \<times> world)"
  lock_cow :: "uuid \<Rightarrow> 'e \<times> world \<Rightarrow> (unit, StorageError) result \<times> ('e \<times> world)"
  drop_cow_lock :: "uuid \<Rightarrow> 'e \<times> world \<Rightarrow> 'e \<times> world"
  recover_expired_mount_io ::
    "AuthorizedMountWrite \<Rightarrow> MountIoCleanupRecord \<Rightarrow> 'e \<times> world \<Rightarrow> (unit, AppError) result \<times> ('e \<times> world)"

text \<open>The guard is dropped on every path out of the block that holds it.\<close>

definition holding_cow_lock :: "'e mount_env \<Rightarrow> uuid \<Rightarrow> ('e, 'a) handler \<Rightarrow> ('e, 'a) handler" where
  "holding_cow_lock D session body st =
     (case lock_cow D session st of
        (Err e, st') \<Rightarrow> (Err (storage_error e), st')
      | (Ok _, st') \<Rightarrow> (case body st' of (r, st'') \<Rightarrow> (r, drop_cow_lock D session st'')))"

text \<open>The arguments of the blocking step.\<close>

record range_call =
  call_session :: uuid
  call_operation_id :: uuid
  call_record :: MountWriteStorageRecord
  call_operation :: MountWriteRangeOperation
  call_start :: nat
  call_len :: nat
  call_bytes :: bytes
  call_expected :: nat

definition run_range_call :: "storage_lib \<Rightarrow> AppState \<Rightarrow> uuid \<Rightarrow> range_call \<Rightarrow> CowWriteResult io" where
  "run_range_call L state init_id x =
     mutate_range_blocking L (storage state) (call_session x) (call_operation_id x) (chunk_size state)
       (call_record x) (call_operation x) (call_start x) (call_len x) (call_bytes x) (call_expected x) init_id"

datatype locked_outcome = LockedCompletion MountIoCompletion | LockedCleanup MountIoCleanupRecord

definition range_completion :: "CowWriteResult \<Rightarrow> (MountIoCompletion, AppError) result" where
  "range_completion written =
     and_then (ok_or (i64_try_from (logical_size written)) (AppError.Conflict ''mount_write_too_large'')) (\<lambda>log_size.
     and_then (ok_or (i64_try_from (reservation_delta written)) (AppError.Conflict ''mount_write_too_large'')) (\<lambda>delta.
     Ok (RangeMutation log_size delta)))"

definition admitted_range ::
  "AppState \<Rightarrow> 'e mount_env \<Rightarrow> AuthorizedMountWrite \<Rightarrow> uuid \<Rightarrow> MountWriteRangeOperation \<Rightarrow> i64 \<Rightarrow> i64
     \<Rightarrow> ('e, MountWriteRangeAdmission) handler" where
  "admitted_range state D authorized capability_id operation range_start range_end =
     h_then (h_db (admit_mount_write_range D (mw_fence authorized) capability_id operation range_start range_end)) (\<lambda>admission.
     h_then (h_result (validate_mount_range_admission state authorized admission operation range_start range_end)) (\<lambda>_.
     h_result (Ok admission)))"

definition mutate_under_lock ::
  "(range_call \<Rightarrow> CowWriteResult io) \<Rightarrow> AppState \<Rightarrow> 'e mount_env \<Rightarrow> AuthorizedMountWrite \<Rightarrow> MountIoRequest \<Rightarrow> uuid
     \<Rightarrow> MountWriteRangeOperation \<Rightarrow> i64 \<Rightarrow> i64 \<Rightarrow> nat \<Rightarrow> bytes \<Rightarrow> MountWriteRangeAdmission \<Rightarrow> ('e, locked_outcome) handler" where
  "mutate_under_lock step state D authorized request session operation range_start range_end len bs initial =
     h_then (h_db (begin_mount_io_operation D (mount_io_request_input request authorized))) (\<lambda>answer.
     case answer of
       Completed completion \<Rightarrow> h_result (Ok (LockedCompletion completion))
     | CleanupRequired cleanup \<Rightarrow> h_result (Ok (LockedCleanup cleanup))
     | Execute r \<Rightarrow>
         h_then (h_result (validate_mount_storage_record state authorized r)) (\<lambda>_.
         h_then (admitted_range state D authorized (req_capability_id request) operation range_start range_end) (\<lambda>admission.
         h_then (h_result (validate_mount_range_readmission initial admission)) (\<lambda>_.
         h_then (h_result (ok_or (u64_try_from (adm_resulting_logical_size admission))
                   (AppError.Conflict ''mount_write_size_invalid''))) (\<lambda>expected_logical_size.
         h_then (h_blocking (step
           \<lparr>call_session = session, call_operation_id = adm_operation_id admission,
            call_record = adm_storage admission, call_operation = operation,
            call_start = unat (mnt_range_start (mw_claims authorized)), call_len = len,
            call_bytes = bs, call_expected = expected_logical_size\<rparr>)) (\<lambda>written.
         h_then (h_result (range_completion written)) (\<lambda>completion.
         h_then (h_db (complete_mount_io_operation D (mount_io_request_input request authorized) completion)) (\<lambda>recorded.
         h_result (Ok (LockedCompletion recorded))))))))))"

definition cleaned_up ::
  "'e mount_env \<Rightarrow> AuthorizedMountWrite \<Rightarrow> MountIoCleanupRecord \<Rightarrow> ('e, 'a) handler" where
  "cleaned_up D authorized cleanup =
     h_then (recover_expired_mount_io D authorized cleanup) (\<lambda>_.
     h_result (Err (AppError.Conflict ''mount_io_recovered'')))"

definition mutate_admitted ::
  "(range_call \<Rightarrow> CowWriteResult io) \<Rightarrow> AppState \<Rightarrow> 'e mount_env \<Rightarrow> AuthorizedMountWrite \<Rightarrow> MountIoRequest \<Rightarrow> uuid
     \<Rightarrow> MountWriteRangeOperation \<Rightarrow> i64 \<Rightarrow> i64 \<Rightarrow> nat \<Rightarrow> bytes \<Rightarrow> MountWriteRangeAdmission option
     \<Rightarrow> ('e, MountWriteResult) handler" where
  "mutate_admitted step state D authorized request session operation range_start range_end len bs initial =
     h_then (h_db (begin_mount_io_operation D (mount_io_request_input request authorized))) (\<lambda>answer.
     case answer of
       Completed completion \<Rightarrow> h_result (completed_mount_range_result session completion)
     | CleanupRequired cleanup \<Rightarrow> cleaned_up D authorized cleanup
     | Execute r \<Rightarrow>
         h_then (h_result (validate_mount_storage_record state authorized r)) (\<lambda>_.
         h_then
           (case initial of
              Some admission \<Rightarrow> h_result (Ok admission)
            | None \<Rightarrow> admitted_range state D authorized (req_capability_id request) operation range_start range_end) (\<lambda>admission.
         h_then (holding_cow_lock D session
           (mutate_under_lock step state D authorized request session operation range_start range_end len bs admission)) (\<lambda>outcome.
         case outcome of
           LockedCompletion completion \<Rightarrow> h_result (completed_mount_range_result session completion)
         | LockedCleanup cleanup \<Rightarrow> cleaned_up D authorized cleanup))))"

definition read_range_body ::
  "worker_lib \<Rightarrow> MountCapabilityClaims \<Rightarrow> MountWriteRangeOperation \<Rightarrow> bytes option list \<Rightarrow> nat
     \<Rightarrow> (bytes, AppError) result" where
  "read_range_body W claims operation body len =
     (if operation = MountWriteRangeOperation.WriteData then
        and_then (read_mount_body_exact body len) (\<lambda>bs.
        and_then (validate_mount_write_body_digest W claims bs) (\<lambda>_. Ok bs))
      else
        and_then (read_mount_body_exact body 0) (\<lambda>_. Ok []))"

definition mutate_mount_range_with ::
  "(range_call \<Rightarrow> CowWriteResult io) \<Rightarrow> worker_lib \<Rightarrow> u64 option \<Rightarrow> AppState \<Rightarrow> 'e mount_env \<Rightarrow> string \<Rightarrow> HeaderMap
     \<Rightarrow> bytes option list \<Rightarrow> MountStorageCapabilityUse \<Rightarrow> MountWriteRangeOperation \<Rightarrow> MountIoOperation
     \<Rightarrow> ('e, MountWriteResult) handler" where
  "mutate_mount_range_with step W seconds state D write_session_text headers body purpose operation io_op =
     h_then (h_result (ok_or (cap_uuid_parse (caps W) write_session_text) (BadRequest ''invalid_write_session_id''))) (\<lambda>session.
     h_then (h_result (authorize_mount_write W seconds state headers purpose)) (\<lambda>authorized.
     if wf_write_session_id (mw_fence authorized) \<noteq> session then h_result (Err Forbidden)
     else
       h_then (h_result (mount_claim_range_length (mw_claims authorized))) (\<lambda>len.
       if len > MAX_MOUNT_WRITE_BYTES then h_result (Err (BadRequest ''mount_write_too_large''))
       else
         h_then (h_result (mount_io_request_from_claims W (mw_claims authorized) io_op)) (\<lambda>request.
         h_then (h_result (ok_or (req_range_start request) Forbidden)) (\<lambda>range_start.
         h_then (h_result (ok_or (req_range_end request) Forbidden)) (\<lambda>range_end.
         h_then (h_db (lookup_mount_io_completion D (mount_io_request_input request authorized))) (\<lambda>found.
         h_then
           (if found = Absent
            then h_then (admitted_range state D authorized (req_capability_id request) operation range_start range_end)
                   (\<lambda>admission. h_result (Ok (Some admission)))
            else h_result (Ok None)) (\<lambda>initial.
         h_then (h_result (read_range_body W (mw_claims authorized) operation body len)) (\<lambda>bs.
         case found of
           LookupCompleted completion \<Rightarrow> h_result (completed_mount_range_result session completion)
         | _ \<Rightarrow>
             mutate_admitted step state D authorized request session operation range_start range_end len bs initial)))))))))"

definition mutate_mount_range ::
  "storage_lib \<Rightarrow> uuid \<Rightarrow> worker_lib \<Rightarrow> u64 option \<Rightarrow> AppState \<Rightarrow> 'e mount_env \<Rightarrow> string \<Rightarrow> HeaderMap
     \<Rightarrow> bytes option list \<Rightarrow> MountStorageCapabilityUse \<Rightarrow> MountWriteRangeOperation \<Rightarrow> MountIoOperation
     \<Rightarrow> ('e, MountWriteResult) handler" where
  "mutate_mount_range L init_id W seconds state =
     mutate_mount_range_with (run_range_call L state init_id) W seconds state"

definition mount_write_data ::
  "storage_lib \<Rightarrow> uuid \<Rightarrow> worker_lib \<Rightarrow> u64 option \<Rightarrow> AppState \<Rightarrow> 'e mount_env \<Rightarrow> string \<Rightarrow> HeaderMap
     \<Rightarrow> bytes option list \<Rightarrow> ('e, MountWriteResult) handler" where
  "mount_write_data L init_id W seconds state D session_text headers body =
     h_then (h_result (reject_unsigned_mount_mode headers)) (\<lambda>_.
     h_then (h_result (require_mount_binary_content_type W headers)) (\<lambda>_.
     mutate_mount_range L init_id W seconds state D session_text headers body
       MountStorageCapabilityUse.WriteData MountWriteRangeOperation.WriteData MountIoOperation.WriteData))"

definition deallocate_mount_write ::
  "storage_lib \<Rightarrow> uuid \<Rightarrow> worker_lib \<Rightarrow> u64 option \<Rightarrow> AppState \<Rightarrow> 'e mount_env \<Rightarrow> string \<Rightarrow> HeaderMap
     \<Rightarrow> bytes option list \<Rightarrow> ('e, MountWriteResult) handler" where
  "deallocate_mount_write L init_id W seconds state D session_text headers body =
     h_then (h_result (reject_unsigned_mount_mode headers)) (\<lambda>_.
     mutate_mount_range L init_id W seconds state D session_text headers body
       MountStorageCapabilityUse.Deallocate MountWriteRangeOperation.HoleDeallocate MountIoOperation.HoleDeallocate)"

definition allocate_mount_write ::
  "storage_lib \<Rightarrow> uuid \<Rightarrow> worker_lib \<Rightarrow> u64 option \<Rightarrow> AppState \<Rightarrow> 'e mount_env \<Rightarrow> string \<Rightarrow> HeaderMap
     \<Rightarrow> bytes option list \<Rightarrow> ('e, MountWriteResult) handler" where
  "allocate_mount_write L init_id W seconds state D session_text headers body =
     h_then (h_result (reject_unsigned_mount_mode headers)) (\<lambda>_.
     mutate_mount_range L init_id W seconds state D session_text headers body
       MountStorageCapabilityUse.Allocate MountWriteRangeOperation.Allocate MountIoOperation.Allocate)"

section \<open>Repeating an interrupted mutation\<close>

fun cow_op_of :: "MountWriteRangeOperation \<Rightarrow> nat \<Rightarrow> nat \<Rightarrow> bytes \<Rightarrow> cow_op" where
  "cow_op_of MountWriteRangeOperation.WriteData start len bs = WriteOp start bs"
| "cow_op_of MountWriteRangeOperation.Allocate start len bs = AllocateOp start len"
| "cow_op_of _ start len bs = DeallocateOp start len"

text \<open>The three mutations, with the body of a write as long as its range.\<close>

definition mutation_ok :: "MountWriteRangeOperation \<Rightarrow> nat \<Rightarrow> nat \<Rightarrow> bytes \<Rightarrow> bool" where
  "mutation_ok operation start len bs \<longleftrightarrow>
     operation \<in> {MountWriteRangeOperation.WriteData, MountWriteRangeOperation.HoleDeallocate,
                  MountWriteRangeOperation.Allocate}
     \<and> (operation = MountWriteRangeOperation.WriteData \<longrightarrow> length bs = len)"

lemma wp_match_io:
  assumes "wp m (\<lambda>x. wp (g (Ok x)) Q E) E s" and g: "g (Err (Io DeviceError)) = fail (Io DeviceError)"
  shows "wp (match_io m g) Q E s"
  unfolding wp_def
proof
  fix fl
  obtain r s1 fl1 where m: "m (s, fl) = (r, (s1, fl1))" by (metis surj_pair)
  from wpD [OF assms(1), of fl] m have out: "outcome_ok (\<lambda>x. wp (g (Ok x)) Q E) E fl (r, (s1, fl1))"
    by simp
  show "outcome_ok Q E fl (match_io m g (s, fl))"
  proof (cases r)
    case (Ok x)
    with out have "outcome_ok Q E fl1 (g (Ok x) (s1, fl1))" "fl = [] \<longrightarrow> fl1 = []"
      by (simp_all add: wpD)
    then show ?thesis
      using m Ok by (auto simp: match_io_def elim!: outcome_mono)
  next
    case (Err e)
    with out m g show ?thesis by (simp add: match_io_def stop_with_def)
  qed
qed

lemma wp_ensure_mount_cow:
  assumes laws: "uuid_laws L" and c: "validate_chunk_size c = Ok ()" and lim: "length d \<le> c * MAX_CHUNK_COUNT"
    and ready: "recovery_ready L root session s0" and r: "st_write_session_id r = session"
    and st: "session_state L root session s0 (leftovers L operation_id) (chunk_map c d) s"
    and Q: "\<And>s'. session_state L root session s0 {} (chunk_map c d) s' \<Longrightarrow> Q () s'"
    and E: "\<And>s'. session_state L root session s0 (leftovers L operation_id) (chunk_map c d) s' \<Longrightarrow> E s'"
  shows "wp (ensure_mount_cow L root r c init_id) Q E s"
proof -
  note cb = validate_chunk_size_bounds [OF c]
  have bound: "k < MAX_CHUNK_COUNT" if "chunk_map c d k \<noteq> None" for k
    by (rule chunk_map_bound [OF cb(1) lim that])
  show ?thesis
    unfolding ensure_mount_cow_def r
  proof (intro wp_then wp_recover_cow_under_lock [OF laws bound ready st] wp_match_io)
    fix s' assume s': "session_state L root session s0 {} (chunk_map c d) s'"
    have "E s'" by (rule E [OF session_state_mono [OF s']]) simp
    then show "wp (cow_logical_size L root session c)
      (\<lambda>x. wp (case Ok x of Ok _ \<Rightarrow> ret () | Err e \<Rightarrow>
         if e = Io io_error.NotFound then
           io_then (lift_result (collect_ok mount_base_chunk (st_base_parts r))) (\<lambda>base_chunks.
           begin_cow_write L root session c (st_base_payload r) base_chunks init_id)
         else fail e) Q E) E s'"
      using Q [OF s'] by (intro wp_cow_logical_size [OF c lim s']) (auto intro!: wp_ret)
  qed (use E in simp_all)
qed

lemma flat_op_length:
  "length (flat_op (WriteOp start bs) d) = max (length d) (start + length bs)"
  "length (flat_op (AllocateOp start len) d) = max (length d) (start + len)"
  "length (flat_op (DeallocateOp start len) d) = length d"
  by (auto simp: punched_def max_def)

lemma overwrite_again:
  assumes "length as \<le> length bs"
  shows "overwrite (overwrite d offset as) offset bs = overwrite d offset bs"
proof (cases "offset \<le> length d")
  case True
  then have first: "overwrite d offset as = take offset d @ as @ drop (offset + length as) d"
    by (rule overwrite_inside)
  have "drop (offset + length bs) (overwrite d offset as) = drop (offset + length bs) d"
    unfolding first using True assms by (simp add: add.commute)
  then show ?thesis
    using True by (simp add: overwrite_inside)
next
  case False
  then show ?thesis using assms by (simp add: overwrite_def pad_to_def)
qed

lemma overwrite_padded: "k \<le> offset \<Longrightarrow> overwrite (pad_to k d) offset bs = overwrite d offset bs"
  using overwrite_pad_to [of offset "pad_to k d" bs] overwrite_pad_to [of offset d bs]
  by (simp add: pad_to_pad_to)

lemma interrupted_flat:
  assumes "op_interrupted c d a m" and "\<forall>n. a \<noteq> TruncateOp n"
  shows "\<exists>d'. m = chunk_map c d' \<and> flat_op a d' = flat_op a d \<and> length d' \<le> length (flat_op a d)"
proof (cases a)
  case (WriteOp start bs)
  with assms(1) obtain d' where d': "write_interrupted d start bs d'" "m = chunk_map c d'" by auto
  have "overwrite d' start bs = overwrite d start bs"
    using d'(1) unfolding write_interrupted_def
    by (auto simp: overwrite_padded overwrite_again)
  moreover have "length d' \<le> max (length d) (start + length bs)"
    using d'(1) unfolding write_interrupted_def by auto
  ultimately show ?thesis using d'(2) WriteOp by (auto simp: flat_op_length)
next
  case (AllocateOp start len)
  with assms(1) obtain k where k: "k \<le> start + len" "m = chunk_map c (pad_to k d)" by auto
  then show ?thesis
    using AllocateOp by (intro exI [of _ "pad_to k d"]) (auto simp: pad_to_pad_to)
next
  case (DeallocateOp start len)
  with assms(1) obtain k where k: "k \<le> min (start + len) (length d)" "m = chunk_map c (punched start k d)" by auto
  moreover have "punched start (min (start + len) (length d)) (punched start k d) = punched start (min (start + len) (length d)) d"
    using k(1) by (auto simp: punched_def intro!: overwrite_again)
  moreover have "length (punched start k d) = length d"
    using k(1) by (auto simp: punched_def max_def)
  ultimately show ?thesis
    using DeallocateOp flat_op_length(3) [of start len d] by (intro exI [of _ "punched start k d"]) auto
qed (use assms(2) in simp)

text \<open>
  What holds between two attempts of one mutation: the session may contain leftovers and part of
  the change, and completing the mutation from there gives the content it was to give.
\<close>

definition in_progress ::
  "storage_lib \<Rightarrow> StorageLayout \<Rightarrow> uuid \<Rightarrow> uuid \<Rightarrow> nat \<Rightarrow> bytes \<Rightarrow> cow_op \<Rightarrow> fs \<Rightarrow> fs \<Rightarrow> bool" where
  "in_progress L root session operation_id c d a s0 s \<longleftrightarrow>
     (\<exists>d'. session_state L root session s0 (leftovers L operation_id) (chunk_map c d') s
        \<and> flat_op a d' = flat_op a d \<and> length d' \<le> c * MAX_CHUNK_COUNT)"

lemma wp_mutate_from_size:
  assumes laws: "sparse_laws L" and c: "validate_chunk_size c = Ok ()"
    and op: "mutation_ok operation start len bs" "op_fits c d (cow_op_of operation start len bs)"
    and lim: "length d \<le> c * MAX_CHUNK_COUNT"
    and st: "session_state L root session s0 {} (chunk_map c d) s"
    and expected: "expected = length (flat_op (cow_op_of operation start len bs) d)" "expected \<le> c * MAX_CHUNK_COUNT"
  shows "wp (mutate_from_size L root session operation_id c operation start len bs expected (length d))
    (\<lambda>w s'. session_state L root session s0 {} (chunk_map c (flat_op (cow_op_of operation start len bs) d)) s'
       \<and> logical_size w = expected)
    (in_progress L root session operation_id c d (cow_op_of operation start len bs) s0) s"
    (is "wp _ ?Q ?E s")
proof -
  let ?a = "cow_op_of operation start len bs"
  have planned: "planned_size operation (length d) start len = Ok expected"
    unfolding expected(1) using op validate_chunk_size_bounds(2) [OF c]
    by (cases operation) (auto simp: planned_size_def mutation_ok_def flat_op_length u64_checked_add_def
        simp del: flat_op.simps)
  have not_trunc: "\<forall>n. ?a \<noteq> TruncateOp n" by (cases operation) auto
  have "wp (run_op L root session operation_id c (length d) ?a)
      (\<lambda>w. wp (if logical_size w \<noteq> expected then fail StateConflict else ret w) ?Q ?E) ?E s"
  proof (rule wp_conseq [OF wp_run_op [OF laws c st op(2) lim]])
    fix s2 assume "\<exists>m. session_state L root session s0 (leftovers L operation_id) m s2 \<and> op_interrupted c d ?a m"
    then obtain m where m: "session_state L root session s0 (leftovers L operation_id) m s2" "op_interrupted c d ?a m"
      by blast
    obtain d2 where "m = chunk_map c d2" "flat_op ?a d2 = flat_op ?a d" "length d2 \<le> length (flat_op ?a d)"
      using interrupted_flat [OF m(2) not_trunc] by blast
    then show "?E s2" using m(1) expected by (auto simp: in_progress_def)
  qed (use expected in \<open>auto intro!: wp_ret\<close>)
  moreover have "(case operation of
            MountWriteRangeOperation.WriteData \<Rightarrow> write_cow_at L root session operation_id c (length d) start bs
          | MountWriteRangeOperation.HoleDeallocate \<Rightarrow> deallocate_cow_range L root session operation_id c (length d) start len
          | MountWriteRangeOperation.Allocate \<Rightarrow> allocate_cow_range L root session operation_id c (length d) start len
          | _ \<Rightarrow> fail StateConflict) = run_op L root session operation_id c (length d) ?a"
    using op(1) by (cases operation) (auto simp: mutation_ok_def)
  ultimately show ?thesis
    unfolding mutate_from_size_def by (auto intro!: wp_then wp_lift_Ok [OF planned])
qed

lemma in_progress_cong:
  "flat_op a d' = flat_op a d \<Longrightarrow>
   in_progress L root session operation_id c d' a s0 = in_progress L root session operation_id c d a s0"
  by (simp add: in_progress_def fun_eq_iff)

lemma wp_mutate_range_blocking:
  assumes laws: "sparse_laws L" "uuid_laws L" and c: "validate_chunk_size c = Ok ()"
    and ready: "recovery_ready L root session s0" and r: "st_write_session_id r = session"
    and op: "mutation_ok operation start len bs" "op_fits c d (cow_op_of operation start len bs)"
    and st: "in_progress L root session operation_id c d (cow_op_of operation start len bs) s0 s"
    and expected: "expected = length (flat_op (cow_op_of operation start len bs) d)" "expected \<le> c * MAX_CHUNK_COUNT"
  shows "wp (mutate_range_blocking L root session operation_id c r operation start len bs expected init_id)
    (\<lambda>w s'. session_state L root session s0 {} (chunk_map c (flat_op (cow_op_of operation start len bs) d)) s'
       \<and> logical_size w = expected)
    (in_progress L root session operation_id c d (cow_op_of operation start len bs) s0) s"
    (is "wp _ ?Q ?E s")
proof -
  let ?a = "cow_op_of operation start len bs"
  note cb = validate_chunk_size_bounds [OF c]
  obtain d' where d': "session_state L root session s0 (leftovers L operation_id) (chunk_map c d') s"
    "flat_op ?a d' = flat_op ?a d" and lim: "length d' \<le> c * MAX_CHUNK_COUNT"
    using st by (auto simp: in_progress_def)
  have bound: "k < MAX_CHUNK_COUNT" if "chunk_map c d' k \<noteq> None" for k
    by (rule chunk_map_bound [OF cb(1) lim that])
  have E: "?E s'" if "session_state L root session s0 (leftovers L operation_id) (chunk_map c d') s'" for s'
    using that d'(2) lim by (auto simp: in_progress_def)
  have fits: "op_fits c d' ?a" using op(2) by (cases ?a) auto
  have run: "wp (mutate_from_size L root session operation_id c operation start len bs expected (length d')) ?Q ?E s2"
    if "session_state L root session s0 {} (chunk_map c d') s2" for s2
    using wp_mutate_from_size [OF laws(1) c op(1) fits lim that, of expected operation_id] expected d'(2)
    by (simp add: in_progress_cong [OF d'(2)])
  have sized: "wp (io_then (cow_logical_size L root session c)
      (mutate_from_size L root session operation_id c operation start len bs expected)) ?Q ?E s2"
    if s2: "session_state L root session s0 {} (chunk_map c d') s2" for s2
    using E [OF session_state_mono [OF s2]] run [OF s2] by (intro wp_then wp_cow_logical_size [OF c lim s2]) auto
  have ensured: "wp (ensure_mount_cow L root r c init_id) (\<lambda>_. wp (io_then (cow_logical_size L root session c)
      (mutate_from_size L root session operation_id c operation start len bs expected)) ?Q ?E) ?E s1"
    if s1: "session_state L root session s0 {} (chunk_map c d') s1" for s1
    by (rule wp_ensure_mount_cow [OF laws(2) c lim ready r session_state_mono [OF s1]]) (use sized E in auto)
  show ?thesis
    unfolding mutate_range_blocking_def
    by (intro wp_then wp_recover_cow_under_lock [OF laws(2) bound ready d'(1)]) (use ensured E in auto)
qed

text \<open>Attempts of one mutation, each with its own faults, until one succeeds; the last has none.\<close>

fun retry :: "'a io \<Rightarrow> fault list list \<Rightarrow> fs \<Rightarrow> ('a, stop) result \<times> fs" where
  "retry m [] s = (case m (s, []) of (r, (s', _)) \<Rightarrow> (r, s'))"
| "retry m (fl # fls) s =
     (case m (s, fl) of
        (Ok x, (s', _)) \<Rightarrow> (Ok x, s')
      | (Err e, (s', _)) \<Rightarrow> retry m fls s')"

lemma retry_succeeds:
  assumes "\<And>s. J s \<Longrightarrow> wp m Q J s"
  shows "J s \<Longrightarrow> \<exists>x s'. retry m fls s = (Ok x, s') \<and> Q x s'"
proof (induction fls arbitrary: s)
  case Nil
  then show ?case
    using wpD [OF assms, of s "[]"]
    by (cases "m (s, [])" rule: prod.exhaust; cases "fst (m (s, []))") auto
next
  case (Cons fl fls)
  obtain r s1 fl1 where m: "m (s, fl) = (r, (s1, fl1))" by (metis surj_pair)
  show ?case
    using wpD [OF assms [OF Cons.prems], of fl] Cons.IH [of s1] m by (cases r) auto
qed

section \<open>What an accepted plan and request mean\<close>

text \<open>The planned chunks are exactly the chunks of a content of \<open>n\<close> bytes, with fresh locators.\<close>

definition plan_tiles :: "nat \<Rightarrow> nat \<Rightarrow> MountWriteChunkPlan list \<Rightarrow> bool" where
  "plan_tiles c n plan \<longleftrightarrow>
     length plan = div_ceil n c
     \<and> (\<forall>k < length plan. sint (plan_chunk_number (plan ! k)) = int k
          \<and> sint (plan_size_bytes (plan ! k)) = int (chunk_length c n k))
     \<and> distinct (map plan_staging_locator plan) \<and> 0 \<notin> plan_staging_locator ` set plan"

lemma i64_checked_add_Some: "i64_checked_add a b = Some c \<Longrightarrow> sint c = sint a + sint b"
proof -
  assume "i64_checked_add a b = Some c"
  then have "c = word_of_int (sint a + sint b)" "- (2 ^ 63) \<le> sint a + sint b" "sint a + sint b < 2 ^ 63"
    by (auto simp: i64_checked_add_def split: if_splits)
  then show ?thesis by (simp only: sint_word_of_int_range)
qed

lemma u64_try_from_Some: "u64_try_from v = Some n \<longleftrightarrow> sint v = int n"
  by (auto simp: u64_try_from_def)

lemma chunk_plan_loop_Ok:
  "chunk_plan_loop r c count i plan locators planned = Ok total_bytes \<Longrightarrow> count = i + length plan \<Longrightarrow>
   (\<forall>k < length plan. sint (plan_chunk_number (plan ! k)) = int (i + k)
      \<and> (\<exists>sz. sint (plan_size_bytes (plan ! k)) = int sz \<and> 0 < sz \<and> sz \<le> c \<and> (k + 1 < length plan \<longrightarrow> sz = c)))
   \<and> sint total_bytes = sint planned + sum_list (map (sint \<circ> plan_size_bytes) plan)
   \<and> distinct (map plan_staging_locator plan) \<and> 0 \<notin> plan_staging_locator ` set plan
   \<and> plan_staging_locator ` set plan \<inter> locators = {}"
proof (induction plan arbitrary: i locators planned)
  case (Cons chunk plan)
  obtain sz planned' where sz: "sint (plan_size_bytes chunk) = int sz" "sz \<noteq> 0" "sz \<le> c"
      "i + 1 < count \<longrightarrow> sz = c" "sint (plan_chunk_number chunk) = int i"
    and loc: "plan_staging_locator chunk \<noteq> 0" "plan_staging_locator chunk \<notin> locators"
    and add: "i64_checked_add planned (plan_size_bytes chunk) = Some planned'"
    and rest: "chunk_plan_loop r c count (i + 1) plan (insert (plan_staging_locator chunk) locators) planned' = Ok total_bytes"
    using Cons.prems(1) by (auto simp: result_simps u64_try_from_Some Let_def not_le not_less split: if_splits)
  note ih = Cons.IH [OF rest] Cons.prems(2)
  have "sint (plan_chunk_number ((chunk # plan) ! k)) = int (i + k)
      \<and> (\<exists>sz. sint (plan_size_bytes ((chunk # plan) ! k)) = int sz \<and> 0 < sz \<and> sz \<le> c
          \<and> (k + 1 < length (chunk # plan) \<longrightarrow> sz = c))" if "k < length (chunk # plan)" for k
    using that ih sz by (cases k) auto
  then show ?case
    using ih loc i64_checked_add_Some [OF add] by auto
qed simp

lemma int_sum_list: "sum_list (map int xs) = int (sum_list xs)"
  by (induction xs) simp_all

lemma sizes_tile:
  assumes c: "0 < c" and sizes: "\<And>k. k < length xs \<Longrightarrow> 0 < xs ! k \<and> xs ! k \<le> c \<and> (k + 1 < length xs \<longrightarrow> xs ! k = c)"
  shows "length xs = div_ceil (sum_list xs) c \<and> (\<forall>k < length xs. xs ! k = chunk_length c (sum_list xs) k)"
proof (cases xs rule: rev_cases)
  case Nil
  then show ?thesis using div_ceil_iff [OF c, of 0 0] by simp
next
  case (snoc ys y)
  have ys: "ys = replicate (length ys) c"
    using sizes snoc by (intro nth_equalityI) (auto simp: nth_append split: if_splits)
  have y: "0 < y" "y \<le> c" using sizes [of "length ys"] snoc by simp_all
  have total: "sum_list xs = length ys * c + y" using snoc ys sum_list_replicate [of "length ys" c] by simp
  have "k < div_ceil (sum_list xs) c \<longleftrightarrow> k < Suc (length ys)" for k
  proof -
    have "k * c < length ys * c + y \<longleftrightarrow> k \<le> length ys"
    proof
      assume "k * c < length ys * c + y"
      then have "k * c < Suc (length ys) * c" using y by simp
      then have "k < Suc (length ys)" by (simp only: mult_less_cancel2)
      then show "k \<le> length ys" by simp
    next
      assume "k \<le> length ys"
      from mult_le_mono1 [OF this, of c] y(1) show "k * c < length ys * c + y" by linarith
    qed
    then show ?thesis using div_ceil_iff [OF c, of k "sum_list xs"] total by auto
  qed
  then have len: "div_ceil (sum_list xs) c = Suc (length ys)" by (metis less_irrefl linorder_neqE_nat)
  have "xs ! k = chunk_length c (sum_list xs) k" if "k < length xs" for k
  proof (cases "k = length ys")
    case True
    then show ?thesis using snoc y total by (simp add: chunk_length_def)
  next
    case False
    then have k: "k < length ys" using that snoc by simp
    then have "xs ! k = c" using ys snoc by (metis nth_append nth_replicate)
    moreover have "Suc k * c \<le> length ys * c" using k by (intro mult_le_mono1) simp
    ultimately show ?thesis using total by (simp add: chunk_length_def)
  qed
  then show ?thesis using snoc len by simp
qed

lemma validate_mount_chunk_plan_tiles:
  assumes "validate_mount_chunk_plan r c e = Ok ()" and c: "0 < c"
  shows "\<exists>n. sint (st_reserved_bytes r) = int n \<and> plan_tiles c n (st_planned_chunks r) \<and> sint e < int n"
proof -
  let ?plan = "st_planned_chunks r" and ?sizes = "map (nat \<circ> sint \<circ> plan_size_bytes) (st_planned_chunks r)"
  obtain total_bytes where loop: "chunk_plan_loop r c (length ?plan) 0 ?plan {} 0 = Ok total_bytes"
    and eq: "total_bytes = st_reserved_bytes r" and e: "sint e < sint (st_reserved_bytes r)"
    using assms(1) by (auto simp: validate_mount_chunk_plan_def result_simps not_le split: if_splits)
  note ok = chunk_plan_loop_Ok [OF loop, simplified]
  have each: "\<exists>sz. sint (plan_size_bytes (?plan ! k)) = int sz \<and> 0 < sz \<and> sz \<le> c \<and> (k + 1 < length ?plan \<longrightarrow> sz = c)"
    if "k < length ?plan" for k
    using ok that by simp
  have same: "map (sint \<circ> plan_size_bytes) ?plan = map int ?sizes"
    using each by (intro nth_equalityI) (force simp: o_def)+
  have "sint (st_reserved_bytes r) = sum_list (map (sint \<circ> plan_size_bytes) ?plan)"
    using ok eq by simp
  then have total: "sint (st_reserved_bytes r) = int (sum_list ?sizes)"
    unfolding same int_sum_list .
  have "0 < ?sizes ! k \<and> ?sizes ! k \<le> c \<and> (k + 1 < length ?sizes \<longrightarrow> ?sizes ! k = c)" if "k < length ?sizes" for k
    using each [of k] that by auto
  note tile = sizes_tile [OF c this]
  have "sint (plan_size_bytes (?plan ! k)) = int (chunk_length c (sum_list ?sizes) k)" if "k < length ?plan" for k
    using conjunct2 [OF tile, rule_format, of k] each [OF that] that by auto
  then have "plan_tiles c (sum_list ?sizes) ?plan"
    unfolding plan_tiles_def using ok tile by simp
  then show ?thesis
    using e unfolding total by (intro exI [of _ "sum_list ?sizes"] conjI refl)
qed

end
