(* ===== verification/Mount_Guarantees.thy ===== *)
theory Mount_Guarantees
  imports Mount_Write
begin

text \<open>
  What the worker guarantees for mutations of a mount write session: an interrupted mutation is
  completed by repeating it, and the storage step runs only for what the capability, the request
  body and the database's plan agree on.
\<close>

section \<open>Liveness\<close>

lemma session_in_progress:
  assumes "cow_session L root session c d s" and "length d \<le> c * MAX_CHUNK_COUNT"
  shows "in_progress L root session operation_id c d a s s"
  unfolding in_progress_def
  using assms session_state_mono [where T = "{}" and T' = "leftovers L operation_id"]
  by (auto simp: cow_session_def intro!: exI [of _ d])

definition sample_record :: MountWriteStorageRecord where
  "sample_record =
     (let payload = \<lparr>pay_tenant_id = 1, pay_payload_id = 2, pay_drive_id = 3, pay_backend_id = 4, pay_locator = 5,
        pay_layout = ''chunked'', pay_state = ''staging'', pay_size_bytes = 0, pay_blake3 = None\<rparr> in
      \<lparr>st_write_session_id = 7, st_base_version_id = None, st_logical_size_bytes = 65538, st_reserved_bytes = 65538,
       st_state = ''open'', st_staging_payload = payload, st_base_payload = None, st_base_parts = [],
       st_planned_chunks = []\<rparr>)"

text \<open>C12: A mutation of a write session that is repeated until it is carried out takes effect exactly:
  however often and wherever its earlier attempts were interrupted by failing system calls, an
  attempt without failures succeeds, reports the planned size, and leaves the session with the
  content the mutation gives on the original content.\<close>

theorem mount_mutation_completes:
  assumes "sparse_laws L" and "uuid_laws L" and "validate_chunk_size c = Ok ()"
    and "cow_session L root session c d s" and "recovery_ready L root session s"
    and "st_write_session_id r = session" and "mutation_ok operation start len bs"
    and "op_fits c d (cow_op_of operation start len bs)" and "length d \<le> c * MAX_CHUNK_COUNT"
  shows "\<exists>w s'.
    retry (mutate_range_blocking L root session operation_id c r operation start len bs
        (length (flat_op (cow_op_of operation start len bs) d)) init_id) attempts s = (Ok w, s')
    \<and> cow_session L root session c (flat_op (cow_op_of operation start len bs) d) s'
    \<and> logical_size w = length (flat_op (cow_op_of operation start len bs) d)"
proof -
  let ?a = "cow_op_of operation start len bs"
  have fits: "length (flat_op ?a d) \<le> c * MAX_CHUNK_COUNT"
    using assms(7,8,9) by (cases operation) (auto simp: flat_op_length mutation_ok_def simp del: flat_op.simps)
  have "\<exists>w s'. retry (mutate_range_blocking L root session operation_id c r operation start len bs
        (length (flat_op ?a d)) init_id) attempts s = (Ok w, s')
    \<and> (session_state L root session s {} (chunk_map c (flat_op ?a d)) s' \<and> logical_size w = length (flat_op ?a d))"
    by (rule retry_succeeds [OF wp_mutate_range_blocking [OF assms(1,2,3,5-8) _ refl fits]
      session_in_progress [OF assms(4,9)]])
  then show ?thesis
    using session_state_self(1) unfolding cow_session_def by blast
qed

theorem mount_mutation_completes_witness:
  "\<exists>w s'.
    retry (mutate_range_blocking exact_lib sample_root 7 9 65536 sample_record MountWriteRangeOperation.WriteData
        65530 8 ''filebelt'' (length (flat_op (WriteOp 65530 ''filebelt'') [])) 11)
      [[None, None, Some 0], [Some 3]] sample_fs = (Ok w, s')
    \<and> cow_session exact_lib sample_root 7 65536 (flat_op (WriteOp 65530 ''filebelt'') []) s'
    \<and> logical_size w = length (flat_op (WriteOp 65530 ''filebelt'') [])"
proof -
  have "st_write_session_id sample_record = 7" by (simp add: sample_record_def Let_def)
  moreover have "mutation_ok MountWriteRangeOperation.WriteData 65530 8 ''filebelt''"
    by (simp add: mutation_ok_def)
  moreover have "op_fits 65536 [] (cow_op_of MountWriteRangeOperation.WriteData 65530 8 ''filebelt'')"
    by (simp add: MAX_CHUNK_COUNT_def)
  ultimately show ?thesis
    using mount_mutation_completes [OF exact_lib_sparse exact_lib_uuid sample_chunk_size sample_session sample_ready,
        of sample_record MountWriteRangeOperation.WriteData 65530 8 "''filebelt''" 9 11 "[[None, None, Some 0], [Some 3]]"]
    by (simp del: flat_op.simps)
qed

section \<open>Safety\<close>

text \<open>
  What the signed capability, the body and the database's admission agree on for one call of the
  storage step.
\<close>

definition authorized_call ::
  "worker_lib \<Rightarrow> u64 option \<Rightarrow> AppState \<Rightarrow> HeaderMap \<Rightarrow> bytes option list \<Rightarrow> MountStorageCapabilityUse
     \<Rightarrow> MountWriteRangeOperation \<Rightarrow> range_call \<Rightarrow> bool" where
  "authorized_call W seconds state headers body purpose operation x \<longleftrightarrow>
     (\<exists>wire now ks v n.
        mount_capability_wire W headers = Some wire \<and> unix_time_now seconds = Ok now
        \<and> mount_storage_keys state = Some ks
        \<and> verify_mount_storage_capability (caps W) wire ks CAPABILITY_AUDIENCE purpose now = Ok v
        \<and> cap_uuid_parse (caps W) (mnt_tenant_id (verified_claims v)) = Some (app_tenant_id state)
        \<and> cap_uuid_parse (caps W) (mnt_write_session_id (verified_claims v)) = Some (call_session x)
        \<and> call_start x = unat (mnt_range_start (verified_claims v))
        \<and> call_start x + call_len x = unat (mnt_range_end (verified_claims v)) + 1
        \<and> call_len x \<le> MAX_MOUNT_WRITE_BYTES
        \<and> call_operation x = operation \<and> call_operation_id x \<noteq> 0
        \<and> (if operation = MountWriteRangeOperation.WriteData
           then list_all (\<lambda>b. b \<noteq> None) body \<and> call_bytes x = concat (map the body)
             \<and> length (call_bytes x) = call_len x
             \<and> blake3_hash (caps W) (call_bytes x) = mnt_content_blake3 (verified_claims v)
           else call_bytes x = [])
        \<and> st_write_session_id (call_record x) = call_session x
        \<and> pay_tenant_id (st_staging_payload (call_record x)) = app_tenant_id state
        \<and> pay_backend_id (st_staging_payload (call_record x)) = app_backend_id state
        \<and> sint (st_reserved_bytes (call_record x)) = int n
        \<and> plan_tiles (chunk_size state) n (st_planned_chunks (call_record x))
        \<and> call_start x + call_len x \<le> n \<and> call_expected x \<le> n
        \<and> sint (st_logical_size_bytes (call_record x)) = int (call_expected x))"

lemma h_then_cong:
  "(\<And>x st st'. m st = (Ok x, st') \<Longrightarrow> f x = g x) \<Longrightarrow> h_then m f = h_then m g"
  by (auto simp: h_then_def fun_eq_iff split: prod.splits result.splits)

lemma admitted_range_Ok:
  "admitted_range state D authorized i operation rs re st = (Ok admission, st') \<Longrightarrow>
   validate_mount_range_admission state authorized admission operation rs re = Ok ()"
  by (auto simp: admitted_range_def h_then_def h_result_def split: prod.splits result.splits)

lemma mutate_under_lock_cong:
  assumes "\<And>admission expected.
      validate_mount_range_admission state authorized admission operation rs re = Ok () \<Longrightarrow>
      u64_try_from (adm_resulting_logical_size admission) = Some expected \<Longrightarrow>
      step \<lparr>call_session = session, call_operation_id = adm_operation_id admission,
            call_record = adm_storage admission, call_operation = operation,
            call_start = unat (mnt_range_start (mw_claims authorized)), call_len = len,
            call_bytes = bs, call_expected = expected\<rparr>
      = step' \<lparr>call_session = session, call_operation_id = adm_operation_id admission,
            call_record = adm_storage admission, call_operation = operation,
            call_start = unat (mnt_range_start (mw_claims authorized)), call_len = len,
            call_bytes = bs, call_expected = expected\<rparr>"
  shows "mutate_under_lock step state D authorized request session operation rs re len bs initial
    = mutate_under_lock step' state D authorized request session operation rs re len bs initial"
proof -
  have expected: "u64_try_from v = Some e" if "h_result (ok_or (u64_try_from v) err) st = (Ok e, st')"
    for v :: i64 and e err and st st' :: "'a \<times> world"
    using that by (cases "u64_try_from v") (auto simp: h_result_def)
  show ?thesis
    unfolding mutate_under_lock_def
    by (intro h_then_cong) (auto split: MountIoAdmission.splits intro!: h_then_cong dest!: admitted_range_Ok expected
        simp: assms)
qed

lemma parse_required_mount_uuid_Ok:
  "parse_required_mount_uuid W t = Ok u \<Longrightarrow> cap_uuid_parse (caps W) t = Some u"
  by (auto simp: parse_required_mount_uuid_def parse_required_uuid_def result_simps split: if_splits)

lemma authorize_mount_write_Ok:
  assumes "authorize_mount_write W seconds state headers purpose = Ok au"
  obtains wire now ks v where "mount_capability_wire W headers = Some wire" "unix_time_now seconds = Ok now"
    "mount_storage_keys state = Some ks"
    "verify_mount_storage_capability (caps W) wire ks CAPABILITY_AUDIENCE purpose now = Ok v"
    "mw_claims au = verified_claims v"
    "cap_uuid_parse (caps W) (mnt_tenant_id (verified_claims v)) = Some (app_tenant_id state)"
    "wf_tenant_id (mw_fence au) = app_tenant_id state"
    "cap_uuid_parse (caps W) (mnt_write_session_id (verified_claims v)) = Some (wf_write_session_id (mw_fence au))"
proof -
  obtain wire now ks v fence where w: "mount_capability_wire W headers = Some wire" "unix_time_now seconds = Ok now"
    "mount_storage_keys state = Some ks"
    "verify_mount_storage_capability (caps W) wire ks CAPABILITY_AUDIENCE purpose now = Ok v"
    "parse_required_mount_uuid W (mnt_tenant_id (verified_claims v)) = Ok (app_tenant_id state)"
    "mount_write_fence W (app_tenant_id state) (verified_claims v) = Ok fence"
    "au = \<lparr>mw_claims = verified_claims v, mw_fence = fence\<rparr>"
    using assms by (auto simp: authorize_mount_write_def result_simps Let_def split: if_splits)
  have "wf_tenant_id fence = app_tenant_id state"
    "parse_required_mount_uuid W (mnt_write_session_id (verified_claims v)) = Ok (wf_write_session_id fence)"
    using w(6) by (auto simp: mount_write_fence_def result_simps)
  with w show thesis
    by (intro that) (auto dest: parse_required_mount_uuid_Ok)
qed

lemma mount_claim_range_length_Ok:
  "mount_claim_range_length claims = Ok len \<Longrightarrow>
   unat (mnt_range_start claims) + len = unat (mnt_range_end claims) + 1"
  by (auto simp: mount_claim_range_length_def result_simps bind_eq_Some_conv checked_sub_Some checked_add_Some
      word_le_nat_alt)

lemma read_body_chunks_Ok:
  "read_body_chunks n body acc = Ok bs \<Longrightarrow>
   list_all (\<lambda>b. b \<noteq> None) body \<and> bs = acc @ concat (map the body) \<and> length bs = n"
  by (induction n body acc rule: read_body_chunks.induct) (auto simp: result_simps split: if_splits)

lemma read_range_body_Ok:
  assumes "read_range_body W claims operation body len = Ok bs"
  shows "if operation = MountWriteRangeOperation.WriteData
     then list_all (\<lambda>b. b \<noteq> None) body \<and> bs = concat (map the body) \<and> length bs = len
       \<and> blake3_hash (caps W) bs = mnt_content_blake3 claims
     else bs = []"
  using assms read_body_chunks_Ok [of len body "[]" bs]
  by (auto simp: read_range_body_def read_mount_body_exact_def validate_mount_write_body_digest_def
      claims_content_digest_def result_simps split: if_splits)

lemma chunk_plan_size_limit:
  assumes "validate_mount_chunk_plan r c e = Ok ()" and "0 \<le> sint e" shows "0 < c"
proof (rule ccontr)
  assume "\<not> 0 < c"
  obtain total_bytes where loop: "chunk_plan_loop r c (length (st_planned_chunks r)) 0 (st_planned_chunks r) {} 0 = Ok total_bytes"
    and e: "total_bytes = st_reserved_bytes r" "sint e < sint (st_reserved_bytes r)"
    using assms(1) by (auto simp: validate_mount_chunk_plan_def result_simps not_le split: if_splits)
  have "st_planned_chunks r = []"
    using chunk_plan_loop_Ok [OF loop] \<open>\<not> 0 < c\<close> by (cases "st_planned_chunks r") force+
  with loop e assms(2) show False by simp
qed

lemma i64_from_u64_Some: "i64_from_u64 v = Some w \<Longrightarrow> sint w = int (unat v)"
proof -
  assume "i64_from_u64 v = Some w"
  then have w: "w = v" "unat v < 2 ^ 63" by (auto simp: i64_from_u64_def split: if_splits)
  then have "int (unat v) < 2 ^ 63" by (simp only: of_nat_less_numeral_power_cancel_iff)
  moreover have "- (2 ^ 63) \<le> uint v" by (rule order_trans [OF _ uint_ge_0]) simp
  ultimately show ?thesis
    unfolding w(1) using sint_word_of_int_range [of "uint v"] by simp
qed

lemma validate_mount_range_admission_Ok:
  assumes "validate_mount_range_admission state au admission operation rs re = Ok ()"
    and "u64_try_from (adm_resulting_logical_size admission) = Some expected"
  obtains n where "adm_operation_id admission \<noteq> 0"
    "st_write_session_id (adm_storage admission) = wf_write_session_id (mw_fence au)"
    "pay_tenant_id (st_staging_payload (adm_storage admission)) = wf_tenant_id (mw_fence au)"
    "pay_backend_id (st_staging_payload (adm_storage admission)) = app_backend_id state"
    "sint (st_reserved_bytes (adm_storage admission)) = int n"
    "plan_tiles (chunk_size state) n (st_planned_chunks (adm_storage admission))"
    "unat (mnt_range_end (mw_claims au)) < n" "expected \<le> n"
    "sint (st_logical_size_bytes (adm_storage admission)) = int expected"
proof -
  have rec: "validate_mount_storage_record state au (adm_storage admission) = Ok ()"
    and adm: "adm_operation_id admission \<noteq> 0" "i64_from_u64 (mnt_range_end (mw_claims au)) = Some re"
      "0 \<le> sint re" "sint (adm_resulting_logical_size admission) \<le> sint (st_reserved_bytes (adm_storage admission))"
      "adm_resulting_logical_size admission = st_logical_size_bytes (adm_storage admission)"
    and plan: "validate_mount_chunk_plan (adm_storage admission) (chunk_size state) re = Ok ()"
    using assms(1) by (auto simp: validate_mount_range_admission_def result_simps split: if_splits)
  have c: "0 < chunk_size state" by (rule chunk_plan_size_limit [OF plan adm(3)])
  obtain n where n: "sint (st_reserved_bytes (adm_storage admission)) = int n"
      "plan_tiles (chunk_size state) n (st_planned_chunks (adm_storage admission))" "sint re < int n"
    using validate_mount_chunk_plan_tiles [OF plan c] by blast
  have "unat (mnt_range_end (mw_claims au)) < n" using n(3) unfolding i64_from_u64_Some [OF adm(2)] by (simp only: of_nat_less_iff)
  moreover have "sint (adm_resulting_logical_size admission) = int expected"
    using assms(2) by (simp only: u64_try_from_Some)
  then have "expected \<le> n" "sint (st_logical_size_bytes (adm_storage admission)) = int expected"
    using adm(4,5) n(1) by simp_all
  ultimately show thesis
    using that [of n] adm(1) n(1,2) rec
    by (auto simp: validate_mount_storage_record_def Let_def split: if_splits)
qed

lemma granted_call:
  assumes "authorize_mount_write W seconds state headers purpose = Ok au"
    and "mount_claim_range_length (mw_claims au) = Ok len" and "len \<le> MAX_MOUNT_WRITE_BYTES"
    and "read_range_body W (mw_claims au) operation body len = Ok bs"
    and "validate_mount_range_admission state au admission operation rs re = Ok ()"
    and "u64_try_from (adm_resulting_logical_size admission) = Some expected"
  shows "authorized_call W seconds state headers body purpose operation
    \<lparr>call_session = wf_write_session_id (mw_fence au), call_operation_id = adm_operation_id admission,
      call_record = adm_storage admission, call_operation = operation,
      call_start = unat (mnt_range_start (mw_claims au)), call_len = len,
      call_bytes = bs, call_expected = expected\<rparr>"
proof -
  obtain wire now ks v where a: "mount_capability_wire W headers = Some wire" "unix_time_now seconds = Ok now"
    "mount_storage_keys state = Some ks"
    "verify_mount_storage_capability (caps W) wire ks CAPABILITY_AUDIENCE purpose now = Ok v"
    "mw_claims au = verified_claims v"
    "cap_uuid_parse (caps W) (mnt_tenant_id (verified_claims v)) = Some (app_tenant_id state)"
    "wf_tenant_id (mw_fence au) = app_tenant_id state"
    "cap_uuid_parse (caps W) (mnt_write_session_id (verified_claims v)) = Some (wf_write_session_id (mw_fence au))"
    using authorize_mount_write_Ok [OF assms(1)] .
  obtain n where n: "adm_operation_id admission \<noteq> 0"
    "st_write_session_id (adm_storage admission) = wf_write_session_id (mw_fence au)"
    "pay_tenant_id (st_staging_payload (adm_storage admission)) = wf_tenant_id (mw_fence au)"
    "pay_backend_id (st_staging_payload (adm_storage admission)) = app_backend_id state"
    "sint (st_reserved_bytes (adm_storage admission)) = int n"
    "plan_tiles (chunk_size state) n (st_planned_chunks (adm_storage admission))"
    "unat (mnt_range_end (mw_claims au)) < n" "expected \<le> n"
    "sint (st_logical_size_bytes (adm_storage admission)) = int expected"
    using validate_mount_range_admission_Ok [OF assms(5,6)] .
  show ?thesis
    unfolding authorized_call_def
    by (intro exI [of _ wire] exI [of _ now] exI [of _ ks] exI [of _ v] exI [of _ n])
      (cases "operation = MountWriteRangeOperation.WriteData";
        use a n assms(3) mount_claim_range_length_Ok [OF assms(2)] read_range_body_Ok [OF assms(4)] in auto)
qed

text \<open>C3: The worker touches the storage of a mount write session only for an authorized call. Whatever
  the database, the lock and the other processes do, handing the mutation handler a storage step
  that refuses every call which is not authorized changes nothing: each call carries a capability
  verified for this worker, use and second, of this tenant and session; its range is the signed
  range, at most one mebibyte; its bytes are the request body and have the signed digest; and the
  database's plan covers the range with exactly the chunks of the reserved size.\<close>

theorem mount_storage_step_authorized:
  "mutate_mount_range_with (\<lambda>x. if authorized_call W seconds state headers body purpose operation x
       then step x else fail UnsafeObject) W seconds state D session_text headers body purpose operation io_op
   = mutate_mount_range_with step W seconds state D session_text headers body purpose operation io_op"
    (is "mutate_mount_range_with ?guarded _ _ _ _ _ _ _ _ _ _ = _")
proof -
  have ok: "r = Ok x" if "h_result r st = (Ok x, st')" for r :: "('x, AppError) result" and x and st st' :: "'a \<times> world"
    using that by (simp add: h_result_def)
  have lock: "mutate_under_lock ?guarded state D au request (wf_write_session_id (mw_fence au)) operation rs re len bs initial
      = mutate_under_lock step state D au request (wf_write_session_id (mw_fence au)) operation rs re len bs initial"
    if "authorize_mount_write W seconds state headers purpose = Ok au"
      "mount_claim_range_length (mw_claims au) = Ok len" "len \<le> MAX_MOUNT_WRITE_BYTES"
      "read_range_body W (mw_claims au) operation body len = Ok bs" for au request len bs rs re initial
    using granted_call [OF that] by (intro mutate_under_lock_cong) simp
  have admitted: "mutate_admitted ?guarded state D au request (wf_write_session_id (mw_fence au)) operation rs re len bs initial
      = mutate_admitted step state D au request (wf_write_session_id (mw_fence au)) operation rs re len bs initial"
    if "authorize_mount_write W seconds state headers purpose = Ok au"
      "mount_claim_range_length (mw_claims au) = Ok len" "len \<le> MAX_MOUNT_WRITE_BYTES"
      "read_range_body W (mw_claims au) operation body len = Ok bs" for au request len bs rs re initial
    unfolding mutate_admitted_def lock [OF that] by (rule refl)
  show ?thesis
    unfolding mutate_mount_range_with_def
    by (intro h_then_cong if_cong refl)
      (auto intro!: h_then_cong admitted dest!: ok split: MountIoLookup.splits)
qed

end
