(* ===== verification/Mount_Sessions.thy ===== *)
theory Mount_Sessions
  imports Mount_Guarantees
begin

text \<open>
  The remaining handlers of a mount write session (\<open>seek_mount_range\<close>, \<open>flush_mount_write\<close>,
  \<open>finalize_mount_write\<close>, \<open>abort_mount_write\<close>, \<open>delete_mount_staging\<close> of
  \<open>source/apps/filebelt-worker-io/src/main.rs\<close>) and the cleanup they end in: the recovery of an
  expired operation, the deletion of staged bytes under a database lease, and the removal of the
  session lock. The database calls extend the environment of the mutation handlers.
\<close>

section \<open>Cleanup\<close>

record 'e session_env = "'e mount_env" +
  complete_mount_io_flush ::
    "BeginMountIoOperationInput \<Rightarrow> i64 \<Rightarrow> bytes \<Rightarrow> MountWriteChunkEvidence list \<Rightarrow> 'e \<times> world
       \<Rightarrow> (MountIoCompletion, DatabaseError) result \<times> ('e \<times> world)"
  complete_mount_io_finalize ::
    "BeginMountIoOperationInput \<Rightarrow> i64 \<Rightarrow> bytes \<Rightarrow> MountWriteChunkEvidence list \<Rightarrow> 'e \<times> world
       \<Rightarrow> (MountIoCompletion, DatabaseError) result \<times> ('e \<times> world)"
  complete_mount_io_abort ::
    "BeginMountIoOperationInput \<Rightarrow> 'e \<times> world \<Rightarrow> (MountIoCompletion, DatabaseError) result \<times> ('e \<times> world)"
  claim_mount_staging_cleanup ::
    "uuid \<Rightarrow> uuid \<Rightarrow> uuid \<Rightarrow> uuid \<Rightarrow> 'e \<times> world
       \<Rightarrow> (MountStagingCleanupJobRecord, DatabaseError) result \<times> ('e \<times> world)"
  heartbeat_mount_staging_cleanup ::
    "MountStagingCleanupJobRecord \<Rightarrow> 'e \<times> world \<Rightarrow> (unit, DatabaseError) result \<times> ('e \<times> world)"
  mark_mount_staging_cleanup_physical_deleted ::
    "MountStagingCleanupJobRecord \<Rightarrow> 'e \<times> world \<Rightarrow> (unit, DatabaseError) result \<times> ('e \<times> world)"
  complete_mount_staging_cleanup ::
    "MountStagingCleanupJobRecord \<Rightarrow> 'e \<times> world \<Rightarrow> (unit, DatabaseError) result \<times> ('e \<times> world)"
  claim_mount_write_lock_cleanup ::
    "uuid \<Rightarrow> uuid \<Rightarrow> uuid \<Rightarrow> uuid \<Rightarrow> 'e \<times> world
       \<Rightarrow> (MountWriteLockCleanupJobRecord, DatabaseError) result \<times> ('e \<times> world)"
  heartbeat_mount_write_lock_cleanup ::
    "MountWriteLockCleanupJobRecord \<Rightarrow> 'e \<times> world \<Rightarrow> (unit, DatabaseError) result \<times> ('e \<times> world)"
  complete_mount_write_lock_cleanup ::
    "MountWriteLockCleanupJobRecord \<Rightarrow> 'e \<times> world \<Rightarrow> (unit, DatabaseError) result \<times> ('e \<times> world)"
  remove_cow_lock :: "uuid \<Rightarrow> 'e \<times> world \<Rightarrow> (unit, StorageError) result \<times> ('e \<times> world)"
  cleanup_ticks :: "'e \<times> world \<Rightarrow> nat"

definition remove_mount_cow_lock :: "('e, 'z) session_env_scheme \<Rightarrow> uuid \<Rightarrow> ('e, unit) handler" where
  "remove_mount_cow_lock S session st =
     (case remove_cow_lock S session st of (r, st') \<Rightarrow> (map_err storage_error r, st'))"

text \<open>The heartbeats that fire while the deletion runs stop at the first that fails.\<close>

fun heartbeats :: "('e, 'z) session_env_scheme \<Rightarrow> MountStagingCleanupJobRecord \<Rightarrow> nat \<Rightarrow> ('e, unit) handler" where
  "heartbeats S job 0 = h_result (Ok ())"
| "heartbeats S job (Suc n) =
     h_then (h_db (heartbeat_mount_staging_cleanup S job)) (\<lambda>_. heartbeats S job n)"

text \<open>
  The blocking deletion is not cancelled: it runs to its end also when a heartbeat failed, and
  then the error of the heartbeat is returned. How many ticks come before it ends is up to the
  environment; the deletion takes effect after the last of them.
\<close>

definition delete_with_heartbeats ::
  "(MountStagingCleanupJobRecord \<Rightarrow> unit io) \<Rightarrow> ('e, 'z) session_env_scheme \<Rightarrow> MountStagingCleanupJobRecord
     \<Rightarrow> ('e, unit) handler" where
  "delete_with_heartbeats deletion S job st =
     (case heartbeats S job (cleanup_ticks S st) st of
        (beat, st') \<Rightarrow>
          (case h_blocking (deletion job) st' of
             (deleted, st'') \<Rightarrow> (case beat of Err e \<Rightarrow> (Err e, st'') | Ok _ \<Rightarrow> (deleted, st''))))"

definition cleanup_mount_staging_job ::
  "(MountStagingCleanupJobRecord \<Rightarrow> unit io) \<Rightarrow> ('e, 'z) session_env_scheme \<Rightarrow> MountStagingCleanupJobRecord
     \<Rightarrow> ('e, unit) handler" where
  "cleanup_mount_staging_job deletion S job =
     h_then (holding_cow_lock (mount_env.truncate S) (job_write_session_id job)
       (h_then (h_db (heartbeat_mount_staging_cleanup S job)) (\<lambda>_.
        h_then (delete_with_heartbeats deletion S job) (\<lambda>_.
        h_then (h_db (heartbeat_mount_staging_cleanup S job)) (\<lambda>_.
        h_then (h_db (mark_mount_staging_cleanup_physical_deleted S job)) (\<lambda>_.
        remove_mount_cow_lock S (job_write_session_id job))))))) (\<lambda>_.
     h_db (complete_mount_staging_cleanup S job))"

definition delete_staged :: "storage_lib \<Rightarrow> StorageLayout \<Rightarrow> MountStagingCleanupJobRecord \<Rightarrow> unit io" where
  "delete_staged L root job = delete_cow_staging L root (job_write_session_id job) (job_payload job)"

text \<open>Claiming a deletion: the lease must be for this session, worker and payload.\<close>

definition leased_cleanup ::
  "(MountStagingCleanupJobRecord \<Rightarrow> unit io) \<Rightarrow> AppState \<Rightarrow> ('e, 'z) session_env_scheme \<Rightarrow> uuid \<Rightarrow> uuid \<Rightarrow> PayloadRecord
     \<Rightarrow> bytes \<Rightarrow> string \<Rightarrow> ('e, unit) handler" where
  "leased_cleanup deletion state S tenant session payload nonce kind =
     h_then (h_db (claim_mount_staging_cleanup S tenant (pay_backend_id payload) session (worker_id state))) (\<lambda>job.
     h_then (h_result (validate_mount_cleanup_job
       \<lparr>exp_backend_id = app_backend_id state, exp_worker_id = worker_id state, exp_tenant_id = tenant,
        exp_write_session_id = session, exp_payload = payload, exp_source_nonce_digest = Some nonce,
        exp_completion_kind = kind\<rparr> job)) (\<lambda>_.
     cleanup_mount_staging_job deletion S job))"

definition recover_expired ::
  "(MountStagingCleanupJobRecord \<Rightarrow> unit io) \<Rightarrow> AppState \<Rightarrow> ('e, 'z) session_env_scheme \<Rightarrow> AuthorizedMountWrite
     \<Rightarrow> MountIoCleanupRecord \<Rightarrow> ('e, unit) handler" where
  "recover_expired deletion state S authorized cleanup =
     (let fence = mw_fence authorized in
      if mio_tenant_id cleanup \<noteq> wf_tenant_id fence
         \<or> mio_write_session_id cleanup \<noteq> wf_write_session_id fence
         \<or> mio_fencing_token cleanup \<noteq> wf_fencing_token fence
      then h_result (Err Forbidden)
      else
        h_then (h_result (validate_mount_storage_record state authorized (mio_storage cleanup))) (\<lambda>_.
        leased_cleanup deletion state S (mio_tenant_id cleanup) (mio_write_session_id cleanup)
          (st_staging_payload (mio_storage cleanup)) (mio_nonce_digest cleanup) ''cleanup''))"

definition recovered ::
  "(MountStagingCleanupJobRecord \<Rightarrow> unit io) \<Rightarrow> AppState \<Rightarrow> ('e, 'z) session_env_scheme \<Rightarrow> AuthorizedMountWrite
     \<Rightarrow> MountIoCleanupRecord \<Rightarrow> ('e, 'a) handler" where
  "recovered deletion state S authorized cleanup =
     h_then (recover_expired deletion state S authorized cleanup) (\<lambda>_.
     h_result (Err (AppError.Conflict ''mount_io_recovered'')))"

text \<open>
  \<open>cleanup_mount_write_lock\<close> up to the removal of the lock; a leased job is recorded as complete
  after the lock is gone.
\<close>

definition lock_cleanup_held ::
  "AppState \<Rightarrow> ('e, 'z) session_env_scheme \<Rightarrow> uuid \<Rightarrow> uuid \<Rightarrow> uuid option \<Rightarrow> ('e, MountWriteLockCleanupJobRecord) handler" where
  "lock_cleanup_held state S tenant session expected_payload =
     h_then (h_db (claim_mount_write_lock_cleanup S tenant (app_backend_id state) session (worker_id state))) (\<lambda>job.
     h_then (h_result (validate_mount_write_lock_cleanup_job (app_backend_id state) (worker_id state) tenant
       session expected_payload job)) (\<lambda>_.
     h_then (if lockjob_state job = ''leased'' then h_db (heartbeat_mount_write_lock_cleanup S job)
             else h_result (Ok ())) (\<lambda>_.
     h_then (remove_mount_cow_lock S session) (\<lambda>_.
     h_result (Ok job)))))"

section \<open>Handlers\<close>

text \<open>What every handler does with its request before it asks the database.\<close>

definition session_request ::
  "worker_lib \<Rightarrow> u64 option \<Rightarrow> AppState \<Rightarrow> string \<Rightarrow> HeaderMap \<Rightarrow> MountStorageCapabilityUse \<Rightarrow> MountIoOperation
     \<Rightarrow> (uuid \<times> AuthorizedMountWrite \<times> MountIoRequest, AppError) result" where
  "session_request W seconds state session_text headers purpose io_op =
     and_then (ok_or (cap_uuid_parse (caps W) session_text) (BadRequest ''invalid_write_session_id'')) (\<lambda>session.
     and_then (authorize_mount_write W seconds state headers purpose) (\<lambda>authorized.
     if wf_write_session_id (mw_fence authorized) \<noteq> session then Err Forbidden
     else
       and_then (mount_io_request_from_claims W (mw_claims authorized) io_op) (\<lambda>request.
       Ok (session, authorized, request))))"

text \<open>
  Flush, finalize and abort begin their operation, wait for the session lock, and begin it
  again: only an operation that is still to be executed after the wait touches the storage.
\<close>

definition locked_session_operation ::
  "(MountStagingCleanupJobRecord \<Rightarrow> unit io) \<Rightarrow> AppState \<Rightarrow> ('e, 'z) session_env_scheme \<Rightarrow> uuid \<Rightarrow> AuthorizedMountWrite
     \<Rightarrow> MountIoRequest \<Rightarrow> (MountIoCompletion \<Rightarrow> ('e, 'a) handler)
     \<Rightarrow> (MountWriteStorageRecord \<Rightarrow> MountIoCompletion \<Rightarrow> ('e, 'o) handler)
     \<Rightarrow> (MountWriteStorageRecord \<Rightarrow> ('e, 'o) handler) \<Rightarrow> ('o \<Rightarrow> ('e, 'a) handler) \<Rightarrow> ('e, 'a) handler" where
  "locked_session_operation deletion state S session authorized request replay locked_replay step finish =
     h_then (h_db (begin_mount_io_operation S (mount_io_request_input request authorized))) (\<lambda>answer.
     case answer of
       Completed completion \<Rightarrow> replay completion
     | CleanupRequired cleanup \<Rightarrow> recovered deletion state S authorized cleanup
     | Execute r \<Rightarrow>
         h_then (h_result (validate_mount_storage_record state authorized r)) (\<lambda>_.
         h_then (holding_cow_lock (mount_env.truncate S) session
           (h_then (h_db (begin_mount_io_operation S (mount_io_request_input request authorized))) (\<lambda>answer.
            case answer of
              Completed completion \<Rightarrow> h_then (locked_replay r completion) (\<lambda>out. h_result (Ok (Inl out)))
            | CleanupRequired cleanup \<Rightarrow> h_result (Ok (Inr cleanup))
            | Execute r' \<Rightarrow>
                h_then (h_result (validate_mount_storage_record state authorized r')) (\<lambda>_.
                h_then (step r') (\<lambda>out. h_result (Ok (Inl out))))))) (\<lambda>outcome.
         case outcome of
           Inl out \<Rightarrow> finish out
         | Inr cleanup \<Rightarrow> recovered deletion state S authorized cleanup)))"

definition flush_mount_write ::
  "storage_lib \<Rightarrow> uuid \<Rightarrow> worker_lib \<Rightarrow> u64 option \<Rightarrow> AppState \<Rightarrow> ('e, 'z) session_env_scheme \<Rightarrow> string \<Rightarrow> HeaderMap
     \<Rightarrow> ('e, MountManifestResult) handler" where
  "flush_mount_write L init_id W seconds state S session_text headers =
     h_then (h_result (session_request W seconds state session_text headers
       MountStorageCapabilityUse.Flush MountIoOperation.Flush)) (\<lambda>(session, authorized, request).
     locked_session_operation (delete_staged L (storage state)) state S session authorized request
       (\<lambda>completion. h_result (completed_mount_manifest_result session completion False))
       (\<lambda>_ completion. h_result (Ok completion))
       (\<lambda>r.
          h_then (h_blocking (flush_blocking L (storage state) session (chunk_size state) r init_id)) (\<lambda>manifest.
          h_then (h_result (mount_chunk_evidence manifest)) (\<lambda>evidence.
          h_then (h_result (ok_or (i64_try_from (man_logical_size manifest))
            (AppError.Conflict ''mount_write_too_large''))) (\<lambda>logical_size_bytes.
          h_db (complete_mount_io_flush S (mount_io_request_input request authorized) logical_size_bytes
            (man_digest manifest) evidence)))))
       (\<lambda>completion. h_result (completed_mount_manifest_result session completion False)))"

definition finalize_mount_write ::
  "storage_lib \<Rightarrow> uuid \<Rightarrow> worker_lib \<Rightarrow> u64 option \<Rightarrow> AppState \<Rightarrow> ('e, 'z) session_env_scheme \<Rightarrow> string \<Rightarrow> HeaderMap
     \<Rightarrow> ('e, MountManifestResult) handler" where
  "finalize_mount_write L init_id W seconds state S session_text headers =
     h_then (h_result (session_request W seconds state session_text headers
       MountStorageCapabilityUse.Finalize MountIoOperation.Finalize)) (\<lambda>(session, authorized, request).
     let tenant = wf_tenant_id (mw_fence authorized);
         finish = (\<lambda>(completion, job).
           h_then (if lockjob_state job = ''leased'' then h_db (complete_mount_write_lock_cleanup S job)
                   else h_result (Ok ())) (\<lambda>_.
           h_result (completed_mount_manifest_result session completion True))) in
     locked_session_operation (delete_staged L (storage state)) state S session authorized request
       (\<lambda>completion.
          h_then (holding_cow_lock (mount_env.truncate S) session (lock_cleanup_held state S tenant session None)) (\<lambda>job.
          finish (completion, job)))
       (\<lambda>r completion.
          h_then (lock_cleanup_held state S tenant session (Some (pay_payload_id (st_staging_payload r)))) (\<lambda>job.
          h_result (Ok (completion, job))))
       (\<lambda>r.
          h_then (h_result (ok_or (u64_try_from (st_logical_size_bytes r))
            (AppError.Conflict ''mount_write_size_invalid''))) (\<lambda>log_size.
          h_then (h_blocking (finalize_blocking L (storage state) session (chunk_size state) r
            (st_staging_payload r) log_size init_id)) (\<lambda>manifest.
          h_then (h_result (mount_chunk_evidence manifest)) (\<lambda>evidence.
          h_then (h_result (ok_or (i64_try_from (man_logical_size manifest))
            (AppError.Conflict ''mount_write_too_large''))) (\<lambda>logical_size_bytes.
          h_then (h_db (complete_mount_io_finalize S (mount_io_request_input request authorized) logical_size_bytes
            (man_digest manifest) evidence)) (\<lambda>completion.
          h_then (lock_cleanup_held state S tenant session (Some (pay_payload_id (st_staging_payload r)))) (\<lambda>job.
          h_result (Ok (completion, job)))))))))
       finish)"

definition abort_mount_write ::
  "storage_lib \<Rightarrow> worker_lib \<Rightarrow> u64 option \<Rightarrow> AppState \<Rightarrow> ('e, 'z) session_env_scheme \<Rightarrow> string \<Rightarrow> HeaderMap
     \<Rightarrow> ('e, uuid \<times> string) handler" where
  "abort_mount_write L W seconds state S session_text headers =
     h_then (h_result (session_request W seconds state session_text headers
       MountStorageCapabilityUse.Abort MountIoOperation.Abort)) (\<lambda>(session, authorized, request).
     locked_session_operation (delete_staged L (storage state)) state S session authorized request
       (\<lambda>completion. h_result (completed_mount_staging_result session completion False))
       (\<lambda>_ completion. h_result (Ok completion))
       (\<lambda>r.
          h_then (h_blocking (abort_cow L (storage state) session)) (\<lambda>_.
          h_then (h_db (complete_mount_io_abort S (mount_io_request_input request authorized))) (\<lambda>completion.
          h_then (remove_mount_cow_lock S session) (\<lambda>_.
          h_result (Ok completion)))))
       (\<lambda>completion. h_result (completed_mount_staging_result session completion False)))"

text \<open>The deletion is a parameter, so that what the handler hands to it can be stated.\<close>

definition delete_mount_staging_with ::
  "(MountStagingCleanupJobRecord \<Rightarrow> unit io) \<Rightarrow> worker_lib \<Rightarrow> u64 option \<Rightarrow> AppState \<Rightarrow> ('e, 'z) session_env_scheme
     \<Rightarrow> string \<Rightarrow> HeaderMap \<Rightarrow> ('e, uuid \<times> string) handler" where
  "delete_mount_staging_with deletion W seconds state S session_text headers =
     h_then (h_result (session_request W seconds state session_text headers
       MountStorageCapabilityUse.DeleteStaging MountIoOperation.DeleteStaging)) (\<lambda>(session, authorized, request).
     h_then (h_db (begin_mount_io_operation S (mount_io_request_input request authorized))) (\<lambda>answer.
     case answer of
       Completed completion \<Rightarrow> h_result (completed_mount_staging_result session completion True)
     | CleanupRequired cleanup \<Rightarrow> recovered deletion state S authorized cleanup
     | Execute r \<Rightarrow>
         h_then (h_result (validate_mount_storage_record state authorized r)) (\<lambda>_.
         h_then (leased_cleanup deletion state S (wf_tenant_id (mw_fence authorized)) session
           (st_staging_payload r) (req_nonce_digest request) ''delete_staging'') (\<lambda>_.
         h_then (h_db (lookup_mount_io_completion S (mount_io_request_input request authorized))) (\<lambda>found.
         case found of
           LookupCompleted completion \<Rightarrow> h_result (completed_mount_staging_result session completion True)
         | _ \<Rightarrow> h_result (Err Internal))))))"

definition delete_mount_staging ::
  "storage_lib \<Rightarrow> worker_lib \<Rightarrow> u64 option \<Rightarrow> AppState \<Rightarrow> ('e, 'z) session_env_scheme \<Rightarrow> string \<Rightarrow> HeaderMap
     \<Rightarrow> ('e, uuid \<times> string) handler" where
  "delete_mount_staging L W seconds state =
     delete_mount_staging_with (delete_staged L (storage state)) W seconds state"

section \<open>Seeks\<close>

definition seek_under_lock ::
  "storage_lib \<Rightarrow> uuid \<Rightarrow> AppState \<Rightarrow> ('e, 'z) session_env_scheme \<Rightarrow> AuthorizedMountWrite \<Rightarrow> MountIoRequest \<Rightarrow> uuid
     \<Rightarrow> MountWriteRangeOperation \<Rightarrow> i64 \<Rightarrow> MountWriteRangeAdmission \<Rightarrow> ('e, locked_outcome) handler" where
  "seek_under_lock L init_id state S authorized request session operation range_start initial =
     h_then (h_db (begin_mount_io_operation S (mount_io_request_input request authorized))) (\<lambda>answer.
     case answer of
       Completed completion \<Rightarrow> h_result (Ok (LockedCompletion completion))
     | CleanupRequired cleanup \<Rightarrow> h_result (Ok (LockedCleanup cleanup))
     | Execute r \<Rightarrow>
         h_then (h_result (validate_mount_storage_record state authorized r)) (\<lambda>_.
         h_then (admitted_range state (mount_env.truncate S) authorized (req_capability_id request) operation
           range_start range_start) (\<lambda>admission.
         h_then (h_result (validate_mount_range_readmission initial admission)) (\<lambda>_.
         h_then (h_result (ok_or (u64_try_from (adm_resulting_logical_size admission))
           (AppError.Conflict ''mount_write_size_invalid''))) (\<lambda>log_size.
         h_then (h_blocking (seek_range_blocking L (storage state) session (chunk_size state) (adm_storage admission)
           operation log_size (unat (mnt_range_start (mw_claims authorized))) init_id)) (\<lambda>found.
         h_then (h_result (case found of None \<Rightarrow> Ok (SeekDone None)
             | Some offset \<Rightarrow> map_ok (\<lambda>v. SeekDone (Some v)) (ok_or (i64_try_from offset) Internal))) (\<lambda>completion.
         h_then (h_db (complete_mount_io_operation S (mount_io_request_input request authorized) completion)) (\<lambda>recorded.
         h_result (Ok (LockedCompletion recorded))))))))))"

definition seek_admitted ::
  "storage_lib \<Rightarrow> uuid \<Rightarrow> AppState \<Rightarrow> ('e, 'z) session_env_scheme \<Rightarrow> AuthorizedMountWrite \<Rightarrow> MountIoRequest \<Rightarrow> uuid
     \<Rightarrow> MountWriteRangeOperation \<Rightarrow> i64 \<Rightarrow> MountWriteRangeAdmission option \<Rightarrow> ('e, nat option) handler" where
  "seek_admitted L init_id state S authorized request session operation range_start initial =
     h_then (h_db (begin_mount_io_operation S (mount_io_request_input request authorized))) (\<lambda>answer.
     case answer of
       Completed completion \<Rightarrow> h_result (completed_mount_seek_result completion)
     | CleanupRequired cleanup \<Rightarrow> recovered (delete_staged L (storage state)) state S authorized cleanup
     | Execute r \<Rightarrow>
         h_then (h_result (validate_mount_storage_record state authorized r)) (\<lambda>_.
         h_then
           (case initial of
              Some admission \<Rightarrow> h_result (Ok admission)
            | None \<Rightarrow> admitted_range state (mount_env.truncate S) authorized (req_capability_id request) operation
                range_start range_start) (\<lambda>admission.
         h_then (holding_cow_lock (mount_env.truncate S) session
           (seek_under_lock L init_id state S authorized request session operation range_start admission)) (\<lambda>outcome.
         case outcome of
           LockedCompletion completion \<Rightarrow> h_result (completed_mount_seek_result completion)
         | LockedCleanup cleanup \<Rightarrow> recovered (delete_staged L (storage state)) state S authorized cleanup))))"

definition seek_mount_range ::
  "storage_lib \<Rightarrow> uuid \<Rightarrow> worker_lib \<Rightarrow> u64 option \<Rightarrow> AppState \<Rightarrow> ('e, 'z) session_env_scheme \<Rightarrow> string \<Rightarrow> HeaderMap
     \<Rightarrow> bytes option list \<Rightarrow> MountStorageCapabilityUse \<Rightarrow> MountWriteRangeOperation \<Rightarrow> MountIoOperation
     \<Rightarrow> ('e, nat option) handler" where
  "seek_mount_range L init_id W seconds state S session_text headers body purpose operation io_op =
     h_then (h_result (ok_or (cap_uuid_parse (caps W) session_text) (BadRequest ''invalid_write_session_id''))) (\<lambda>session.
     h_then (h_result (authorize_mount_write W seconds state headers purpose)) (\<lambda>authorized.
     if wf_write_session_id (mw_fence authorized) \<noteq> session
        \<or> mnt_range_start (mw_claims authorized) \<noteq> mnt_range_end (mw_claims authorized)
     then h_result (Err Forbidden)
     else
       h_then (h_result (mount_io_request_from_claims W (mw_claims authorized) io_op)) (\<lambda>request.
       h_then (h_result (ok_or (req_range_start request) Forbidden)) (\<lambda>range_start.
       h_then (h_db (lookup_mount_io_completion S (mount_io_request_input request authorized))) (\<lambda>found.
       h_then
         (if found = Absent
          then h_then (admitted_range state (mount_env.truncate S) authorized (req_capability_id request) operation
                 range_start range_start) (\<lambda>admission. h_result (Ok (Some admission)))
          else h_result (Ok None)) (\<lambda>initial.
       h_then (h_result (read_mount_body_exact body 0)) (\<lambda>_.
       case found of
         LookupCompleted completion \<Rightarrow> h_result (completed_mount_seek_result completion)
       | _ \<Rightarrow> seek_admitted L init_id state S authorized request session operation range_start initial)))))))"

definition seek_mount_data ::
  "storage_lib \<Rightarrow> uuid \<Rightarrow> worker_lib \<Rightarrow> u64 option \<Rightarrow> AppState \<Rightarrow> ('e, 'z) session_env_scheme \<Rightarrow> string \<Rightarrow> HeaderMap
     \<Rightarrow> bytes option list \<Rightarrow> ('e, nat option) handler" where
  "seek_mount_data L init_id W seconds state S session_text headers body =
     h_then (h_result (reject_unsigned_mount_mode headers)) (\<lambda>_.
     seek_mount_range L init_id W seconds state S session_text headers body
       MountStorageCapabilityUse.SeekData MountWriteRangeOperation.SeekData MountIoOperation.SeekData)"

definition seek_mount_hole ::
  "storage_lib \<Rightarrow> uuid \<Rightarrow> worker_lib \<Rightarrow> u64 option \<Rightarrow> AppState \<Rightarrow> ('e, 'z) session_env_scheme \<Rightarrow> string \<Rightarrow> HeaderMap
     \<Rightarrow> bytes option list \<Rightarrow> ('e, nat option) handler" where
  "seek_mount_hole L init_id W seconds state S session_text headers body =
     h_then (h_result (reject_unsigned_mount_mode headers)) (\<lambda>_.
     seek_mount_range L init_id W seconds state S session_text headers body
       MountStorageCapabilityUse.SeekHole MountWriteRangeOperation.SeekHole MountIoOperation.SeekHole)"

section \<open>Guarantees\<close>

text \<open>
  A deletion a request may cause: its capability was verified, and the leased job is of the
  tenant, session, drive, backend and worker of the request.
\<close>

definition authorized_deletion ::
  "worker_lib \<Rightarrow> u64 option \<Rightarrow> AppState \<Rightarrow> HeaderMap \<Rightarrow> MountStorageCapabilityUse \<Rightarrow> MountStagingCleanupJobRecord \<Rightarrow> bool" where
  "authorized_deletion W seconds state headers purpose job \<longleftrightarrow>
     (\<exists>authorized. authorize_mount_write W seconds state headers purpose = Ok authorized
        \<and> job_tenant_id job = wf_tenant_id (mw_fence authorized)
        \<and> job_write_session_id job = wf_write_session_id (mw_fence authorized)
        \<and> pay_tenant_id (job_payload job) = wf_tenant_id (mw_fence authorized)
        \<and> pay_drive_id (job_payload job) = wf_drive_id (mw_fence authorized)
        \<and> pay_backend_id (job_payload job) = app_backend_id state
        \<and> pay_layout (job_payload job) = ''chunked''
        \<and> pay_state (job_payload job) \<noteq> ''referenced'')
     \<and> job_backend_id job = app_backend_id state \<and> job_worker_id job = worker_id state
     \<and> sint (job_fencing_token job) > 0 \<and> job_state job \<in> {''leased'', ''physical_deleted''}"

lemma leased_cleanup_cong:
  assumes "\<And>job. validate_mount_cleanup_job
       \<lparr>exp_backend_id = app_backend_id state, exp_worker_id = worker_id state, exp_tenant_id = tenant,
        exp_write_session_id = session, exp_payload = payload, exp_source_nonce_digest = Some nonce,
        exp_completion_kind = kind\<rparr> job = Ok () \<Longrightarrow> deletion job = deletion' job"
  shows "leased_cleanup deletion state S tenant session payload nonce kind
    = leased_cleanup deletion' state S tenant session payload nonce kind"
proof -
  have "delete_with_heartbeats deletion S job = delete_with_heartbeats deletion' S job"
    if "deletion job = deletion' job" for job
    by (intro ext) (simp add: delete_with_heartbeats_def that)
  then have "cleanup_mount_staging_job deletion S job = cleanup_mount_staging_job deletion' S job"
    if "deletion job = deletion' job" for job
    using that by (simp add: cleanup_mount_staging_job_def)
  then show ?thesis
    unfolding leased_cleanup_def using assms
    by (intro h_then_cong refl) (simp add: h_result_def)
qed

lemma validate_mount_cleanup_job_Ok:
  assumes "validate_mount_cleanup_job expected job = Ok ()"
  shows "job_tenant_id job = exp_tenant_id expected" "job_write_session_id job = exp_write_session_id expected"
    "job_backend_id job = exp_backend_id expected" "job_worker_id job = exp_worker_id expected"
    "sint (job_fencing_token job) > 0" "job_state job \<in> {''leased'', ''physical_deleted''}"
    "pay_tenant_id (job_payload job) = pay_tenant_id (exp_payload expected)"
    "pay_drive_id (job_payload job) = pay_drive_id (exp_payload expected)"
    "pay_backend_id (job_payload job) = pay_backend_id (exp_payload expected)"
    "pay_layout (job_payload job) = pay_layout (exp_payload expected)"
    "pay_state (job_payload job) \<noteq> ''referenced''"
  using assms by (auto simp: validate_mount_cleanup_job_def Let_def split: if_splits)

lemma leased_cleanup_authorized:
  assumes "authorize_mount_write W seconds state headers purpose = Ok authorized"
    and "validate_mount_storage_record state authorized r = Ok ()"
  shows "leased_cleanup (\<lambda>job. if authorized_deletion W seconds state headers purpose job
        then deletion job else fail UnsafeObject) state S (wf_tenant_id (mw_fence authorized))
      (wf_write_session_id (mw_fence authorized)) (st_staging_payload r) nonce kind
    = leased_cleanup deletion state S (wf_tenant_id (mw_fence authorized))
      (wf_write_session_id (mw_fence authorized)) (st_staging_payload r) nonce kind"
proof (rule leased_cleanup_cong)
  fix job
  assume ok: "validate_mount_cleanup_job
    \<lparr>exp_backend_id = app_backend_id state, exp_worker_id = worker_id state,
     exp_tenant_id = wf_tenant_id (mw_fence authorized),
     exp_write_session_id = wf_write_session_id (mw_fence authorized), exp_payload = st_staging_payload r,
     exp_source_nonce_digest = Some nonce, exp_completion_kind = kind\<rparr> job = Ok ()"
  have "pay_tenant_id (st_staging_payload r) = wf_tenant_id (mw_fence authorized)"
    "pay_drive_id (st_staging_payload r) = wf_drive_id (mw_fence authorized)"
    "pay_backend_id (st_staging_payload r) = app_backend_id state"
    "pay_layout (st_staging_payload r) = ''chunked''"
    using assms(2) by (auto simp: validate_mount_storage_record_def Let_def split: if_splits)
  then have "authorized_deletion W seconds state headers purpose job"
    unfolding authorized_deletion_def
    using assms(1) validate_mount_cleanup_job_Ok [OF ok] by auto
  then show "(if authorized_deletion W seconds state headers purpose job then deletion job else fail UnsafeObject)
      = deletion job" by simp
qed

lemma recovered_authorized:
  assumes "authorize_mount_write W seconds state headers purpose = Ok authorized"
  shows "recovered (\<lambda>job. if authorized_deletion W seconds state headers purpose job
        then deletion job else fail UnsafeObject) state S authorized cleanup
    = recovered deletion state S authorized cleanup"
proof -
  have "recover_expired (\<lambda>job. if authorized_deletion W seconds state headers purpose job
        then deletion job else fail UnsafeObject) state S authorized cleanup
    = recover_expired deletion state S authorized cleanup"
    unfolding recover_expired_def Let_def
    by (intro if_cong refl h_then_cong) (auto simp: h_result_def leased_cleanup_authorized [OF assms])
  then show ?thesis unfolding recovered_def by simp
qed


end
