(* ===== verification/Worker_Reads.thy ===== *)
theory Worker_Reads
  imports Mount_Write
begin

text \<open>
  The handlers of the storage worker that serve bytes (\<open>download\<close>, \<open>mount_download\<close>, the reads of
  revision chunks, legacy payloads and collaboration objects in
  \<open>source/apps/filebelt-worker-io/src/main.rs\<close>) and the streams that follow the response. A
  response is its status, its headers and its body; a stream is polled, one read at a time, and
  every read may be short. Database calls are parameters of the handlers.
\<close>

section \<open>Streams\<close>

datatype stream_error = StreamIo io_error | UnexpectedEof | AuthorizationChanged

record StreamState =
  st_segments :: "DownloadSegment list"
  st_current :: "(ino \<times> nat \<times> nat) option"
  st_finished :: bool

definition stream_start :: "DownloadSegment list \<Rightarrow> StreamState" where
  "stream_start segments = \<lparr>st_segments = segments, st_current = None, st_finished = False\<rparr>"

text \<open>\<open>read\<close> fills at most the buffer; \<open>short\<close> is how much more than one byte the system delivers.\<close>

definition read_buffer :: "ino \<Rightarrow> nat \<Rightarrow> nat \<Rightarrow> nat \<Rightarrow> bytes sys" where
  "read_buffer i pos len short = faulty (\<lambda>s.
     case inodes s i of
       None \<Rightarrow> (Err io_error.NotFound, s)
     | Some n \<Rightarrow>
         (case ftype n of
            Regular c \<Rightarrow> (Ok (take (min len (Suc short)) (drop pos (contents c))), s)
          | Directory \<Rightarrow> (Err IsADirectory, s)
          | Symlink _ \<Rightarrow> (Err InvalidInput, s)))"

definition STREAM_READ_BYTES :: nat where
  "STREAM_READ_BYTES = 65536"

definition stream_failed ::
  "stream_error \<Rightarrow> StreamState \<Rightarrow> world \<Rightarrow> ((bytes, stream_error) result option \<times> StreamState) \<times> world" where
  "stream_failed e st w = ((Some (Err e), st\<lparr>st_finished := True\<rparr>), w)"

text \<open>The read of the current segment.\<close>

definition stream_read ::
  "nat \<Rightarrow> ino \<Rightarrow> nat \<Rightarrow> nat \<Rightarrow> StreamState \<Rightarrow> world
     \<Rightarrow> ((bytes, stream_error) result option \<times> StreamState) \<times> world" where
  "stream_read short i pos remaining st w =
     (case read_buffer i pos (min remaining STREAM_READ_BYTES) short w of
        (Err e, w') \<Rightarrow> stream_failed (StreamIo e) st w'
      | (Ok buffer, w') \<Rightarrow>
          if buffer = [] then stream_failed UnexpectedEof st w'
          else
            ((Some (Ok buffer),
              st\<lparr>st_current := (if remaining - length buffer = 0 then None
                                 else Some (i, pos + length buffer, remaining - length buffer))\<rparr>), w'))"

text \<open>One poll of \<open>mount_download_stream\<close>.\<close>

definition mount_stream_next ::
  "nat \<Rightarrow> StreamState \<Rightarrow> world \<Rightarrow> ((bytes, stream_error) result option \<times> StreamState) \<times> world" where
  "mount_stream_next short st w =
     (if st_finished st then ((None, st), w)
      else
        case st_current st of
          Some (i, pos, remaining) \<Rightarrow> stream_read short i pos remaining st w
        | None \<Rightarrow>
            (case st_segments st of
               [] \<Rightarrow> ((None, st), w)
             | segment # rest \<Rightarrow>
                 let st = st\<lparr>st_segments := rest\<rparr> in
                 (case file_open (seg_path segment) w of
                    (Err e, w') \<Rightarrow> stream_failed (StreamIo e) st w'
                  | (Ok i, w') \<Rightarrow>
                      (case seek_start i (seg_offset segment) w' of
                         (Err e, w'') \<Rightarrow> stream_failed (StreamIo e) st w''
                       | (Ok _, w'') \<Rightarrow>
                           stream_read short i (seg_offset segment) (seg_length segment)
                             (st\<lparr>st_current := Some (i, seg_offset segment, seg_length segment)\<rparr>) w''))))"

text \<open>The items a client receives that polls once for every element of the list of short reads.\<close>

fun stream_items :: "nat list \<Rightarrow> StreamState \<Rightarrow> world \<Rightarrow> (bytes, stream_error) result list \<times> bool" where
  "stream_items [] st w = ([], False)"
| "stream_items (short # shorts) st w =
     (case mount_stream_next short st w of
        ((None, st'), w') \<Rightarrow> ([], True)
      | ((Some item, st'), w') \<Rightarrow>
          (case stream_items shorts st' w' of (items, ended) \<Rightarrow> (item # items, ended)))"

definition received :: "(bytes, 'x) result list \<Rightarrow> bytes" where
  "received items = concat (map (\<lambda>item. case item of Ok bs \<Rightarrow> bs | Err _ \<Rightarrow> []) items)"

section \<open>Responses\<close>

datatype Body =
    EmptyBody
  | MountStream "DownloadSegment list"
  | CheckedStream AuthorizedCapability uuid "DownloadSegment list"

record Response =
  resp_status :: nat
  resp_headers :: "(string \<times> string) list"
  resp_body :: Body

definition content_range_text :: "nat \<Rightarrow> nat \<Rightarrow> nat \<Rightarrow> string" where
  "content_range_text start limit sz =
     ''bytes '' @ decimal start @ ''-'' @ decimal limit @ ''/'' @ decimal sz"

definition range_response :: "bool \<Rightarrow> nat \<Rightarrow> nat \<Rightarrow> nat \<Rightarrow> bool \<Rightarrow> Body \<Rightarrow> Response" where
  "range_response is_head sz start limit partial body =
     \<lparr>resp_status = (if partial then 206 else 200),
      resp_headers =
        [(''accept-ranges'', ''bytes''),
         (''content-type'', ''application/octet-stream''),
         (''content-length'', decimal (if sz = 0 then 0 else limit - start + 1)),
         (''cache-control'', ''no-store''),
         (''x-content-type-options'', ''nosniff'')]
        @ (if partial then [(''content-range'', content_range_text start limit sz)] else []),
      resp_body = (if is_head \<or> sz = 0 then EmptyBody else body)\<rparr>"

definition binary_response :: "bool \<Rightarrow> nat \<Rightarrow> nat \<Rightarrow> nat \<Rightarrow> bool \<Rightarrow> DownloadSegment list \<Rightarrow> Response" where
  "binary_response is_head sz start limit partial segments =
     range_response is_head sz start limit partial (MountStream segments)"

section \<open>Handlers\<close>

record 'e read_env =
  db_payload :: "uuid \<Rightarrow> uuid \<Rightarrow> 'e \<times> world \<Rightarrow> (PayloadRecord, DatabaseError) result \<times> ('e \<times> world)"
  db_payload_for_node ::
    "uuid \<Rightarrow> uuid \<Rightarrow> uuid option \<Rightarrow> 'e \<times> world \<Rightarrow> (PayloadRecord, DatabaseError) result \<times> ('e \<times> world)"
  db_payload_parts_for_mount_read ::
    "uuid \<Rightarrow> uuid \<Rightarrow> 'e \<times> world \<Rightarrow> (MountPayloadPartRecord list, DatabaseError) result \<times> ('e \<times> world)"
  db_upload_for_payload :: "uuid \<Rightarrow> uuid \<Rightarrow> 'e \<times> world \<Rightarrow> (UploadRecord, DatabaseError) result \<times> ('e \<times> world)"
  db_upload_parts :: "uuid \<Rightarrow> uuid \<Rightarrow> 'e \<times> world \<Rightarrow> (UploadPartRecord list, DatabaseError) result \<times> ('e \<times> world)"
  db_collaboration_object ::
    "uuid \<Rightarrow> uuid \<Rightarrow> 'e \<times> world \<Rightarrow> (CollaborationObjectRecord, DatabaseError) result \<times> ('e \<times> world)"
  db_admit_mount_read_capability ::
    "MountReadCapabilityFence \<Rightarrow> 'e \<times> world \<Rightarrow> (unit, DatabaseError) result \<times> ('e \<times> world)"
  db_consume_capability_nonce ::
    "uuid \<Rightarrow> bytes \<Rightarrow> string \<Rightarrow> i64 \<Rightarrow> 'e \<times> world \<Rightarrow> (unit, DatabaseError) result \<times> ('e \<times> world)"
  db_authorization_generations_match ::
    "uuid \<Rightarrow> uuid \<Rightarrow> uuid \<Rightarrow> uuid \<Rightarrow> uuid \<Rightarrow> i64 \<Rightarrow> i64 \<Rightarrow> i64 \<Rightarrow> i64
       \<Rightarrow> 'e \<times> world \<Rightarrow> (bool, DatabaseError) result \<times> ('e \<times> world)"

definition replay_error :: "DatabaseError \<Rightarrow> AppError" where
  "replay_error e =
     (if e = DatabaseError.Conflict then AppError.Conflict ''capability_replayed'' else Unavailable)"

definition h_query ::
  "(DatabaseError \<Rightarrow> AppError) \<Rightarrow> ('e \<times> world \<Rightarrow> ('a, DatabaseError) result \<times> ('e \<times> world)) \<Rightarrow> ('e, 'a) handler" where
  "h_query f query st = (case query st of (r, st') \<Rightarrow> (map_err f r, st'))"

definition consume_nonce ::
  "worker_lib \<Rightarrow> 'e read_env \<Rightarrow> AuthorizedCapability \<Rightarrow> string \<Rightarrow> ('e, unit) handler" where
  "consume_nonce W D authorized operation =
     h_query replay_error
       (db_consume_capability_nonce D (auth_tenant_id authorized)
         (nonce_digest W (''filebelt-capability-nonce-v1'' @ [CHR 0x00]) (cap_nonce (auth_claims authorized)))
         operation (cap_expires_at_unix_seconds (auth_claims authorized)))"

definition consume_mount_nonce ::
  "worker_lib \<Rightarrow> 'e read_env \<Rightarrow> uuid \<Rightarrow> MountCapabilityClaims \<Rightarrow> string \<Rightarrow> ('e, unit) handler" where
  "consume_mount_nonce W D tenant_id claims operation =
     h_query replay_error
       (db_consume_capability_nonce D tenant_id
         (nonce_digest W (''filebelt-mount-capability-nonce-v2'' @ [CHR 0x00]) (mnt_nonce claims))
         operation (mnt_expires_at_unix_seconds claims))"

definition generations_match ::
  "'e read_env \<Rightarrow> AuthorizedCapability \<Rightarrow> uuid \<Rightarrow> 'e \<times> world \<Rightarrow> (bool, DatabaseError) result \<times> ('e \<times> world)" where
  "generations_match D authorized drive_id st =
     (let claims = auth_claims authorized in
      case (i64_from_u64 (cap_membership_generation claims), i64_from_u64 (cap_drive_acl_generation claims),
            i64_from_u64 (cap_namespace_generation claims), i64_from_u64 (cap_resource_acl_generation claims)) of
        (Some mg, Some dg, Some ng, Some rg) \<Rightarrow>
          db_authorization_generations_match D (auth_tenant_id authorized) (auth_session_id authorized)
            (auth_principal_id authorized) drive_id (auth_resource_id authorized)
            mg dg ng rg st
      | _ \<Rightarrow> (Err InvalidPersistedValue, st))"

definition check_generations :: "'e read_env \<Rightarrow> AuthorizedCapability \<Rightarrow> uuid \<Rightarrow> ('e, unit) handler" where
  "check_generations D authorized drive_id st =
     (case generations_match D authorized drive_id st of
        (Ok True, st') \<Rightarrow> (Ok (), st')
      | (Ok False, st') \<Rightarrow> (Err Forbidden, st')
      | (Err _, st') \<Rightarrow> (Err Unavailable, st'))"

text \<open>One poll of \<open>download_stream\<close>; \<open>elapsed\<close> says whether the recheck interval has passed.\<close>

definition download_stream_next ::
  "'e read_env \<Rightarrow> AuthorizedCapability \<Rightarrow> uuid \<Rightarrow> bool \<Rightarrow> nat \<Rightarrow> StreamState \<Rightarrow> 'e \<times> world
     \<Rightarrow> ((bytes, stream_error) result option \<times> StreamState) \<times> ('e \<times> world)" where
  "download_stream_next D authorized drive_id elapsed short st ew =
     (let poll = (\<lambda>(e, w). case mount_stream_next short st w of (r, w') \<Rightarrow> (r, (e, w'))) in
      if st_finished st then ((None, st), ew)
      else if elapsed then
        (case generations_match D authorized drive_id ew of
           (Ok True, ew') \<Rightarrow> poll ew'
         | (_, ew') \<Rightarrow> ((Some (Err AuthorizationChanged), st\<lparr>st_finished := True\<rparr>), ew'))
      else poll ew)"

definition payload_size :: "PayloadRecord \<Rightarrow> ('e, nat) handler" where
  "payload_size payload = h_result (ok_or (u64_try_from (pay_size_bytes payload)) Internal)"

definition path_uuid :: "worker_lib \<Rightarrow> string \<Rightarrow> string \<Rightarrow> ('e, uuid) handler" where
  "path_uuid W value code = h_result (ok_or (cap_uuid_parse (caps W) value) (BadRequest code))"

definition download ::
  "worker_lib \<Rightarrow> storage_lib \<Rightarrow> u64 option \<Rightarrow> AppState \<Rightarrow> 'e read_env \<Rightarrow> string \<Rightarrow> HeaderMap \<Rightarrow> bool
     \<Rightarrow> ('e, Response) handler" where
  "download W L seconds state D grant_text headers is_head =
     h_then (path_uuid W grant_text ''invalid_grant_id'') (\<lambda>grant_id.
     h_then (h_result (authorize W seconds state headers CapabilityOperation.Download)) (\<lambda>authorized.
     h_then (h_result (parse_required_uuid W (cap_grant_id (auth_claims authorized)))) (\<lambda>claimed.
     if claimed \<noteq> grant_id then h_result (Err Forbidden)
     else
       h_then (h_result (parse_required_uuid W (cap_payload_id (auth_claims authorized)))) (\<lambda>payload_id.
       h_then (h_db (db_payload D (auth_tenant_id authorized) payload_id)) (\<lambda>payload.
       if pay_state payload \<noteq> ''referenced'' \<or> pay_backend_id payload \<noteq> app_backend_id state
       then h_result (Err (AppError.Conflict ''payload_not_referenced''))
       else
         h_then (check_generations D authorized (pay_drive_id payload)) (\<lambda>_.
         h_then (h_db (db_upload_for_payload D (auth_tenant_id authorized) payload_id)) (\<lambda>upload.
         h_then (h_db (db_upload_parts D (auth_tenant_id authorized) (up_upload_id upload))) (\<lambda>parts.
         h_then (payload_size payload) (\<lambda>sz.
         h_then (h_result (requested_range W (headers ''range'') sz (auth_claims authorized))) (\<lambda>(start, limit, partial).
         h_then (h_blocking (verified_download_segments L (storage state) upload payload parts start limit)) (\<lambda>segments.
         h_then (check_generations D authorized (pay_drive_id payload)) (\<lambda>_.
         h_result (Ok (range_response is_head sz start limit partial
           (CheckedStream authorized (pay_drive_id payload) segments)))))))))))))))"

definition read_revision_chunk ::
  "worker_lib \<Rightarrow> storage_lib \<Rightarrow> u64 option \<Rightarrow> AppState \<Rightarrow> string \<Rightarrow> HeaderMap \<Rightarrow> bool \<Rightarrow> ('e, Response) handler" where
  "read_revision_chunk W L seconds state chunk_text headers is_head =
     h_then (path_uuid W chunk_text ''invalid_chunk_id'') (\<lambda>chunk_id.
     h_then (h_result (authorize W seconds state headers ReadRevisionChunk)) (\<lambda>authorized.
     h_then (h_result (revision_chunk_locator W authorized chunk_id)) (\<lambda>locator.
     h_then (h_result (requested_range W (headers ''range'') (loc_size locator) (auth_claims authorized))) (\<lambda>(start, limit, partial).
     h_then (h_blocking (verified_revision_chunk_segment L (storage state) locator start limit)) (\<lambda>segment.
     h_result (Ok (binary_response is_head (loc_size locator) start limit partial [segment])))))))"

definition delete_revision_chunk_handler ::
  "worker_lib \<Rightarrow> storage_lib \<Rightarrow> u64 option \<Rightarrow> AppState \<Rightarrow> 'e read_env \<Rightarrow> string \<Rightarrow> HeaderMap \<Rightarrow> ('e, nat) handler" where
  "delete_revision_chunk_handler W L seconds state D chunk_text headers =
     h_then (path_uuid W chunk_text ''invalid_chunk_id'') (\<lambda>chunk_id.
     h_then (h_result (authorize W seconds state headers DeleteRevisionChunk)) (\<lambda>authorized.
     h_then (h_result (revision_chunk_locator W authorized chunk_id)) (\<lambda>locator.
     h_then (consume_nonce W D authorized ''revision_delete_chunk'') (\<lambda>_.
     h_then (h_blocking (delete_revision_chunk L (storage state) locator (auth_capability_id authorized))) (\<lambda>_.
     h_result (Ok 204))))))"

text \<open>The segments of a payload of either layout, for reads that carry the recorded chunks.\<close>

definition payload_segments ::
  "storage_lib \<Rightarrow> AppState \<Rightarrow> PayloadRecord \<Rightarrow> MountPayloadPartRecord list \<Rightarrow> nat \<Rightarrow> nat \<Rightarrow> DownloadSegment list io" where
  "payload_segments L state payload parts start limit =
     (if pay_layout payload = ''whole''
      then verified_whole_object_segment L (storage state) payload start limit
      else
        io_then (lift_result (collect_ok mount_base_chunk parts)) (\<lambda>chunks.
        verified_chunked_object_segments L (storage state) payload chunks start limit))"

definition read_revision_legacy_payload ::
  "worker_lib \<Rightarrow> storage_lib \<Rightarrow> u64 option \<Rightarrow> AppState \<Rightarrow> 'e read_env \<Rightarrow> string \<Rightarrow> HeaderMap \<Rightarrow> bool
     \<Rightarrow> ('e, Response) handler" where
  "read_revision_legacy_payload W L seconds state D payload_text headers is_head =
     h_then (path_uuid W payload_text ''invalid_payload_id'') (\<lambda>payload_id.
     h_then (h_result (authorize W seconds state headers ReadRevisionLegacyPayload)) (\<lambda>authorized.
     h_then (h_result (validate_revision_legacy_payload_capability W authorized payload_id)) (\<lambda>_.
     h_then (h_db (db_payload D (auth_tenant_id authorized) payload_id)) (\<lambda>payload.
     if pay_state payload \<noteq> ''referenced'' \<or> pay_backend_id payload \<noteq> app_backend_id state
     then h_result (Err (AppError.Conflict ''legacy_payload_not_referenced''))
     else if pay_drive_id payload \<noteq> auth_resource_id authorized then h_result (Err Forbidden)
     else
       h_then (payload_size payload) (\<lambda>sz.
       h_then (h_result (validate_exact_range authorized sz)) (\<lambda>_.
       h_then (h_result (requested_range W (headers ''range'') sz (auth_claims authorized))) (\<lambda>(start, limit, partial).
       h_then (if pay_layout payload = ''chunked''
               then h_db (db_payload_parts_for_mount_read D (auth_tenant_id authorized) payload_id)
               else h_result (Ok [])) (\<lambda>parts.
       h_then (h_blocking (payload_segments L state payload parts start limit)) (\<lambda>segments.
       h_result (Ok (binary_response is_head sz start limit partial segments)))))))))))"

definition read_collaboration_object ::
  "worker_lib \<Rightarrow> storage_lib \<Rightarrow> u64 option \<Rightarrow> AppState \<Rightarrow> 'e read_env \<Rightarrow> string \<Rightarrow> HeaderMap \<Rightarrow> bool
     \<Rightarrow> ('e, Response) handler" where
  "read_collaboration_object W L seconds state D object_text headers is_head =
     h_then (path_uuid W object_text ''invalid_object_id'') (\<lambda>object_id.
     h_then (h_result (authorize W seconds state headers ReadCollaborationObject)) (\<lambda>authorized.
     h_then (h_db (db_collaboration_object D (auth_tenant_id authorized) object_id)) (\<lambda>object.
     h_then (h_result (validate_collaboration_capability W authorized object (app_backend_id state))) (\<lambda>_.
     if obj_state object \<noteq> ''durable''
     then h_result (Err (AppError.Conflict ''collaboration_object_not_durable''))
     else
       h_then (check_generations D authorized (obj_drive_id object)) (\<lambda>_.
       h_then (h_db (db_payload D (auth_tenant_id authorized) (obj_payload_id object))) (\<lambda>payload.
       if pay_state payload \<noteq> ''finalized'' \<and> pay_state payload \<noteq> ''referenced''
       then h_result (Err (AppError.Conflict ''payload_not_finalized''))
       else
         h_then (payload_size payload) (\<lambda>sz.
         h_then (h_result (requested_range W (headers ''range'') sz (auth_claims authorized))) (\<lambda>(start, limit, partial).
         h_then (h_blocking (verified_whole_object_segment L (storage state) payload start limit)) (\<lambda>segments.
         h_result (Ok (range_response is_head sz start limit partial
           (CheckedStream authorized (obj_drive_id object) segments))))))))))))"

definition mount_response :: "string \<Rightarrow> Body \<Rightarrow> Response" where
  "mount_response content_length body =
     \<lparr>resp_status = 200,
      resp_headers =
        [(''content-type'', ''application/octet-stream''),
         (''content-length'', content_length),
         (''cache-control'', ''no-store''),
         (''x-content-type-options'', ''nosniff'')],
      resp_body = body\<rparr>"

definition mount_download ::
  "worker_lib \<Rightarrow> storage_lib \<Rightarrow> u64 option \<Rightarrow> AppState \<Rightarrow> 'e read_env \<Rightarrow> string \<Rightarrow> HeaderMap
     \<Rightarrow> ('e, Response) handler" where
  "mount_download W L seconds state D handle_text headers =
     h_then (path_uuid W handle_text ''invalid_handle_id'') (\<lambda>handle_id.
     h_then (h_result (authorize_mount_read W seconds state headers)) (\<lambda>authorized.
     let fence = mr_fence authorized; claims = mr_claims authorized in
     h_then (if rf_handle_id fence \<noteq> handle_id then h_result (Err Forbidden)
             else h_result (parse_required_uuid W (mnt_grant_id claims))) (\<lambda>grant_id.
     if grant_id \<noteq> handle_id then h_result (Err Forbidden)
     else
       h_then (consume_mount_nonce W D (rf_tenant_id fence) claims ''mount_read'') (\<lambda>_.
       h_then (h_db (db_admit_mount_read_capability D fence)) (\<lambda>_.
       h_then (h_db (db_payload_for_node D (rf_tenant_id fence) (rf_node_id fence) (Some (rf_version_id fence)))) (\<lambda>payload.
       if pay_state payload \<noteq> ''referenced'' \<or> pay_backend_id payload \<noteq> app_backend_id state
          \<or> pay_drive_id payload \<noteq> rf_drive_id fence
       then h_result (Err (AppError.Conflict ''payload_not_referenced''))
       else
         h_then (payload_size payload) (\<lambda>sz.
         let start = unat (mnt_range_start claims) in
         if sz = 0 \<or> start \<ge> sz then h_result (Ok (mount_response ''0'' EmptyBody))
         else
           let limit = min (unat (mnt_range_end claims)) (sz - 1) in
           h_then (h_db (db_payload_parts_for_mount_read D (rf_tenant_id fence) (pay_payload_id payload))) (\<lambda>parts.
           h_then (h_blocking (payload_segments L state payload parts start limit)) (\<lambda>segments.
           h_then (h_db (db_admit_mount_read_capability D fence)) (\<lambda>_.
           h_result (Ok (mount_response (decimal (limit - start + 1)) (MountStream segments)))))))))))))"

end
