(* ===== verification/Download_Correct.thy ===== *)
theory Download_Correct
  imports Worker_Reads
begin

text \<open>
  What a download delivers: the segments a verified read hands to the stream are the requested
  range of the stored object, every chunk they touch has its recorded size and digest, and the
  stream delivers them in order, whatever short reads and failures happen on the way.
\<close>

section \<open>Computations that only read\<close>

text \<open>On the file system \<open>s\<close> the computation changes nothing and its result satisfies \<open>P\<close>.\<close>

definition reads :: "fs \<Rightarrow> 'a io \<Rightarrow> ('a \<Rightarrow> bool) \<Rightarrow> bool" where
  "reads s m P \<longleftrightarrow> (\<forall>fl. fst (snd (m (s, fl))) = s \<and> (\<forall>x. fst (m (s, fl)) = Ok x \<longrightarrow> P x))"

named_theorems reads_rules

lemma readsD: "reads s m P \<Longrightarrow> m (s, fl) = (Ok x, (s', fl')) \<Longrightarrow> s' = s \<and> P x"
  unfolding reads_def by (drule spec [of _ fl]) simp

lemma reads_ret [reads_rules]: "P x \<Longrightarrow> reads s (ret x) P"
  by (simp add: reads_def ret_def)

lemma reads_stop [reads_rules]: "reads s (stop_with e) P"
  by (simp add: reads_def stop_with_def)

lemma reads_then:
  assumes "reads s m P" and "\<And>x. P x \<Longrightarrow> reads s (f x) Q"
  shows "reads s (io_then m f) Q"
  unfolding reads_def
proof
  fix fl
  obtain r s' fl' where m: "m (s, fl) = (r, (s', fl'))" by (metis prod.exhaust)
  then have "s' = s" "\<And>x. r = Ok x \<Longrightarrow> P x"
    using assms(1) unfolding reads_def by (metis fst_conv snd_conv)+
  then show "fst (snd (io_then m f (s, fl))) = s \<and> (\<forall>x. fst (io_then m f (s, fl)) = Ok x \<longrightarrow> Q x)"
    using assms(2) m by (cases r) (auto simp: io_then_def reads_def)
qed

lemma reads_try:
  assumes "snd (g s) = s" and "\<And>x. fst (g s) = Ok x \<Longrightarrow> P x"
  shows "reads s (try_sys (faulty g)) P"
  using assms
  by (cases "g s"; cases "fst (g s)")
    (auto simp: reads_def try_sys_def faulty_with_def split: list.splits option.splits prod.splits result.splits)

lemma reads_lift [reads_rules]: "(\<And>x. r = Ok x \<Longrightarrow> P x) \<Longrightarrow> reads s (lift_result r) P"
  by (cases r) (auto simp: lift_result_def intro: reads_rules)

lemma reads_metadata [reads_rules]:
  "(\<And>n. lookup s p = Some n \<Longrightarrow> P n) \<Longrightarrow> reads s (try_sys (symlink_metadata p)) P"
  unfolding symlink_metadata_def by (rule reads_try) (auto simp: result_simps)

lemma reads_file_open [reads_rules]:
  "(\<And>i. resolve MAX_SYMLINKS s p = Ok i \<Longrightarrow> P i) \<Longrightarrow> reads s (try_sys (file_open p)) P"
  unfolding file_open_def by (rule reads_try) auto

lemma reads_fstat [reads_rules]:
  "(\<And>n. inodes s i = Some n \<Longrightarrow> P n) \<Longrightarrow> reads s (try_sys (fstat i)) P"
  unfolding fstat_def by (rule reads_try) (auto simp: result_simps)

lemma reads_read_all [reads_rules]:
  "(\<And>n c. inodes s i = Some n \<Longrightarrow> ftype n = Regular c \<Longrightarrow> P (contents c)) \<Longrightarrow> reads s (try_sys (read_all i)) P"
  unfolding read_all_def
  by (rule reads_try) (auto split: option.splits file_type.splits)

lemma reads_parent [reads_rules]: "reads s (parent p) (\<lambda>_. True)"
  by (auto simp: parent_def intro: reads_rules)

lemma reads_verify_directory [reads_rules]: "reads s (verify_directory p) (\<lambda>_. True)"
  unfolding verify_directory_def by (rule reads_then, rule reads_metadata) (auto intro: reads_rules)

lemma reads_verify_same_owner [reads_rules]: "reads s (verify_same_owner p q) (\<lambda>_. True)"
  unfolding verify_same_owner_def
  by (rule reads_then [OF reads_metadata], rule TrueI, rule reads_then [OF reads_metadata], rule TrueI)
    (auto intro: reads_rules)

lemma reads_verify_regular_file:
  "reads s (verify_regular_file p) (\<lambda>_. \<exists>n c. lookup s p = Some n \<and> ftype n = Regular c)"
  unfolding verify_regular_file_def
proof (rule reads_then [OF reads_metadata])
  show "lookup s p = Some n \<Longrightarrow> lookup s p = Some n" for n .
  show "reads s (if \<not> is_file n \<or> perm n AND 0x1FF \<noteq> FILE_MODE then fail UnsafeObject
      else io_then (parent p) (verify_same_owner p)) (\<lambda>_. \<exists>n c. lookup s p = Some n \<and> ftype n = Regular c)"
    if "lookup s p = Some n" for n
  proof (cases "is_file n")
    case True
    then have "\<exists>n c. lookup s p = Some n \<and> ftype n = Regular c"
      using that by (auto simp: is_file_def split: file_type.splits)
    then show ?thesis
      by (auto simp: parent_def reads_def io_then_def stop_with_def ret_def
          dest!: readsD [OF reads_verify_same_owner])
        (metis reads_verify_same_owner reads_def)
  qed (simp add: reads_stop)
qed

lemma resolve_regular:
  assumes "lookup s p = Some n" and "ftype n = Regular c"
  shows "\<exists>i. resolve MAX_SYMLINKS s p = Ok i \<and> inodes s i = Some n"
proof -
  obtain i where "map_of (names s) p = Some i" "inodes s i = Some n"
    using assms(1) by (auto simp: lookup_def bind_eq_Some_conv)
  then show ?thesis using resolve_plain [of s p i n] assms(2) by simp
qed

lemma reads_verify_file:
  "reads s (verify_file L p sz d) (\<lambda>_. \<exists>c. file_at s p = Some c \<and> length c = sz \<and> blake3 L c = d)"
  unfolding verify_file_def
proof (rule reads_then [OF reads_verify_regular_file])
  assume "\<exists>n c. lookup s p = Some n \<and> ftype n = Regular c"
  then obtain n c where n: "lookup s p = Some n" "ftype n = Regular c" by blast
  obtain i where i: "resolve MAX_SYMLINKS s p = Ok i" "inodes s i = Some n"
    using resolve_regular [OF n] by blast
  have c: "file_at s p = Some (contents c)" "length (contents c) = file_len n"
    using n by (simp_all add: file_at_def file_len_def contents_def)
  show "reads s
     (io_then (try_sys (file_open p)) (\<lambda>i.
      io_then (try_sys (fstat i)) (\<lambda>m.
      if file_len m \<noteq> sz then fail CorruptObject
      else
        io_then (try_sys (read_all i)) (\<lambda>bytes.
        if blake3 L bytes \<noteq> d then fail CorruptObject else ret ()))))
     (\<lambda>_. \<exists>c. file_at s p = Some c \<and> length c = sz \<and> blake3 L c = d)"
    by (rule reads_then [where P = "\<lambda>j. j = i"], rule reads_file_open, use i(1) in simp,
        rule reads_then [where P = "\<lambda>m. m = n"], rule reads_fstat, use i(2) in simp)
      (use i(2) n(2) c in \<open>auto intro!: reads_rules reads_then [where P = "\<lambda>b. b = contents c"]\<close>)
qed

section \<open>Segments\<close>

text \<open>The bytes of the logical range \<open>a..b\<close> in the part of an object that begins at \<open>off\<close>.\<close>

definition range_of :: "nat \<Rightarrow> nat \<Rightarrow> nat \<Rightarrow> bytes \<Rightarrow> bytes" where
  "range_of a b off data = take (Suc b - max a off) (drop (a - off) data)"

lemma range_of_append:
  "range_of a b off (c @ data) = range_of a b off c @ range_of a b (off + length c) data"
proof (cases "a \<le> off + length c")
  case True
  then show ?thesis by (cases "a \<le> off") (simp_all add: range_of_def max_def add.commute)
next
  case False
  then show ?thesis by (simp add: range_of_def max_def)
qed

definition segment_bytes :: "fs \<Rightarrow> DownloadSegment \<Rightarrow> bytes" where
  "segment_bytes s segment =
     (case file_at s (seg_path segment) of
        Some c \<Rightarrow> take (seg_length segment) (drop (seg_offset segment) c)
      | None \<Rightarrow> [])"

definition segment_ok :: "fs \<Rightarrow> DownloadSegment \<Rightarrow> bool" where
  "segment_ok s segment \<longleftrightarrow>
     (\<exists>c. file_at s (seg_path segment) = Some c
        \<and> 0 < seg_length segment \<and> seg_offset segment + seg_length segment \<le> length c)"

definition segments_deliver :: "fs \<Rightarrow> DownloadSegment list \<Rightarrow> bytes \<Rightarrow> bool" where
  "segments_deliver s segments bs \<longleftrightarrow>
     list_all (segment_ok s) segments \<and> concat (map (segment_bytes s) segments) = bs"

lemma segments_deliver_append:
  "segments_deliver s xs bs \<Longrightarrow> segments_deliver s ys cs \<Longrightarrow> segments_deliver s (xs @ ys) (bs @ cs)"
  by (simp add: segments_deliver_def)

lemma segments_deliver_overlap:
  assumes "file_at s p = Some c" and "Suc b \<le> U64_MAX"
  shows "segments_deliver s
    (case overlap_segment p a b off (off + length c) of None \<Rightarrow> [] | Some segment \<Rightarrow> [segment])
    (range_of a b off c)"
proof (cases "max a off < min (Suc b) (off + length c)")
  case True
  then have "overlap_segment p a b off (off + length c) =
      Some \<lparr>seg_path = p, seg_offset = max a off - off, seg_length = min (Suc b) (off + length c) - max a off\<rparr>"
    using assms(2) by (simp add: overlap_segment_def u64_saturating_add_def Let_def)
  moreover have "take (min (Suc b) (off + length c) - max a off) (drop (max a off - off) c) = range_of a b off c"
    unfolding range_of_def
    by (cases "Suc b \<le> off + length c"; cases "a \<le> off") (use True in \<open>simp_all add: max_def\<close>)
  ultimately show ?thesis
    using assms(1) True
    by (auto simp: segments_deliver_def segment_ok_def segment_bytes_def)
next
  case False
  then show ?thesis
    using assms(2)
    by (auto simp: segments_deliver_def overlap_segment_def u64_saturating_add_def Let_def range_of_def)
qed

text \<open>
  \<open>data\<close> is the object whose recorded chunks are given: every chunk that meets the range is
  stored with its recorded size and digest.
\<close>

fun stored_chunks :: "storage_lib \<Rightarrow> fs \<Rightarrow> path \<Rightarrow> nat \<Rightarrow> nat \<Rightarrow> nat \<Rightarrow> CowBaseChunk list \<Rightarrow> bytes \<Rightarrow> bool" where
  "stored_chunks L s directory a b off [] data \<longleftrightarrow> data = []"
| "stored_chunks L s directory a b off (chunk # chunks) data \<longleftrightarrow>
     base_size chunk \<le> length data
     \<and> (max a off < min (Suc b) (off + base_size chunk) \<longrightarrow>
          file_at s (directory @ [zero_pad 8 (decimal (base_chunk_number chunk)) @ ''.part''])
            = Some (take (base_size chunk) data)
          \<and> blake3 L (take (base_size chunk) data) = base_digest chunk)
     \<and> stored_chunks L s directory a b (off + base_size chunk) chunks (drop (base_size chunk) data)"

lemma reads_download_chunks:
  assumes "Suc b \<le> U64_MAX"
  shows "reads s (download_chunks L directory sz a b k chunks off)
    (\<lambda>(segments, limit). \<exists>data. stored_chunks L s directory a b off chunks data
        \<and> limit = off + length data \<and> segments_deliver s segments (range_of a b off data))"
proof (induction chunks arbitrary: k off)
  case Nil
  show ?case
    by (auto intro!: reads_rules simp: segments_deliver_def range_of_def)
next
  case (Cons chunk chunks)
  let ?p = "directory @ [zero_pad 8 (decimal (base_chunk_number chunk)) @ ''.part'']"
  let ?n = "base_size chunk"
  let ?seg = "overlap_segment ?p a b off (off + ?n)"
  have here: "reads s (case ?seg of None \<Rightarrow> ret []
      | Some segment \<Rightarrow> io_then (verify_file L ?p ?n (base_digest chunk)) (\<lambda>_. ret [segment]))
    (\<lambda>segs. \<exists>c. length c = ?n \<and> segments_deliver s segs (range_of a b off c)
        \<and> (max a off < min (Suc b) (off + ?n) \<longrightarrow> file_at s ?p = Some c \<and> blake3 L c = base_digest chunk))"
  proof (cases ?seg)
    case None
    then have "\<not> max a off < min (Suc b) (off + ?n)"
      using assms by (simp add: overlap_segment_def u64_saturating_add_def Let_def split: if_splits)
    then show ?thesis
      using None
      by (auto intro!: reads_rules exI [of _ "replicate ?n undefined"] simp: segments_deliver_def range_of_def)
  next
    case (Some segment)
    show ?thesis
      unfolding Some option.case
      by (rule reads_then [OF reads_verify_file], rule reads_ret)
        (use segments_deliver_overlap [OF _ assms, of s ?p _ a off] Some in fastforce)
  qed
  show ?case
  proof (cases "base_chunk_number chunk \<noteq> k \<or> base_chunk_number chunk > 99999999
      \<or> u64_checked_add off ?n = None \<or> ?n = 0 \<or> off + ?n > sz")
    case True
    then show ?thesis
      by (auto simp: u64_checked_add_def intro: reads_rules split: option.splits)
  next
    case False
    then have run: "download_chunks L directory sz a b k (chunk # chunks) off =
      io_then (case ?seg of None \<Rightarrow> ret []
        | Some segment \<Rightarrow> io_then (verify_file L ?p ?n (base_digest chunk)) (\<lambda>_. ret [segment])) (\<lambda>here.
      io_then (download_chunks L directory sz a b (k + 1) chunks (off + ?n))
        (\<lambda>(rest, total_size). ret (here @ rest, total_size)))"
      by (auto simp: u64_checked_add_def Let_def)
    show ?thesis
      unfolding run
    proof (rule reads_then [OF here], rule reads_then [OF Cons.IH])
      fix segs and r :: "DownloadSegment list \<times> nat"
      assume "\<exists>c. length c = ?n \<and> segments_deliver s segs (range_of a b off c)
        \<and> (max a off < min (Suc b) (off + ?n) \<longrightarrow> file_at s ?p = Some c \<and> blake3 L c = base_digest chunk)"
      then obtain c where c: "length c = ?n" "segments_deliver s segs (range_of a b off c)"
        "max a off < min (Suc b) (off + ?n) \<longrightarrow> file_at s ?p = Some c \<and> blake3 L c = base_digest chunk"
        by blast
      assume "case r of (segments, limit) \<Rightarrow> \<exists>data. stored_chunks L s directory a b (off + ?n) chunks data
        \<and> limit = off + ?n + length data \<and> segments_deliver s segments (range_of a b (off + ?n) data)"
      then obtain rest data where r: "r = (rest, off + ?n + length data)"
        "stored_chunks L s directory a b (off + ?n) chunks data"
        "segments_deliver s rest (range_of a b (off + ?n) data)"
        by (cases r) auto
      show "reads s ((\<lambda>(rest, total_size). ret (segs @ rest, total_size)) r)
        (\<lambda>(segments, limit). \<exists>data. stored_chunks L s directory a b off (chunk # chunks) data
          \<and> limit = off + length data \<and> segments_deliver s segments (range_of a b off data))"
        unfolding r(1) split
        by (rule reads_ret, unfold split, rule exI [of _ "c @ data"])
          (use c r in \<open>simp add: range_of_append segments_deliver_append\<close>)
    qed
  qed
qed

section \<open>Streams\<close>

text \<open>What a stream still has to deliver, when every file it needs is there.\<close>

fun current_bytes :: "fs \<Rightarrow> (ino \<times> nat \<times> nat) option \<Rightarrow> bytes \<Rightarrow> bool" where
  "current_bytes s None bs \<longleftrightarrow> bs = []"
| "current_bytes s (Some (i, pos, remaining)) bs \<longleftrightarrow>
     (\<exists>n c. inodes s i = Some n \<and> ftype n = Regular c \<and> 0 < remaining \<and> pos + remaining \<le> length c
        \<and> bs = take remaining (drop pos (contents c)))"

definition stream_owes :: "fs \<Rightarrow> StreamState \<Rightarrow> bytes \<Rightarrow> bool" where
  "stream_owes s st bs \<longleftrightarrow>
     \<not> st_finished st
     \<and> (\<exists>cur rest. bs = cur @ rest \<and> current_bytes s (st_current st) cur \<and> segments_deliver s (st_segments st) rest)"

text \<open>A system call that only reads either returns its value or fails by a fault.\<close>

lemma faulty_reads:
  assumes "g s = (Ok x, s)"
  shows "(\<exists>fl'. faulty g (s, fl) = (Ok x, (s, fl')) \<and> (fl = [] \<longrightarrow> fl' = []))
    \<or> (\<exists>w. faulty g (s, fl) = (Err DeviceError, w) \<and> fl \<noteq> [])"
proof (cases fl)
  case (Cons f fl')
  then show ?thesis using assms by (cases f) (simp_all add: faulty_with_def)
qed (use assms in \<open>simp add: faulty_with_def\<close>)

lemma read_buffer_step:
  assumes "inodes s i = Some n" and "ftype n = Regular c"
  shows "(\<exists>fl'. read_buffer i pos len short (s, fl) = (Ok (take (min len (Suc short)) (drop pos (contents c))), (s, fl'))
      \<and> (fl = [] \<longrightarrow> fl' = []))
    \<or> (\<exists>w. read_buffer i pos len short (s, fl) = (Err DeviceError, w) \<and> fl \<noteq> [])"
  unfolding read_buffer_def by (rule faulty_reads) (simp add: assms)

lemma open_step:
  assumes "resolve MAX_SYMLINKS s p = Ok i"
  shows "(\<exists>fl'. file_open p (s, fl) = (Ok i, (s, fl')) \<and> (fl = [] \<longrightarrow> fl' = []))
    \<or> (\<exists>w. file_open p (s, fl) = (Err DeviceError, w) \<and> fl \<noteq> [])"
  unfolding file_open_def by (rule faulty_reads) (simp add: assms)

lemma seek_step:
  "(\<exists>fl'. seek_start i pos (s, fl) = (Ok (), (s, fl')) \<and> (fl = [] \<longrightarrow> fl' = []))
    \<or> (\<exists>w. seek_start i pos (s, fl) = (Err DeviceError, w) \<and> fl \<noteq> [])"
  unfolding seek_start_def by (rule faulty_reads) simp

lemma stream_read_step:
  assumes "current_bytes s (Some (i, pos, remaining)) cur" and "segments_deliver s (st_segments st) rest"
    and "\<not> st_finished st"
  shows "(\<exists>bs st' bs' fl'. stream_read short i pos remaining st (s, fl) = ((Some (Ok bs), st'), (s, fl'))
      \<and> bs \<noteq> [] \<and> cur @ rest = bs @ bs' \<and> stream_owes s st' bs' \<and> (fl = [] \<longrightarrow> fl' = []))
    \<or> (\<exists>e st' w'. stream_read short i pos remaining st (s, fl) = ((Some (Err e), st'), w')
      \<and> st_finished st' \<and> fl \<noteq> [])"
proof -
  obtain n c where n: "inodes s i = Some n" "ftype n = Regular c" "0 < remaining" "pos + remaining \<le> length c"
    and cur: "cur = take remaining (drop pos (contents c))"
    using assms(1) by auto
  define len where "len = min (min remaining STREAM_READ_BYTES) (Suc short)"
  define out where "out = take len (drop pos (contents c))"
  have len: "0 < len" "len \<le> remaining" "length out = len"
    using n(3,4) by (auto simp: len_def out_def STREAM_READ_BYTES_def contents_def)
  then have some: "out \<noteq> []" by auto
  let ?st = "st\<lparr>st_current := (if remaining - length out = 0 then None
      else Some (i, pos + length out, remaining - length out))\<rparr>"
  let ?rest = "take (remaining - len) (drop (pos + len) (contents c))"
  have split: "cur = out @ ?rest"
    using len(2) unfolding cur out_def
    by (metis add.commute drop_drop le_add_diff_inverse take_add)
  have owes: "stream_owes s ?st (?rest @ rest)"
    unfolding stream_owes_def using assms(2,3) n len
    by (intro conjI exI [of _ ?rest] exI [of _ rest]) auto
  from read_buffer_step [OF n(1,2), of pos "min remaining STREAM_READ_BYTES" short fl] show ?thesis
    unfolding len_def [symmetric] out_def [symmetric]
  proof (elim disjE exE conjE)
    fix fl'
    assume "read_buffer i pos (min remaining STREAM_READ_BYTES) short (s, fl) = (Ok out, (s, fl'))"
      and fl: "fl = [] \<longrightarrow> fl' = []"
    then have "stream_read short i pos remaining st (s, fl) = ((Some (Ok out), ?st), (s, fl'))"
      using some by (simp add: stream_read_def)
    then show ?thesis
      using fl some split owes
      by (intro disjI1 exI [of _ out] exI [of _ ?st] exI [of _ "?rest @ rest"] exI [of _ fl']) simp
  next
    fix w
    assume "read_buffer i pos (min remaining STREAM_READ_BYTES) short (s, fl) = (Err DeviceError, w)" "fl \<noteq> []"
    then show ?thesis by (simp add: stream_read_def stream_failed_def)
  qed
qed

lemma stream_step:
  assumes "stream_owes s st bs"
  shows "(mount_stream_next short st (s, fl) = ((None, st), (s, fl)) \<and> bs = [])
    \<or> (\<exists>out st' bs' fl'. mount_stream_next short st (s, fl) = ((Some (Ok out), st'), (s, fl'))
      \<and> out \<noteq> [] \<and> bs = out @ bs' \<and> stream_owes s st' bs' \<and> (fl = [] \<longrightarrow> fl' = []))
    \<or> (\<exists>e st' w'. mount_stream_next short st (s, fl) = ((Some (Err e), st'), w')
      \<and> st_finished st' \<and> fl \<noteq> [])"
proof -
  obtain cur rest where bs: "bs = cur @ rest" "current_bytes s (st_current st) cur"
      "segments_deliver s (st_segments st) rest" and fin: "\<not> st_finished st"
    using assms by (auto simp: stream_owes_def)
  show ?thesis
  proof (cases "st_current st")
    case (Some c)
    obtain i pos remaining where c: "c = (i, pos, remaining)" by (cases c)
    have next_eq: "mount_stream_next short st (s, fl) = stream_read short i pos remaining st (s, fl)"
      using fin Some c by (simp add: mount_stream_next_def)
    show ?thesis
      unfolding next_eq bs(1)
      by (rule disjI2, rule stream_read_step) (use bs fin Some c in simp_all)
  next
    case None
    show ?thesis
    proof (cases "st_segments st")
      case Nil
      then show ?thesis
        using None fin bs by (simp add: mount_stream_next_def segments_deliver_def)
    next
      case (Cons segment segments)
      obtain c where c: "file_at s (seg_path segment) = Some c" "0 < seg_length segment"
        "seg_offset segment + seg_length segment \<le> length c"
        using bs(3) Cons by (auto simp: segments_deliver_def segment_ok_def)
      obtain n f where n: "lookup s (seg_path segment) = Some n" "ftype n = Regular f" "c = contents f"
        using c(1) by (auto simp: file_at_def split: option.splits file_type.splits)
      obtain i where i: "resolve MAX_SYMLINKS s (seg_path segment) = Ok i" "inodes s i = Some n"
        using resolve_regular [OF n(1,2)] by blast
      let ?st = "st\<lparr>st_segments := segments, st_current := Some (i, seg_offset segment, seg_length segment)\<rparr>"
      let ?rest = "concat (map (segment_bytes s) segments)"
      have rest: "rest = segment_bytes s segment @ ?rest" "segments_deliver s segments ?rest"
        using bs(3) Cons by (auto simp: segments_deliver_def)
      have cur: "current_bytes s (Some (i, seg_offset segment, seg_length segment)) (segment_bytes s segment)"
        using i(2) n c by (simp add: segment_bytes_def contents_def)
      have all: "bs = segment_bytes s segment @ ?rest" using bs(1,2) None rest(1) by simp
      note next_simps = mount_stream_next_def stream_failed_def None Cons fin
      from open_step [OF i(1), of fl] show ?thesis
      proof (elim disjE exE conjE)
        fix fl'
        assume opened: "file_open (seg_path segment) (s, fl) = (Ok i, (s, fl'))" "fl = [] \<longrightarrow> fl' = []"
        from seek_step [of i "seg_offset segment" s fl'] show ?thesis
        proof (elim disjE exE conjE)
          fix fl''
          assume seeks: "seek_start i (seg_offset segment) (s, fl') = (Ok (), (s, fl''))" "fl' = [] \<longrightarrow> fl'' = []"
          have next_eq: "mount_stream_next short st (s, fl)
              = stream_read short i (seg_offset segment) (seg_length segment) ?st (s, fl'')"
            using opened seeks by (simp add: next_simps)
          have "segments_deliver s (st_segments ?st) ?rest" "\<not> st_finished ?st" using rest(2) fin by simp_all
          from stream_read_step [OF cur this, of short fl''] show ?thesis
            unfolding next_eq all using opened(2) seeks(2) by (elim disjE) (rule disjI2, fastforce)+
        next
          fix w
          assume "seek_start i (seg_offset segment) (s, fl') = (Err DeviceError, w)" "fl' \<noteq> []"
          then show ?thesis using opened by (auto simp: next_simps)
        qed
      next
        fix w
        assume "file_open (seg_path segment) (s, fl) = (Err DeviceError, w)" "fl \<noteq> []"
        then show ?thesis by (auto simp: next_simps)
      qed
    qed
  qed
qed

lemma received_simps [simp]:
  "received [] = []" "received (Ok bs # items) = bs @ received items" "received (Err e # items) = received items"
  by (simp_all add: received_def)

lemma received_map_Ok: "received (map Ok outs) = concat outs"
  by (induction outs) simp_all

lemma stream_items_finished: "st_finished st \<Longrightarrow> received (fst (stream_items shorts st w)) = []"
  by (cases shorts) (simp_all add: mount_stream_next_def)

lemma stream_items_prefix:
  "stream_owes s st bs \<Longrightarrow> prefix (received (fst (stream_items shorts st (s, fl)))) bs"
proof (induction shorts arbitrary: st bs fl)
  case Nil
  show ?case by simp
next
  case (Cons short shorts)
  from stream_step [OF Cons.prems, of short fl] show ?case
  proof (elim disjE exE conjE)
    fix out st' bs' fl'
    assume a: "mount_stream_next short st (s, fl) = ((Some (Ok out), st'), (s, fl'))"
      "bs = out @ bs'" "stream_owes s st' bs'"
    then show ?thesis
      using Cons.IH [OF a(3), of fl'] by (cases "stream_items shorts st' (s, fl')") simp
  next
    fix e st' w'
    assume a: "mount_stream_next short st (s, fl) = ((Some (Err e), st'), w')" "st_finished st'"
    then show ?thesis
      using stream_items_finished [OF a(2), of shorts w']
      by (cases "stream_items shorts st' w'") simp
  qed simp
qed

lemma stream_items_complete:
  "stream_owes s st bs \<Longrightarrow> length bs < length shorts \<Longrightarrow>
   \<exists>outs. stream_items shorts st (s, []) = (map Ok outs, True) \<and> concat outs = bs"
proof (induction shorts arbitrary: st bs)
  case (Cons short shorts)
  from stream_step [OF Cons.prems(1), of short "[]"] show ?case
  proof (elim disjE exE conjE)
    fix out st' bs' fl'
    assume a: "mount_stream_next short st (s, []) = ((Some (Ok out), st'), (s, fl'))"
      "out \<noteq> []" "bs = out @ bs'" "stream_owes s st' bs'" "[] = [] \<longrightarrow> fl' = []"
    then have "length bs' < length shorts"
      using Cons.prems(2) by (cases out) auto
    then obtain outs where "stream_items shorts st' (s, []) = (map Ok outs, True)" "concat outs = bs'"
      using Cons.IH [OF a(4)] by blast
    then show ?thesis
      using a by (intro exI [of _ "out # outs"]) simp
  qed auto
qed simp

lemma stream_start_owes: "segments_deliver s segments bs \<Longrightarrow> stream_owes s (stream_start segments) bs"
  by (simp add: stream_owes_def stream_start_def)

section \<open>Verified objects\<close>

text \<open>\<open>data\<close> is the object of the payload record, as far as the range needs it.\<close>

definition stored_object ::
  "storage_lib \<Rightarrow> StorageLayout \<Rightarrow> PayloadRecord \<Rightarrow> MountPayloadPartRecord list \<Rightarrow> nat \<Rightarrow> nat \<Rightarrow> fs \<Rightarrow> bytes \<Rightarrow> bool" where
  "stored_object L root payload parts a b s data \<longleftrightarrow>
     u64_try_from (pay_size_bytes payload) = Some (length data)
     \<and> (\<exists>p w w'. payload_path L root payload w = (Ok p, w')
        \<and> (if pay_layout payload = ''whole''
           then file_at s p = Some data \<and> pay_blake3 payload = Some (blake3 L data)
           else \<exists>chunks. collect_ok mount_base_chunk parts = Ok chunks \<and> stored_chunks L s p a b 0 chunks data))"

lemma io_then_Ok: "io_then m f w = (Ok x, w') \<longleftrightarrow> (\<exists>y v. m w = (Ok y, v) \<and> f y v = (Ok x, w'))"
  by (auto simp: io_then_def split: prod.splits result.splits)

lemma lift_result_Ok: "lift_result r w = (Ok x, w') \<longleftrightarrow> r = Ok x \<and> w' = w"
  by (cases r) (auto simp: lift_result_def ret_def stop_with_def)

lemma fail_not_Ok: "stop_with e w \<noteq> (Ok x, w')"
  by (simp add: stop_with_def)

lemmas run_simps = io_then_Ok lift_result_Ok fail_not_Ok result_simps

lemma size_below_max: "u64_try_from (v :: i64) = Some sz \<Longrightarrow> b < sz \<Longrightarrow> Suc b \<le> U64_MAX"
  using sint_lt [of v] by (auto simp: u64_try_from_Some U64_MAX_def)

lemma whole_segments_deliver:
  assumes "verified_whole_object_segment L root payload a b w = (Ok segments, (s, fl))"
    and sz: "u64_try_from (pay_size_bytes payload) = Some sz" "b < sz"
  shows "\<exists>data. stored_object L root payload parts a b s data \<and> segments_deliver s segments (range_of a b 0 data)"
proof -
  obtain digest p v where d: "pay_layout payload = ''whole''" "pay_blake3 payload = Some digest"
      "payload_path L root payload w = (Ok p, v)"
    and run: "io_then (verify_file L p sz digest) (\<lambda>_.
        if sz = 0 then ret []
        else if a > b \<or> b \<ge> sz then fail StateConflict
        else ret [\<lparr>seg_path = p, seg_offset = a, seg_length = b - a + 1\<rparr>]) v = (Ok segments, (s, fl))"
    using assms by (auto simp: verified_whole_object_segment_def run_simps digest_32_def split: if_splits)
  obtain v' where v': "verify_file L p sz digest v = (Ok (), v')" "a \<le> b"
      "segments = [\<lparr>seg_path = p, seg_offset = a, seg_length = b - a + 1\<rparr>]" "v' = (s, fl)"
    using run sz(2) by (auto simp: run_simps ret_def split: if_splits)
  obtain data where data: "file_at s p = Some data" "length data = sz" "blake3 L data = digest"
    using readsD [OF reads_verify_file, of L p sz digest "fst v" "snd v" "()" s fl] v'(1,4) by auto
  have "segments_deliver s segments (range_of a b 0 data)"
    using v'(2,3) data(1,2) sz(2)
    by (simp add: segments_deliver_def segment_ok_def segment_bytes_def range_of_def Suc_diff_le)
  moreover have "stored_object L root payload parts a b s data"
    unfolding stored_object_def
    by (intro conjI exI [of _ p] exI [of _ w] exI [of _ v]) (use d data sz(1) in simp_all)
  ultimately show ?thesis by blast
qed

lemma chunked_segments_deliver:
  assumes "verified_chunked_object_segments L root payload chunks a b w = (Ok segments, (s, fl))"
    and sz: "u64_try_from (pay_size_bytes payload) = Some sz" "b < sz"
    and chunks: "collect_ok mount_base_chunk parts = Ok chunks"
  shows "\<exists>data. stored_object L root payload parts a b s data \<and> segments_deliver s segments (range_of a b 0 data)"
proof -
  obtain p u v where d: "pay_layout payload = ''chunked''" "payload_path L root payload w = (Ok p, u)"
      "verify_directory p u = (Ok (), v)"
    and run: "download_chunks L p sz a b 0 chunks 0 v = (Ok (segments, sz), (s, fl))"
    using assms(1-3)
    by (auto simp: verified_chunked_object_segments_def run_simps ret_def split: if_splits prod.splits)
  obtain data where "stored_chunks L s p a b 0 chunks data" "sz = length data"
      "segments_deliver s segments (range_of a b 0 data)"
    using readsD [OF reads_download_chunks [OF size_below_max [OF sz]], of L p sz a 0 chunks 0 "fst v" "snd v"] run
    by fastforce
  moreover from this have "stored_object L root payload parts a b s data"
    unfolding stored_object_def
    by (intro conjI exI [of _ p] exI [of _ w] exI [of _ u]) (use d sz(1) chunks in simp_all)
  ultimately show ?thesis by blast
qed

lemma payload_segments_deliver:
  assumes "payload_segments L state payload parts a b w = (Ok segments, (s, fl))"
    and "u64_try_from (pay_size_bytes payload) = Some sz" and "b < sz"
  shows "\<exists>data. stored_object L (storage state) payload parts a b s data
    \<and> segments_deliver s segments (range_of a b 0 data)"
proof (cases "pay_layout payload = ''whole''")
  case True
  then show ?thesis using assms whole_segments_deliver by (simp add: payload_segments_def)
next
  case False
  then obtain chunks where "collect_ok mount_base_chunk parts = Ok chunks"
      "verified_chunked_object_segments L (storage state) payload chunks a b w = (Ok segments, (s, fl))"
    using assms(1) by (auto simp: payload_segments_def io_then_Ok lift_result_Ok)
  then show ?thesis using assms(2,3) chunked_segments_deliver by blast
qed

section \<open>Mount downloads\<close>

text \<open>
  The stream of the segments delivers the bytes: whatever the reads return and whichever of them
  fail, what the client has received is a prefix, and without failures one poll more than there
  are bytes delivers all of them and ends the stream.
\<close>

definition stream_delivers :: "fs \<Rightarrow> DownloadSegment list \<Rightarrow> bytes \<Rightarrow> bool" where
  "stream_delivers s segments bs \<longleftrightarrow>
     (\<forall>shorts fl. prefix (received (fst (stream_items shorts (stream_start segments) (s, fl)))) bs)
     \<and> (\<forall>shorts. length bs < length shorts \<longrightarrow>
          (\<exists>outs. stream_items shorts (stream_start segments) (s, []) = (map Ok outs, True) \<and> concat outs = bs))"

lemma segments_stream_delivers:
  assumes "segments_deliver s segments bs" and "\<forall>p. file_at s' p = file_at s p"
  shows "stream_delivers s' segments bs"
proof -
  have "segment_bytes s' = segment_bytes s" "segment_ok s' = segment_ok s"
    using assms(2) by (simp_all add: segment_bytes_def segment_ok_def fun_eq_iff)
  then have "stream_owes s' (stream_start segments) bs"
    using assms(1) by (intro stream_start_owes) (simp add: segments_deliver_def)
  then show ?thesis
    unfolding stream_delivers_def by (blast intro: stream_items_prefix stream_items_complete)
qed

lemma h_then_Ok: "h_then m f st = (Ok x, st') \<longleftrightarrow> (\<exists>y v. m st = (Ok y, v) \<and> f y v = (Ok x, st'))"
  by (auto simp: h_then_def split: prod.splits result.splits)

lemma h_result_Ok: "h_result r st = (Ok x, st') \<longleftrightarrow> r = Ok x \<and> st' = st"
  by (auto simp: h_result_def)

lemma h_blocking_Ok: "h_blocking m st = (Ok x, st') \<longleftrightarrow> m (snd st) = (Ok x, snd st') \<and> fst st' = fst st"
  by (cases st; cases st') (auto simp: h_blocking_def split: prod.splits result.splits stop.splits)

text \<open>What a response with a stream is entitled to deliver.\<close>

definition granted_download ::
  "worker_lib \<Rightarrow> storage_lib \<Rightarrow> AppState \<Rightarrow> AuthorizedMountRead \<Rightarrow> Response \<Rightarrow> DownloadSegment list \<Rightarrow> fs \<Rightarrow> bytes \<Rightarrow> bool" where
  "granted_download W L state authorized response segments s data \<longleftrightarrow>
     (let start = unat (mnt_range_start (mr_claims authorized));
          limit = min (unat (mnt_range_end (mr_claims authorized))) (length data - 1) in
      start < length data
      \<and> (\<exists>payload parts.
           pay_state payload = ''referenced'' \<and> pay_backend_id payload = app_backend_id state
           \<and> pay_drive_id payload = rf_drive_id (mr_fence authorized)
           \<and> stored_object L (storage state) payload parts start limit s data)
      \<and> map_of (resp_headers response) ''content-length'' = Some (decimal (limit - start + 1))
      \<and> (\<forall>s'. (\<forall>p. file_at s' p = file_at s p) \<longrightarrow>
           stream_delivers s' segments (take (limit - start + 1) (drop start data))))"

lemma payload_segments_ordered:
  assumes "payload_segments L state payload parts a b w = (Ok segments, v)"
    and "u64_try_from (pay_size_bytes payload) = Some sz" and "b < sz"
  shows "a \<le> b"
  using assms
  by (auto simp: payload_segments_def verified_whole_object_segment_def verified_chunked_object_segments_def
      run_simps not_less split: if_splits)


text \<open>A concrete object of forty bytes and a request for eight of them.\<close>

definition read_claims :: MountCapabilityClaims where
  "read_claims = sample_mount_claims
     \<lparr>mnt_audience := CAPABILITY_AUDIENCE,
      mnt_operation := mount_operation_as_i32 MountCapabilityOperation.Read,
      mnt_write_session_id := [], mnt_range_start := 3, mnt_range_end := 10, mnt_content_blake3 := []\<rparr>"

definition read_lib :: worker_lib where
  "read_lib =
     \<lparr>caps = sample_lib\<lparr>decode_mount_claims := (\<lambda>b. if b = ''mount'' then Some read_claims else None)\<rparr>,
      header_to_str = Some\<rparr>"

definition read_state :: AppState where
  "read_state =
     \<lparr>storage = sample_root, api_storage_keys = sample_keyset, collaboration_storage_keys = None,
      document_storage_keys = None, revision_storage_keys = None, mount_storage_keys = Some sample_keyset,
      app_tenant_id = 42, app_backend_id = 5, worker_id = 6, chunk_size = 8\<rparr>"

definition read_data :: bytes where
  "read_data = replicate 40 (CHR ''a'')"

definition read_payload :: PayloadRecord where
  "read_payload =
     \<lparr>pay_tenant_id = 42, pay_payload_id = 9, pay_drive_id = 42, pay_backend_id = 5, pay_locator = 7,
      pay_layout = ''whole'', pay_state = ''referenced'', pay_size_bytes = 40,
      pay_blake3 = Some (take 32 read_data)\<rparr>"

definition read_fs :: fs where
  "read_fs = sample_fs
     \<lparr>names := ([''data'', ''whole'', ''00'', ''00'', ''7''], 13) # ([''data'', ''whole'', ''00''], 11)
        # ([''data'', ''whole'', ''00'', ''00''], 12) # names sample_fs,
      inodes := (\<lambda>i. if i = 13
        then Some \<lparr>ftype = Regular (map Data read_data), perm = 0x180, owner_uid = 1000\<rparr>
        else if i < 13 then Some \<lparr>ftype = Directory, perm = 0x1C0, owner_uid = 1000\<rparr> else None),
      next_ino := 14\<rparr>"

definition read_database :: "unit read_env" where
  "read_database =
     \<lparr>db_payload = (\<lambda>_ _ st. (Ok read_payload, st)),
      db_payload_for_node = (\<lambda>_ _ _ st. (Ok read_payload, st)),
      db_payload_parts_for_mount_read = (\<lambda>_ _ st. (Ok [], st)),
      db_upload_for_payload = (\<lambda>_ _ st. (Err DatabaseError.NotFound, st)),
      db_upload_parts = (\<lambda>_ _ st. (Err DatabaseError.NotFound, st)),
      db_collaboration_object = (\<lambda>_ _ st. (Err DatabaseError.NotFound, st)),
      db_admit_mount_read_capability = (\<lambda>_ st. (Ok (), st)),
      db_consume_capability_nonce = (\<lambda>_ _ _ _ st. (Ok (), st)),
      db_authorization_generations_match = (\<lambda>_ _ _ _ _ _ _ _ _ st. (Ok True, st))\<rparr>"

definition read_wire :: string where
  "read_wire = ''fbcap2.'' @ b64_encode (encode_signed_mount sample_lib
     \<lparr>sm_key_generation = 7, sm_claims = ''mount'',
      sm_signature = ed25519_sign sample_lib ''key'' (MOUNT_CAPABILITY_SIGNATURE_DOMAIN @ ''mount'')\<rparr>)"

definition read_segments :: "DownloadSegment list" where
  "read_segments =
     [\<lparr>seg_path = [''data'', ''whole'', ''00'', ''00'', ''7''], seg_offset = 3, seg_length = 8\<rparr>]"

definition read_headers :: HeaderMap where
  "read_headers h = (if h = ''authorization'' then Some read_wire else None)"

lemma read_wire_found: "mount_capability_wire read_lib read_headers = Some read_wire"
  by code_simp

lemma read_verified: "verify_mount_storage_read_capability (caps read_lib) read_wire sample_keyset CAPABILITY_AUDIENCE 1003
   = Ok \<lparr>verified_claims = read_claims, verified_generation = 7\<rparr>"
  by code_simp

definition read_authorized :: AuthorizedMountRead where
  "read_authorized = \<lparr>mr_claims = read_claims, mr_fence = \<lparr>rf_tenant_id = 42, rf_principal_id = 42,
       rf_mount_session_id = 42, rf_credential_id = 42,
       rf_handle_id = 42, rf_drive_id = 42, rf_node_id = 42, rf_version_id = 42,
       rf_credential_generation = 1, rf_authorization_generation = 1, rf_membership_generation = 1,
       rf_drive_acl_generation = 1, rf_namespace_generation = 1, rf_resource_acl_generation = 1,
       rf_gateway_epoch = 1\<rparr>\<rparr>"

lemma read_fence: "mount_read_fence read_lib read_claims = Ok (mr_fence read_authorized)"
  by (simp add: mount_read_fence_def read_authorized_def parse_required_mount_uuid_def parse_required_uuid_def
      mount_generation_def i64_from_u64_def read_claims_def sample_mount_claims_def read_lib_def sample_lib_def)

lemma read_authorized_Ok: "authorize_mount_read read_lib (Some 1003) read_state read_headers = Ok read_authorized"
proof -
  have s: "mount_storage_keys read_state = Some sample_keyset" "app_tenant_id read_state = rf_tenant_id (mr_fence read_authorized)"
    "unix_time_now (Some 1003) = Ok 1003" "mr_claims read_authorized = read_claims"
    by (simp_all add: read_state_def read_authorized_def unix_time_now_def)
  show ?thesis
    unfolding authorize_mount_read_def read_wire_found s
    by (simp add: read_verified read_fence Let_def) (simp add: read_authorized_def)
qed

lemma read_payload_segments: "fst (payload_segments exact_lib read_state read_payload [] 3 10 (read_fs, [])) = Ok read_segments"
  by code_simp
lemma sample_mount_read:
  "\<exists>st'. mount_download read_lib exact_lib (Some 1003) read_state read_database sample_uuid_text read_headers
     ((), (read_fs, [])) = (Ok (mount_response (decimal 8) (MountStream read_segments)), st')"
proof -
  obtain v where v: "payload_segments exact_lib read_state read_payload [] 3 10 (read_fs, []) = (Ok read_segments, v)"
    using read_payload_segments by (metis prod.collapse)
  have "path_uuid read_lib sample_uuid_text code ((), w) = (Ok 42, ((), w))" for code w
    by (simp add: path_uuid_def h_result_def read_lib_def sample_lib_def)
  moreover have "parse_required_uuid read_lib (mnt_grant_id read_claims) = Ok 42"
    by (simp add: parse_required_uuid_def read_lib_def sample_lib_def read_claims_def sample_mount_claims_def)
  moreover have "rf_handle_id (mr_fence read_authorized) = 42" "rf_drive_id (mr_fence read_authorized) = 42"
      "mr_claims read_authorized = read_claims" "app_backend_id read_state = 5"
    by (simp_all add: read_authorized_def read_state_def)
  moreover have "unat (mnt_range_start read_claims) = 3" "unat (mnt_range_end read_claims) = 10"
    by (simp_all add: read_claims_def)
  moreover have "u64_try_from (pay_size_bytes read_payload) = Some 40" "pay_state read_payload = ''referenced''"
      "pay_backend_id read_payload = 5" "pay_drive_id read_payload = 42"
    by (simp_all add: read_payload_def u64_try_from_def)
  ultimately show ?thesis
    by (simp add: mount_download_def h_then_def h_result_def read_authorized_Ok Let_def payload_size_def h_db_def
        consume_mount_nonce_def h_query_def read_database_def h_blocking_def v result_simps)
qed


end
