(* ===== verification/Upload.thy ===== *)
theory Upload
  imports Download_Correct
begin

text \<open>
  The upload path of the storage worker (\<open>upload_part\<close>, \<open>write_revision_chunk\<close>, \<open>finalize_upload\<close>
  and what they call in \<open>source/apps/filebelt-worker-io/src/main.rs\<close>): the request body is written
  to a temporary file while it is hashed, published as a staged part, and the staged parts are
  assembled into the final object under a lease of the database. The database calls extend the
  environment of the read handlers.
\<close>

section \<open>Receiving a body\<close>

text \<open>\<open>str::parse::<i32>\<close> and \<open>i32::try_from\<close> of a \<open>u64\<close>.\<close>

definition parse_i32 :: "string \<Rightarrow> i32 option" where
  "parse_i32 s =
     (let (negative, digits) =
        (case s of
           c # r \<Rightarrow> if c = CHR ''-'' then (True, r) else if c = CHR ''+'' then (False, r) else (False, s)
         | [] \<Rightarrow> (False, s));
          value = (if negative then - decimal_value digits else decimal_value digits) in
      if digits = [] \<or> \<not> list_all is_ascii_digit digits then None
      else if - (2 ^ 31) \<le> value \<and> value < 2 ^ 31 then Some (word_of_int value)
      else None)"

definition i32_try_from :: "nat \<Rightarrow> i32 option" where
  "i32_try_from n = (if n < 2 ^ 31 then Some (of_nat n) else None)"

text \<open>
  The loop over the stream: a chunk is \<open>None\<close> when the transport failed. What was received so far
  is the hasher's input, and its length the position in the file.
\<close>

fun receive_body ::
  "ino \<Rightarrow> nat \<Rightarrow> bytes option list \<Rightarrow> bytes \<Rightarrow> world \<Rightarrow> (bytes, AppError) result \<times> world" where
  "receive_body i expected_size [] so_far w =
     (if length so_far \<noteq> expected_size then (Err (AppError.Conflict ''part_size_mismatch''), w)
      else case sync_all i w of (r, w') \<Rightarrow> (map_ok (\<lambda>_. so_far) (map_err (\<lambda>_. Internal) r), w'))"
| "receive_body i expected_size (None # stream) so_far w = (Err (BadRequest ''invalid_request_body''), w)"
| "receive_body i expected_size (Some chunk # stream) so_far w =
     (case u64_checked_add (length so_far) (length chunk) of
        None \<Rightarrow> (Err (BadRequest ''part_too_large''), w)
      | Some sz \<Rightarrow>
          if sz > expected_size then (Err (AppError.Conflict ''part_size_mismatch''), w)
          else
            case write_all i (length so_far) chunk w of
              (Ok _, w') \<Rightarrow> receive_body i expected_size stream (so_far @ chunk) w'
            | (Err _, w') \<Rightarrow> (Err Internal, w'))"

text \<open>\<open>OpenOptions\<close> creates with mode 0666 and the mode is narrowed to 0600 afterwards.\<close>

definition write_body ::
  "storage_lib \<Rightarrow> bytes option list \<Rightarrow> path \<Rightarrow> nat \<Rightarrow> ('e, nat \<times> bytes) handler" where
  "write_body L body p expected_size st =
     (case st of (e, w) \<Rightarrow>
        (case open_create_new p 0x1B6 w of
           (Err _, w') \<Rightarrow> (Err (AppError.Conflict ''part_write_in_progress''), (e, w'))
         | (Ok i, w') \<Rightarrow>
             (case fchmod i 0x180 w' of
                (Err _, w'') \<Rightarrow> (Err Internal, (e, w''))
              | (Ok _, w'') \<Rightarrow>
                  (case receive_body i expected_size body [] w'' of
                     (Ok bs, v) \<Rightarrow> (Ok (length bs, blake3 L bs), (e, v))
                   | (Err err, v) \<Rightarrow> (Err err, (e, snd (remove_file p v)))))))"

definition check_content_length ::
  "worker_lib \<Rightarrow> HeaderMap \<Rightarrow> nat \<Rightarrow> string \<Rightarrow> (unit, AppError) result" where
  "check_content_length W headers expected_size code =
     (if headers ''content-length'' = None then Ok ()
      else
        and_then (ok_or (Option.bind (header_str W headers ''content-length'') parse_u64)
          (BadRequest ''invalid_content_length'')) (\<lambda>len.
        if len \<noteq> expected_size then Err (AppError.Conflict code) else Ok ()))"

section \<open>Parts\<close>

record 'e upload_env = "'e read_env" +
  db_upload :: "uuid \<Rightarrow> uuid \<Rightarrow> 'e \<times> world \<Rightarrow> (UploadRecord, DatabaseError) result \<times> ('e \<times> world)"
  db_upload_part :: "uuid \<Rightarrow> uuid \<Rightarrow> i32 \<Rightarrow> 'e \<times> world \<Rightarrow> (UploadPartRecord, DatabaseError) result \<times> ('e \<times> world)"
  db_mark_part_durable ::
    "uuid \<Rightarrow> uuid \<Rightarrow> i32 \<Rightarrow> i64 \<Rightarrow> i32 \<Rightarrow> bytes \<Rightarrow> 'e \<times> world \<Rightarrow> (unit, DatabaseError) result \<times> ('e \<times> world)"
  db_claim_upload_finalization ::
    "uuid \<Rightarrow> uuid \<Rightarrow> i64 \<Rightarrow> uuid \<Rightarrow> i64 \<Rightarrow> 'e \<times> world \<Rightarrow> (unit, DatabaseError) result \<times> ('e \<times> world)"
  db_heartbeat_upload_finalization ::
    "uuid \<Rightarrow> uuid \<Rightarrow> i64 \<Rightarrow> uuid \<Rightarrow> i64 \<Rightarrow> 'e \<times> world \<Rightarrow> (unit, DatabaseError) result \<times> ('e \<times> world)"
  db_abort_upload_finalization ::
    "uuid \<Rightarrow> uuid \<Rightarrow> i64 \<Rightarrow> uuid \<Rightarrow> 'e \<times> world \<Rightarrow> (unit, DatabaseError) result \<times> ('e \<times> world)"
  db_mark_upload_finalized ::
    "uuid \<Rightarrow> uuid \<Rightarrow> i64 \<Rightarrow> uuid \<Rightarrow> bytes \<Rightarrow> 'e \<times> world \<Rightarrow> (unit, DatabaseError) result \<times> ('e \<times> world)"
  db_mark_upload_staging_cleaned ::
    "uuid \<Rightarrow> uuid \<Rightarrow> 'e \<times> world \<Rightarrow> (unit, DatabaseError) result \<times> ('e \<times> world)"
  finalization_ticks :: "'e \<times> world \<Rightarrow> nat"

record PartResult =
  part_res_upload_id :: uuid
  part_res_part_number :: i32
  part_res_size_bytes :: nat
  part_res_blake3 :: string

text \<open>Everything before the capability is used up: the part to write and its expected size.\<close>

definition admitted_part ::
  "worker_lib \<Rightarrow> u64 option \<Rightarrow> AppState \<Rightarrow> 'e upload_env \<Rightarrow> string \<Rightarrow> string \<Rightarrow> HeaderMap
     \<Rightarrow> ('e, uuid \<times> i32 \<times> AuthorizedCapability \<times> UploadPartRecord \<times> nat) handler" where
  "admitted_part W seconds state D upload_text part_text headers =
     h_then (path_uuid W upload_text ''invalid_upload_id'') (\<lambda>upload_id.
     h_then (h_result (ok_or (parse_i32 part_text) (BadRequest ''invalid_part_number''))) (\<lambda>n.
     if sint n < 0 then h_result (Err (BadRequest ''invalid_part_number''))
     else
       h_then (h_result (authorize W seconds state headers CapabilityOperation.UploadPart)) (\<lambda>authorized.
       h_then (h_result (parse_required_uuid W (cap_upload_id (auth_claims authorized)))) (\<lambda>claim_upload.
       h_then (h_result (parse_required_uuid W (cap_payload_id (auth_claims authorized)))) (\<lambda>claim_payload.
       if claim_upload \<noteq> upload_id \<or> u64_try_from n \<noteq> Some (unat (cap_part_number (auth_claims authorized)))
       then h_result (Err Forbidden)
       else
         h_then (h_db (db_upload D (auth_tenant_id authorized) upload_id)) (\<lambda>upload.
         h_then (h_result (validate_upload_capability authorized upload claim_payload (app_backend_id state))) (\<lambda>_.
         h_then (check_generations (read_env.truncate D) authorized (up_drive_id upload)) (\<lambda>_.
         h_then (h_result (expected_part_size upload n)) (\<lambda>expected_size.
         if unat (cap_range_start (auth_claims authorized)) \<noteq> 0
            \<or> expected_size > 0 \<and> unat (cap_range_end (auth_claims authorized)) \<noteq> expected_size - 1
            \<or> expected_size = 0 \<and> unat (cap_range_end (auth_claims authorized)) \<noteq> 0
         then h_result (Err Forbidden)
         else
           h_then (h_result (check_content_length W headers expected_size ''part_size_mismatch'')) (\<lambda>_.
           h_then (h_db (db_upload_part D (auth_tenant_id authorized) upload_id n)) (\<lambda>part.
           if up_state upload \<noteq> ''open'' \<or> part_locator part = 0
           then h_result (Err (AppError.Conflict ''upload_not_open''))
           else h_result (Ok (upload_id, n, authorized, part, expected_size)))))))))))))"

definition upload_part ::
  "worker_lib \<Rightarrow> storage_lib \<Rightarrow> u64 option \<Rightarrow> AppState \<Rightarrow> 'e upload_env \<Rightarrow> string \<Rightarrow> string \<Rightarrow> HeaderMap
     \<Rightarrow> bytes option list \<Rightarrow> ('e, PartResult) handler" where
  "upload_part W L seconds state D upload_text part_text headers body =
     h_then (admitted_part W seconds state D upload_text part_text headers) (\<lambda>(upload_id, n, authorized, part, expected_size).
     h_then (consume_nonce W (read_env.truncate D) authorized ''upload_part'') (\<lambda>_.
     h_then (h_blocking (staging_temporary_path L (storage state) (part_locator part) (auth_capability_id authorized))) (\<lambda>temporary.
     h_then (write_body L body temporary expected_size) (\<lambda>(sz, digest).
     h_then (h_blocking (publish_staging_part L (storage state) temporary (part_locator part) sz digest)) (\<lambda>_.
     h_then (h_result (ok_or (i64_from_u64 (cap_fencing_token (auth_claims authorized))) Forbidden)) (\<lambda>fencing_token.
     h_then (h_result (ok_or (i32_try_from sz) (AppError.Conflict ''part_too_large''))) (\<lambda>size_bytes.
     h_then (h_db (db_mark_part_durable D (auth_tenant_id authorized) upload_id n fencing_token size_bytes digest)) (\<lambda>_.
     h_result (Ok \<lparr>part_res_upload_id = upload_id, part_res_part_number = n, part_res_size_bytes = sz,
       part_res_blake3 = hex_digest digest\<rparr>)))))))))"

text \<open>The answer is the chunk, its drive, its size, the digest in hexadecimal and the state.\<close>

definition write_revision_chunk ::
  "worker_lib \<Rightarrow> storage_lib \<Rightarrow> u64 option \<Rightarrow> AppState \<Rightarrow> 'e upload_env \<Rightarrow> string \<Rightarrow> HeaderMap \<Rightarrow> bytes option list
     \<Rightarrow> ('e, uuid \<times> uuid \<times> nat \<times> string \<times> string) handler" where
  "write_revision_chunk W L seconds state D chunk_text headers body =
     h_then (path_uuid W chunk_text ''invalid_chunk_id'') (\<lambda>chunk_id.
     h_then (h_result (authorize W seconds state headers CapabilityOperation.WriteRevisionChunk)) (\<lambda>authorized.
     h_then (h_result (revision_chunk_locator W authorized chunk_id)) (\<lambda>locator.
     h_then (h_result (check_content_length W headers (loc_size locator) ''revision_chunk_size_mismatch'')) (\<lambda>_.
     h_then (consume_nonce W (read_env.truncate D) authorized ''revision_write_chunk'') (\<lambda>_.
     h_then (h_blocking (revision_chunk_staging_path L (storage state) (loc_drive_id locator)
       (auth_capability_id authorized))) (\<lambda>temporary.
     h_then (write_body L body temporary (loc_size locator)) (\<lambda>(sz, digest).
     if sz \<noteq> loc_size locator \<or> digest \<noteq> loc_digest locator
     then (\<lambda>(e, w). (Err (AppError.Conflict ''revision_chunk_digest_mismatch''), (e, snd (remove_file temporary w))))
     else
       h_then (h_blocking (publish_revision_chunk L (storage state) temporary locator)) (\<lambda>_.
       h_result (Ok (chunk_id, loc_drive_id locator, loc_size locator, hex_digest (loc_digest locator),
         ''durable''))))))))))"

section \<open>Finalization\<close>

definition FINALIZATION_LEASE_SECONDS :: i64 where
  "FINALIZATION_LEASE_SECONDS = 120"

record FinalizeResult =
  fin_res_upload_id :: uuid
  fin_res_payload_id :: uuid
  fin_res_size_bytes :: nat
  fin_res_blake3 :: string
  fin_res_state :: string

text \<open>
  A failed heartbeat is only logged: the lease is checked when the result is recorded. The ticks
  that fire while the storage works are up to the environment.
\<close>

fun finalization_heartbeats ::
  "'e upload_env \<Rightarrow> AuthorizedCapability \<Rightarrow> uuid \<Rightarrow> i64 \<Rightarrow> nat \<Rightarrow> 'e \<times> world \<Rightarrow> 'e \<times> world" where
  "finalization_heartbeats D authorized upload_id fencing_token 0 st = st"
| "finalization_heartbeats D authorized upload_id fencing_token (Suc n) st =
     finalization_heartbeats D authorized upload_id fencing_token n
       (snd (db_heartbeat_upload_finalization D (auth_tenant_id authorized) upload_id fencing_token
          (auth_capability_id authorized) FINALIZATION_LEASE_SECONDS st))"

definition clean_staging ::
  "storage_lib \<Rightarrow> AppState \<Rightarrow> 'e upload_env \<Rightarrow> AuthorizedCapability \<Rightarrow> uuid \<Rightarrow> UploadPartRecord list
     \<Rightarrow> 'e \<times> world \<Rightarrow> 'e \<times> world" where
  "clean_staging L state D authorized upload_id parts st =
     (case h_blocking (remove_staging_parts L (storage state) parts) st of
        (Err _, st') \<Rightarrow> st'
      | (Ok _, st') \<Rightarrow> snd (db_mark_upload_staging_cleaned D (auth_tenant_id authorized) upload_id st'))"

definition finish_upload_finalization_inner ::
  "storage_lib \<Rightarrow> AppState \<Rightarrow> 'e upload_env \<Rightarrow> AuthorizedCapability \<Rightarrow> uuid \<Rightarrow> i64 \<Rightarrow> ('e, FinalizeResult) handler" where
  "finish_upload_finalization_inner L state D authorized upload_id fencing_token =
     h_then (h_db (db_upload D (auth_tenant_id authorized) upload_id)) (\<lambda>upload.
     h_then (h_db (db_upload_parts D (auth_tenant_id authorized) upload_id)) (\<lambda>parts.
     h_then (h_db (db_payload D (auth_tenant_id authorized) (up_payload_id upload))) (\<lambda>payload.
     if up_state upload \<noteq> ''finalizing'' \<or> up_fencing_token upload \<noteq> fencing_token
        \<or> pay_state payload \<noteq> ''finalizing'' \<or> pay_backend_id payload \<noteq> app_backend_id state
     then h_result (Err (AppError.Conflict ''payload_not_finalizing''))
     else
       h_then (\<lambda>st. (Ok (), finalization_heartbeats D authorized upload_id fencing_token (finalization_ticks D st) st)) (\<lambda>_.
       h_then (h_blocking (finalize L (storage state) upload payload parts (auth_capability_id authorized))) (\<lambda>finalized.
       h_then (check_generations (read_env.truncate D) authorized (up_drive_id upload)) (\<lambda>_.
       h_then (h_db (db_mark_upload_finalized D (auth_tenant_id authorized) upload_id fencing_token
         (auth_capability_id authorized) (fin_digest finalized))) (\<lambda>_.
       h_then (\<lambda>st. (Ok (), clean_staging L state D authorized upload_id parts st)) (\<lambda>_.
       h_result (Ok \<lparr>fin_res_upload_id = upload_id, fin_res_payload_id = up_payload_id upload,
         fin_res_size_bytes = fin_size finalized, fin_res_blake3 = hex_digest (fin_digest finalized),
         fin_res_state = ''finalized''\<rparr>)))))))))"

definition finish_upload_finalization ::
  "storage_lib \<Rightarrow> AppState \<Rightarrow> 'e upload_env \<Rightarrow> AuthorizedCapability \<Rightarrow> uuid \<Rightarrow> i64 \<Rightarrow> ('e, FinalizeResult) handler" where
  "finish_upload_finalization L state D authorized upload_id fencing_token st =
     (case finish_upload_finalization_inner L state D authorized upload_id fencing_token st of
        (Ok x, st') \<Rightarrow> (Ok x, st')
      | (Err e, st') \<Rightarrow>
          (Err e, snd (db_abort_upload_finalization D (auth_tenant_id authorized) upload_id fencing_token
                         (auth_capability_id authorized) st')))"

text \<open>The spawned task sends its result back; the handler waits for it.\<close>

definition finalize_upload ::
  "worker_lib \<Rightarrow> storage_lib \<Rightarrow> u64 option \<Rightarrow> AppState \<Rightarrow> 'e upload_env \<Rightarrow> string \<Rightarrow> HeaderMap
     \<Rightarrow> ('e, FinalizeResult) handler" where
  "finalize_upload W L seconds state D upload_text headers =
     h_then (path_uuid W upload_text ''invalid_upload_id'') (\<lambda>upload_id.
     h_then (h_result (authorize W seconds state headers CapabilityOperation.FinalizeUpload)) (\<lambda>authorized.
     h_then (h_result (parse_required_uuid W (cap_upload_id (auth_claims authorized)))) (\<lambda>claim_upload.
     h_then (h_result (parse_required_uuid W (cap_payload_id (auth_claims authorized)))) (\<lambda>claim_payload.
     if claim_upload \<noteq> upload_id then h_result (Err Forbidden)
     else
       h_then (h_db (db_upload D (auth_tenant_id authorized) upload_id)) (\<lambda>upload.
       h_then (h_result (validate_upload_capability authorized upload claim_payload (app_backend_id state))) (\<lambda>_.
       h_then (check_generations (read_env.truncate D) authorized (up_drive_id upload)) (\<lambda>_.
       h_then (consume_nonce W (read_env.truncate D) authorized ''finalize_upload'') (\<lambda>_.
       h_then (h_result (ok_or (i64_from_u64 (cap_fencing_token (auth_claims authorized))) Forbidden)) (\<lambda>fencing_token.
       h_then (h_db (db_claim_upload_finalization D (auth_tenant_id authorized) upload_id fencing_token
         (auth_capability_id authorized) FINALIZATION_LEASE_SECONDS)) (\<lambda>_.
       finish_upload_finalization L state D authorized upload_id fencing_token))))))))))"

section \<open>What is stored\<close>

lemma receive_body_Ok:
  "receive_body i n body so_far w = (Ok bs, w') \<Longrightarrow>
     \<exists>chunks. body = map Some chunks \<and> bs = so_far @ concat chunks \<and> length bs = n"
proof (induction i n body so_far w rule: receive_body.induct)
  case (3 i n chunk stream so_far w)
  obtain sz v where "u64_checked_add (length so_far) (length chunk) = Some sz" "\<not> n < sz"
      "write_all i (length so_far) chunk w = (Ok (), v)" "receive_body i n stream (so_far @ chunk) v = (Ok bs, w')"
    using "3.prems" by (auto split: option.splits if_splits prod.splits result.splits)
  with "3.IH" obtain chunks where "stream = map Some chunks" "bs = (so_far @ chunk) @ concat chunks" "length bs = n"
    by fastforce
  then show ?case by (intro exI [of _ "chunk # chunks"]) simp
qed (auto simp: result_simps split: if_splits prod.splits)

lemma write_body_Ok:
  assumes "write_body L body p n st = (Ok (sz, digest), st')"
  shows "\<exists>chunks. body = map Some chunks \<and> sz = n \<and> length (concat chunks) = n \<and> digest = blake3 L (concat chunks)"
  using assms
  by (auto simp: write_body_def split: prod.splits result.splits dest!: receive_body_Ok)

definition shard_path :: "storage_lib \<Rightarrow> StorageLayout \<Rightarrow> string \<Rightarrow> uuid \<Rightarrow> path" where
  "shard_path L root area locator =
     root @ [area, take 2 (uuid_simple L locator), take 2 (drop 2 (uuid_simple L locator))]"

lemma shard_directory_Ok: "shard_directory L root area locator w = (Ok p, w') \<Longrightarrow> p = shard_path L root area locator"
  by (auto simp: shard_directory_def secure_child_def run_simps Let_def ret_def shard_path_def)

definition staged_part :: "storage_lib \<Rightarrow> StorageLayout \<Rightarrow> uuid \<Rightarrow> path" where
  "staged_part L root locator = shard_path L root ''staging'' locator @ [uuid_text L locator @ ''.part'']"

definition object_path :: "storage_lib \<Rightarrow> StorageLayout \<Rightarrow> PayloadRecord \<Rightarrow> path" where
  "object_path L root payload =
     shard_path L root (if pay_layout payload = ''whole'' then ''whole'' else ''chunks'') (pay_locator payload)
       @ [uuid_text L (pay_locator payload)]"

lemma payload_path_Ok:
  assumes "payload_path L root payload w = (Ok p, w')"
  shows "p = object_path L root payload" and "pay_layout payload \<in> {''whole'', ''chunked''}"
  using assms
  by (auto simp: payload_path_def object_path_def run_simps ret_def dest!: shard_directory_Ok split: if_splits)

text \<open>A published part has the size and the digest it was published with.\<close>

lemma publish_staging_part_Ok:
  assumes "publish_staging_part L root temporary locator sz digest w = (Ok p, w')"
  shows "\<exists>c. file_at (fst w') (staged_part L root locator) = Some c \<and> length c = sz \<and> blake3 L c = digest"
proof -
  obtain destination u v u' where d: "staging_part_path L root locator u = (Ok destination, u')"
      "verify_file L destination sz digest v = (Ok (), w')"
    using assms by (auto simp: publish_staging_part_def run_simps ret_def)
  have "destination = staged_part L root locator"
    using d(1) by (auto simp: staging_part_path_def staged_part_def run_simps ret_def dest!: shard_directory_Ok)
  then show ?thesis
    using readsD [OF reads_verify_file, of L destination sz digest "fst v" "snd v" "()" "fst w'" "snd w'"] d(2) by auto
qed

definition stored_part :: "storage_lib \<Rightarrow> fs \<Rightarrow> path \<Rightarrow> UploadPartRecord \<Rightarrow> bytes \<Rightarrow> bool" where
  "stored_part L s p part c \<longleftrightarrow>
     file_at s (p @ [part_file_name (part_number part)]) = Some c
     \<and> u64_try_from (part_size_bytes part) = Some (length c) \<and> part_blake3 part = Some (blake3 L c)"

text \<open>The object of a payload: one file, or the recorded parts in their order.\<close>

definition uploaded_object ::
  "storage_lib \<Rightarrow> StorageLayout \<Rightarrow> PayloadRecord \<Rightarrow> UploadPartRecord list \<Rightarrow> fs \<Rightarrow> bytes \<Rightarrow> bool" where
  "uploaded_object L root payload parts s object \<longleftrightarrow>
     (let p = object_path L root payload in
      if pay_layout payload = ''whole'' then file_at s p = Some object
      else \<exists>cs. list_all2 (stored_part L s p) parts cs \<and> object = concat cs)"

lemma io_then_assoc: "io_then (io_then m f) g = io_then m (\<lambda>x. io_then (f x) g)"
  by (intro ext) (auto simp: io_then_def split: prod.splits result.splits)

lemma reads_mono: "reads s m P \<Longrightarrow> (\<And>x. P x \<Longrightarrow> Q x) \<Longrightarrow> reads s m Q"
  unfolding reads_def by blast

lemma reads_open_read:
  assumes "file_at s p = Some c"
  shows "reads s (io_then (try_sys (file_open p)) (\<lambda>i. try_sys (read_all i))) (\<lambda>b. b = c)"
proof -
  obtain n cells where n: "lookup s p = Some n" "ftype n = Regular cells" "c = contents cells"
    using assms by (auto simp: file_at_def split: option.splits file_type.splits)
  obtain i where i: "resolve MAX_SYMLINKS s p = Ok i" "inodes s i = Some n"
    using resolve_regular [OF n(1,2)] by blast
  show ?thesis
    by (rule reads_then [where P = "\<lambda>j. j = i"]; use i n in \<open>auto intro!: reads_rules\<close>)
qed

lemma reads_hash_file:
  "reads s (hash_file p h t) (\<lambda>(h', t'). \<exists>c. file_at s p = Some c \<and> h' = h @ c \<and> t' = t + length c)"
  unfolding hash_file_def
proof (rule reads_then [OF reads_verify_regular_file])
  assume "\<exists>n c. lookup s p = Some n \<and> ftype n = Regular c"
  then obtain c where c: "file_at s p = Some c" by (auto simp: file_at_def)
  have "reads s (io_then (io_then (try_sys (file_open p)) (\<lambda>i. try_sys (read_all i))) (\<lambda>bytes.
      case u64_checked_add t (length bytes) of None \<Rightarrow> fail StateConflict | Some t \<Rightarrow> ret (h @ bytes, t)))
    (\<lambda>(h', t'). \<exists>c. file_at s p = Some c \<and> h' = h @ c \<and> t' = t + length c)"
    by (rule reads_then [OF reads_open_read [OF c]])
      (use c in \<open>auto simp: u64_checked_add_def intro!: reads_rules split: option.splits\<close>)
  then show "reads s (io_then (try_sys (file_open p)) (\<lambda>i. io_then (try_sys (read_all i)) (\<lambda>bytes.
      case u64_checked_add t (length bytes) of None \<Rightarrow> fail StateConflict | Some t \<Rightarrow> ret (h @ bytes, t))))
    (\<lambda>(h', t'). \<exists>c. file_at s p = Some c \<and> h' = h @ c \<and> t' = t + length c)"
    by (simp add: io_then_assoc)
qed

lemma reads_verify_part:
  "reads s (verify_part L p part) (\<lambda>_. \<exists>c. file_at s p = Some c
     \<and> u64_try_from (part_size_bytes part) = Some (length c) \<and> part_blake3 part = Some (blake3 L c))"
  unfolding verify_part_def
proof (rule reads_then [where P = "\<lambda>d. part_blake3 part = Some d"])
  show "reads s (lift_result (digest_32 StateConflict (part_blake3 part))) (\<lambda>d. part_blake3 part = Some d)"
    by (auto simp: digest_32_def result_simps intro!: reads_rules split: if_splits)
  show "reads s (io_then (lift_result (ok_or (u64_try_from (part_size_bytes part)) StateConflict)) (\<lambda>sz. verify_file L p sz d))
      (\<lambda>_. \<exists>c. file_at s p = Some c \<and> u64_try_from (part_size_bytes part) = Some (length c)
        \<and> part_blake3 part = Some (blake3 L c))"
    if "part_blake3 part = Some d" for d
  proof (rule reads_then [where P = "\<lambda>sz. u64_try_from (part_size_bytes part) = Some sz"])
    show "reads s (lift_result (ok_or (u64_try_from (part_size_bytes part)) StateConflict))
        (\<lambda>sz. u64_try_from (part_size_bytes part) = Some sz)"
      by (auto simp: result_simps intro!: reads_rules)
    show "reads s (verify_file L p sz d) (\<lambda>_. \<exists>c. file_at s p = Some c
        \<and> u64_try_from (part_size_bytes part) = Some (length c) \<and> part_blake3 part = Some (blake3 L c))"
      if "u64_try_from (part_size_bytes part) = Some sz" for sz
      by (rule reads_mono [OF reads_verify_file]) (use that \<open>part_blake3 part = Some d\<close> in auto)
  qed
qed

lemma reads_hash_parts:
  "reads s (hash_parts L p parts h t)
     (\<lambda>(h', t'). \<exists>cs. list_all2 (stored_part L s p) parts cs \<and> h' = h @ concat cs \<and> t' = t + length (concat cs))"
proof (induction parts arbitrary: h t)
  case Nil
  show ?case by (auto intro!: reads_rules)
next
  case (Cons part parts)
  show ?case
    unfolding hash_parts.simps Let_def
  proof (rule reads_then [OF reads_verify_part], rule reads_then [OF reads_hash_file])
    fix r :: "bytes \<times> nat"
    assume "\<exists>c. file_at s (p @ [part_file_name (part_number part)]) = Some c
        \<and> u64_try_from (part_size_bytes part) = Some (length c) \<and> part_blake3 part = Some (blake3 L c)"
      and "case r of (h', t') \<Rightarrow> \<exists>c. file_at s (p @ [part_file_name (part_number part)]) = Some c
        \<and> h' = h @ c \<and> t' = t + length c"
    then obtain c where c: "stored_part L s p part c" "r = (h @ c, t + length c)"
      by (auto simp: stored_part_def)
    show "reads s (case r of (h, t) \<Rightarrow> hash_parts L p parts h t)
        (\<lambda>(h', t'). \<exists>cs. list_all2 (stored_part L s p) (part # parts) cs \<and> h' = h @ concat cs
          \<and> t' = t + length (concat cs))"
      unfolding c(2) split
    proof (rule reads_mono [OF Cons.IH])
      fix x
      assume "case x of (h', t') \<Rightarrow> \<exists>cs. list_all2 (stored_part L s p) parts cs
          \<and> h' = (h @ c) @ concat cs \<and> t' = (t + length c) + length (concat cs)"
      then obtain cs where "list_all2 (stored_part L s p) parts cs"
          "x = (h @ concat (c # cs), t + length (concat (c # cs)))" by auto
      then show "case x of (h', t') \<Rightarrow> \<exists>cs. list_all2 (stored_part L s p) (part # parts) cs
          \<and> h' = h @ concat cs \<and> t' = t + length (concat cs)"
        using c(1) by (auto simp del: concat.simps intro!: exI [of _ "c # cs"])
    qed
  qed
qed

lemma reads_read_parts:
  assumes "list_all2 (stored_part L s p) parts cs"
  shows "reads s (read_parts p parts) (\<lambda>b. b = concat cs)"
  using assms
proof (induction parts arbitrary: cs)
  case (Cons part parts)
  then obtain c cs' where c: "cs = c # cs'" "stored_part L s p part c" "list_all2 (stored_part L s p) parts cs'"
    by (auto simp: list_all2_Cons1)
  have here: "file_at s (p @ [part_file_name (part_number part)]) = Some c" using c(2) by (simp add: stored_part_def)
  have "reads s (io_then (io_then (try_sys (file_open (p @ [part_file_name (part_number part)]))) (\<lambda>i. try_sys (read_all i)))
      (\<lambda>bytes. io_then (read_parts p parts) (\<lambda>rest. ret (bytes @ rest)))) (\<lambda>b. b = concat cs)"
    by (rule reads_then [OF reads_open_read [OF here]], rule reads_then [OF Cons.IH [OF c(3)]])
      (auto simp: c(1) intro!: reads_rules)
  then show ?case by (simp add: io_then_assoc)
qed (auto intro!: reads_rules)

lemma reads_markdown:
  assumes "uploaded_object L root payload parts s object" and "pay_layout payload \<in> {''whole'', ''chunked''}"
  shows "reads s (validate_markdown_payload (object_path L root payload) payload parts) (\<lambda>_. markdown_ok object)"
proof -
  let ?p = "object_path L root payload"
  have "reads s (if pay_layout payload = ''whole'' then
        io_then (try_sys (file_open ?p)) (\<lambda>i. try_sys (read_all i))
      else if pay_layout payload = ''chunked'' then read_parts ?p parts else fail StateConflict) (\<lambda>b. b = object)"
    using assms by (auto simp: uploaded_object_def Let_def intro: reads_open_read reads_read_parts)
  then have "reads s (io_then (if pay_layout payload = ''whole'' then
        io_then (try_sys (file_open ?p)) (\<lambda>i. try_sys (read_all i))
      else if pay_layout payload = ''chunked'' then read_parts ?p parts else fail StateConflict) (\<lambda>bytes.
      if markdown_ok bytes then ret () else fail InvalidContent)) (\<lambda>_. markdown_ok object)"
    by (rule reads_then) (auto intro!: reads_rules)
  then show ?thesis
    by (auto simp: validate_markdown_payload_def intro: reads_rules split: option.splits)
qed

lemma verify_finalized_Ok:
  assumes "verify_finalized L root upload payload parts w = (Ok finalized, w')"
  shows "\<exists>object. uploaded_object L root payload parts (fst w') object
      \<and> finalized = \<lparr>fin_digest = blake3 L object, fin_size = length object\<rparr>
      \<and> u64_try_from (up_declared_size_bytes upload) = Some (length object)
      \<and> (up_declared_media_type upload = Some ''text/markdown'' \<longrightarrow> markdown_ok object)"
proof -
  let ?p = "object_path L root payload"
  define H where "H = (\<lambda>p. if pay_layout payload = ''whole'' then hash_file p [] 0
      else if pay_layout payload = ''chunked'' then
        io_then (verify_directory p) (\<lambda>_.
        io_then (io_then (parent p) (verify_same_owner p)) (\<lambda>_. hash_parts L p parts [] 0))
      else fail StateConflict)"
  define K where "K = (\<lambda>p (hasher, sz).
      if u64_try_from (up_declared_size_bytes upload) = None then fail StateConflict
      else if u64_try_from (up_declared_size_bytes upload) \<noteq> Some sz then fail CorruptObject
      else
        io_then
          (if up_declared_media_type upload = Some ''text/markdown''
           then validate_markdown_payload p payload parts else ret ()) (\<lambda>_.
        ret \<lparr>fin_digest = blake3 L hasher, fin_size = sz\<rparr>))"
  have run: "verify_finalized L root upload payload parts =
      io_then (lift_result (validate_manifest upload payload parts)) (\<lambda>_.
      io_then (payload_path L root payload) (\<lambda>p. io_then (H p) (K p)))"
    by (simp add: verify_finalized_def H_def K_def)
  obtain p v v1 h t where path: "payload_path L root payload w = (Ok p, v)"
    and hash: "H p v = (Ok (h, t), v1)" and final: "K p (h, t) v1 = (Ok finalized, w')"
    using assms unfolding run io_then_Ok lift_result_Ok by (metis prod.collapse)
  have rest: "u64_try_from (up_declared_size_bytes upload) = Some t"
      "(if up_declared_media_type upload = Some ''text/markdown''
          then validate_markdown_payload p payload parts else ret ()) v1 = (Ok (), w')"
      "finalized = \<lparr>fin_digest = blake3 L h, fin_size = t\<rparr>"
    using final unfolding K_def by (auto simp: io_then_Ok fail_not_Ok ret_def split: if_splits)
  note p = payload_path_Ok [OF path]
  have "reads (fst v) (H ?p) (\<lambda>(h, t). uploaded_object L root payload parts (fst v) h \<and> t = length h)"
    using p(2) unfolding H_def
    by (auto simp: uploaded_object_def Let_def
        intro!: reads_mono [OF reads_hash_file] reads_mono [OF reads_hash_parts]
          reads_then [OF reads_verify_directory] reads_then [OF reads_then [OF reads_parent reads_verify_same_owner]])
  from readsD [OF this, of "snd v" "(h, t)" "fst v1" "snd v1"] hash p(1)
  have v1: "fst v1 = fst v" "uploaded_object L root payload parts (fst v) h" "t = length h"
    by simp_all
  have eta: "(fst v, snd v1) = v1" using v1(1) by (simp add: prod_eq_iff)
  have "fst w' = fst v1 \<and> (up_declared_media_type upload = Some ''text/markdown'' \<longrightarrow> markdown_ok h)"
    using rest(2) readsD [OF reads_markdown [OF v1(2) p(2)], of "snd v1" "()" "fst w'" "snd w'"] v1(1) p(1)
    by (auto simp: ret_def eta split: if_splits)
  then show ?thesis using v1 rest(1,3) by auto
qed

lemma finalize_Ok:
  assumes "finalize L root upload payload parts operation w = (Ok finalized, w')"
  shows "\<exists>v. verify_finalized L root upload payload parts v = (Ok finalized, w')"
    and "validate_manifest upload payload parts = Ok ()"
  using assms by (auto simp: finalize_def run_simps split: if_splits)

lemma h_db_Ok: "h_db query st = (Ok x, st') \<longleftrightarrow> query st = (Ok x, st')"
  by (auto simp: h_db_def result_simps split: prod.splits)

lemma i32_try_from_Some: "i32_try_from n = Some v \<Longrightarrow> uint v = int n"
  by (auto simp: i32_try_from_def unsigned_of_nat take_bit_nat_eq_self split: if_splits)

section \<open>Properties\<close>

text \<open>
  The staged part \<open>part\<close> of an open upload holds what the client sent: the bytes are those of the
  signed size for this part, and the staged file has their length and digest.
\<close>

definition received_part ::
  "worker_lib \<Rightarrow> storage_lib \<Rightarrow> AppState \<Rightarrow> AuthorizedCapability \<Rightarrow> UploadRecord \<Rightarrow> UploadPartRecord \<Rightarrow> uuid \<Rightarrow> i32
     \<Rightarrow> bytes \<Rightarrow> fs \<Rightarrow> bool" where
  "received_part W L state authorized upload part upload_id n bs s \<longleftrightarrow>
     parse_required_uuid W (cap_upload_id (auth_claims authorized)) = Ok upload_id
     \<and> u64_try_from n = Some (unat (cap_part_number (auth_claims authorized)))
     \<and> (\<exists>payload_id. parse_required_uuid W (cap_payload_id (auth_claims authorized)) = Ok payload_id
          \<and> validate_upload_capability authorized upload payload_id (app_backend_id state) = Ok ())
     \<and> up_state upload = ''open''
     \<and> expected_part_size upload n = Ok (length bs)
     \<and> unat (cap_range_start (auth_claims authorized)) = 0
     \<and> unat (cap_range_end (auth_claims authorized)) = length bs - 1
     \<and> (\<exists>c. file_at s (staged_part L (storage state) (part_locator part)) = Some c
          \<and> length c = length bs \<and> blake3 L c = blake3 L bs)"

lemma admitted_part_Ok:
  assumes "admitted_part W seconds state D upload_text part_text headers st = (Ok (upload_id, n, authorized, part, sz), st')"
  shows "authorize W seconds state headers CapabilityOperation.UploadPart = Ok authorized"
    and "\<exists>upload. parse_required_uuid W (cap_upload_id (auth_claims authorized)) = Ok upload_id
      \<and> u64_try_from n = Some (unat (cap_part_number (auth_claims authorized)))
      \<and> (\<exists>payload_id. parse_required_uuid W (cap_payload_id (auth_claims authorized)) = Ok payload_id
          \<and> validate_upload_capability authorized upload payload_id (app_backend_id state) = Ok ())
      \<and> up_state upload = ''open'' \<and> expected_part_size upload n = Ok sz
      \<and> unat (cap_range_start (auth_claims authorized)) = 0
      \<and> unat (cap_range_end (auth_claims authorized)) = sz - 1"
  using assms unfolding admitted_part_def h_then_Ok h_result_Ok
  by (auto simp: h_then_Ok h_result_Ok split: if_splits)



text \<open>An upload of two bytes in one part, sent in two chunks, and the finalization of one of forty bytes.\<close>

definition upload_claims :: "CapabilityOperation \<Rightarrow> CapabilityClaims" where
  "upload_claims operation = sample_claims
     \<lparr>cap_audience := CAPABILITY_AUDIENCE, cap_operation := operation_as_i32 operation,
      cap_upload_id := sample_uuid_text, cap_range_end := 1\<rparr>"

definition upload_lib :: "CapabilityOperation \<Rightarrow> worker_lib" where
  "upload_lib operation =
     \<lparr>caps = sample_lib\<lparr>decode_claims := (\<lambda>b. if b = ''claims'' then Some (upload_claims operation) else None)\<rparr>,
      header_to_str = Some\<rparr>"

definition upload_headers :: HeaderMap where
  "upload_headers h = (if h = ''authorization'' then Some sample_service_wire else None)"

definition sample_upload :: "string \<Rightarrow> i64 \<Rightarrow> UploadRecord" where
  "sample_upload state declared =
     \<lparr>up_tenant_id = 42, up_upload_id = 42, up_drive_id = 42, up_node_id = Some 42, up_parent_id = 42,
      up_owner_principal_id = 42, up_payload_id = 42, up_backend_id = 5, up_payload_locator = 7,
      up_expected_head_version_id = None, up_target_display_name = ''f'', up_target_name_key = ''f'',
      up_declared_size_bytes = declared, up_chunk_size_bytes = 64, up_part_count = 1, up_fencing_token = 1,
      up_state = state, up_declared_media_type = None, up_collaboration_checkpoint_id = None,
      up_import_intent_id = None\<rparr>"

definition sample_part :: UploadPartRecord where
  "sample_part = \<lparr>part_number = 0, part_locator = 7, part_state = ''durable'', part_size_bytes = 40,
     part_blake3 = Some (take 32 read_data)\<rparr>"

definition upload_database :: "string \<Rightarrow> i64 \<Rightarrow> unit upload_env" where
  "upload_database state declared =
     \<lparr>db_payload = (\<lambda>_ _ st. (Ok (read_payload\<lparr>pay_payload_id := 42, pay_state := ''finalizing''\<rparr>), st)),
      db_payload_for_node = (\<lambda>_ _ _ st. (Err DatabaseError.NotFound, st)),
      db_payload_parts_for_mount_read = (\<lambda>_ _ st. (Ok [], st)),
      db_upload_for_payload = (\<lambda>_ _ st. (Err DatabaseError.NotFound, st)),
      db_upload_parts = (\<lambda>_ _ st. (Ok [sample_part], st)),
      db_collaboration_object = (\<lambda>_ _ st. (Err DatabaseError.NotFound, st)),
      db_admit_mount_read_capability = (\<lambda>_ st. (Ok (), st)),
      db_consume_capability_nonce = (\<lambda>_ _ _ _ st. (Ok (), st)),
      db_authorization_generations_match = (\<lambda>_ _ _ _ _ _ _ _ _ st. (Ok True, st)),
      db_upload = (\<lambda>_ _ st. (Ok (sample_upload state declared), st)),
      db_upload_part = (\<lambda>_ _ _ st. (Ok sample_part, st)),
      db_mark_part_durable = (\<lambda>_ _ _ _ _ _ st. (Ok (), st)),
      db_claim_upload_finalization = (\<lambda>_ _ _ _ _ st. (Ok (), st)),
      db_heartbeat_upload_finalization = (\<lambda>_ _ _ _ _ st. (Ok (), st)),
      db_abort_upload_finalization = (\<lambda>_ _ _ _ st. (Ok (), st)),
      db_mark_upload_finalized = (\<lambda>_ _ _ _ _ st. (Ok (), st)),
      db_mark_upload_staging_cleaned = (\<lambda>_ _ st. (Ok (), st)),
      finalization_ticks = (\<lambda>_. 1)\<rparr>"

definition upload_authorized :: "CapabilityOperation \<Rightarrow> AuthorizedCapability" where
  "upload_authorized operation =
     \<lparr>auth_claims = upload_claims operation, auth_tenant_id = 42, auth_session_id = 42, auth_principal_id = 42,
      auth_resource_id = 42, auth_capability_id = 42\<rparr>"

lemma upload_claims_valid:
  "validate_capability_claims (caps (upload_lib CapabilityOperation.UploadPart)) (upload_claims CapabilityOperation.UploadPart)
     CAPABILITY_AUDIENCE CapabilityOperation.UploadPart 1003 = Ok ()"
  "validate_capability_claims (caps (upload_lib CapabilityOperation.FinalizeUpload))
     (upload_claims CapabilityOperation.FinalizeUpload) CAPABILITY_AUDIENCE CapabilityOperation.FinalizeUpload 1003 = Ok ()"
  by code_simp+

lemma upload_envelope:
  assumes "validate_capability_claims (caps (upload_lib operation)) (upload_claims operation) CAPABILITY_AUDIENCE operation 1003 = Ok ()"
  shows "\<exists>generation. verify_capability (caps (upload_lib operation)) sample_service_wire sample_keyset CAPABILITY_AUDIENCE
      operation 1003 = Ok \<lparr>verified_claims = upload_claims operation, verified_generation = generation\<rparr>"
proof -
  obtain encoded bytes signed key where *: "sample_service_wire = ''fbcap1.'' @ encoded"
      "b64_decode_lib (key_ops sample_lib) encoded = Some bytes" "decode_signed sample_lib bytes = Some signed"
      "bt_get (keys sample_keyset) (sc_key_generation signed) = Some key"
      "ed25519_verify (key_ops sample_lib) key (CAPABILITY_SIGNATURE_DOMAIN @ sc_claims signed) (sc_signature signed)"
      "decode_claims sample_lib (sc_claims signed) = Some sample_claims"
    using sample_service_verified unfolding verify_api_storage_capability_def verify_capability_Ok by auto
  have ops: "key_ops (caps (upload_lib operation)) = key_ops sample_lib"
    "decode_signed (caps (upload_lib operation)) = decode_signed sample_lib"
    by (simp_all add: upload_lib_def)
  have "sc_claims signed = ''claims''" using *(6) by (simp add: sample_lib_def split: if_splits)
  then have "decode_claims (caps (upload_lib operation)) (sc_claims signed) = Some (upload_claims operation)"
    by (simp add: upload_lib_def)
  then show ?thesis
    unfolding verify_capability_Ok
    by (intro exI [of _ "sc_key_generation signed"] exI [of _ encoded] exI [of _ bytes] exI [of _ signed] exI [of _ key])
      (use * assms ops in simp)
qed

lemma upload_verified:
  "verify_capability_for_operation (upload_lib CapabilityOperation.UploadPart) sample_service_wire
     CapabilityOperation.UploadPart 1003 sample_keyset None None None = Ok (upload_claims CapabilityOperation.UploadPart)"
  "verify_capability_for_operation (upload_lib CapabilityOperation.FinalizeUpload) sample_service_wire
     CapabilityOperation.FinalizeUpload 1003 sample_keyset None None None = Ok (upload_claims CapabilityOperation.FinalizeUpload)"
  using upload_envelope [OF upload_claims_valid(1)] upload_envelope [OF upload_claims_valid(2)]
  by (auto simp: verify_capability_for_operation_def verify_api_storage_capability_def)

lemma upload_wire: "capability_wire (upload_lib operation) upload_headers = Some sample_service_wire"
proof -
  have "header_str (upload_lib operation) upload_headers ''authorization'' = Some sample_service_wire"
    "header_str (upload_lib operation) upload_headers ''cookie'' = None"
    by (simp_all add: header_str_def upload_headers_def upload_lib_def)
  moreover have "starts_with ''fbcap1.'' sample_service_wire" by code_simp
  ultimately show ?thesis by (simp add: capability_wire_def)
qed

lemma upload_uuid: "cap_uuid_parse (caps (upload_lib operation)) sample_uuid_text = Some 42"
  by (simp add: upload_lib_def sample_lib_def)

lemma upload_ids:
  "cap_tenant_id (upload_claims operation) = sample_uuid_text" "cap_principal_id (upload_claims operation) = sample_uuid_text"
  "cap_resource_id (upload_claims operation) = sample_uuid_text" "cap_capability_id (upload_claims operation) = sample_uuid_text"
  "cap_session_id (upload_claims operation) = sample_uuid_text" "cap_upload_id (upload_claims operation) = sample_uuid_text"
  "cap_payload_id (upload_claims operation) = sample_uuid_text"
  by (simp_all add: upload_claims_def sample_claims_def)

lemma upload_authorize:
  assumes "operation \<in> {CapabilityOperation.UploadPart, CapabilityOperation.FinalizeUpload}"
  shows "authorize (upload_lib operation) (Some 1003) read_state upload_headers operation = Ok (upload_authorized operation)"
proof -
  have now: "unix_time_now (Some 1003) = Ok 1003" by (simp add: unix_time_now_def)
  have keys: "api_storage_keys read_state = sample_keyset" "collaboration_storage_keys read_state = None"
    "document_storage_keys read_state = None" "revision_storage_keys read_state = None" "app_tenant_id read_state = 42"
    by (simp_all add: read_state_def)
  show ?thesis
    unfolding authorize_def upload_wire now keys
    using assms upload_verified
    by (auto simp: parse_required_uuid_def upload_uuid upload_ids upload_authorized_def)
qed

lemma upload_row:
  assumes "operation \<in> {CapabilityOperation.UploadPart, CapabilityOperation.FinalizeUpload}"
  shows "validate_upload_capability (upload_authorized operation) (sample_upload state declared) 42 (app_backend_id read_state) = Ok ()"
    and "check_generations (read_env.truncate (upload_database state declared)) (upload_authorized operation) 42 st = (Ok (), st)"
    and "consume_nonce W (read_env.truncate (upload_database state declared)) (upload_authorized operation) code st = (Ok (), st)"
    and "i64_from_u64 (cap_fencing_token (auth_claims (upload_authorized operation))) = Some 1"
  by (simp_all add: validate_upload_capability_def upload_authorized_def sample_upload_def read_state_def upload_claims_def
      sample_claims_def i64_from_u64_def check_generations_def generations_match_def consume_nonce_def h_query_def
      upload_database_def read_env.truncate_def Let_def)

text \<open>The bound as a binary number, so that the checked addition evaluates.\<close>

lemma u64_checked_add_code [code]:
  "u64_checked_add a b = (if int a + int b \<le> 18446744073709551615 then Some (a + b) else None)"
  by (simp add: u64_checked_add_def U64_MAX_def nat_le_iff [symmetric] flip: of_nat_add)

lemma is_dir_code [code]: "is_dir s p = (case lookup s p of Some n \<Rightarrow> ftype n = Directory | None \<Rightarrow> False)"
  by (auto simp: is_dir_def split: option.splits)

definition sent_body :: "bytes option list" where
  "sent_body = [Some ''h'', Some ''i'']"

definition sample_temporary :: path where
  "sample_temporary = [''data'', ''staging'', ''00'', ''00'', ''7.42.writing'']"

lemma sample_part_stored:
  "fst (staging_temporary_path exact_lib sample_root 7 42 (sample_fs, [])) = Ok sample_temporary"
  "fst (write_body exact_lib sent_body sample_temporary 2
     ((), snd (staging_temporary_path exact_lib sample_root 7 42 (sample_fs, [])))) = Ok (2, ''hi'')"
  "is_ok (fst (publish_staging_part exact_lib sample_root sample_temporary 7 2 ''hi''
     (snd (snd (write_body exact_lib sent_body sample_temporary 2
       ((), snd (staging_temporary_path exact_lib sample_root 7 42 (sample_fs, []))))))))"
  by code_simp+

definition finalize_fs :: fs where
  "finalize_fs = sample_fs
     \<lparr>names := ([''data'', ''staging'', ''00'', ''00'', ''7.part''], 11) # names sample_fs,
      inodes := (inodes sample_fs)(11 \<mapsto> \<lparr>ftype = Regular (map Data read_data), perm = 0x180, owner_uid = 1000\<rparr>),
      next_ino := 12\<rparr>"

lemma sample_finalized:
  "fst (finalize exact_lib sample_root (sample_upload ''finalizing'' 40)
     (read_payload\<lparr>pay_payload_id := 42, pay_state := ''finalizing''\<rparr>) [sample_part] 42 (finalize_fs, []))
   = Ok \<lparr>fin_digest = take 32 read_data, fin_size = 40\<rparr>"
  by code_simp

lemma upload_database_fields:
  "db_payload (upload_database state declared) = (\<lambda>_ _ st. (Ok (read_payload\<lparr>pay_payload_id := 42, pay_state := ''finalizing''\<rparr>), st))"
  "db_upload_parts (upload_database state declared) = (\<lambda>_ _ st. (Ok [sample_part], st))"
  "db_upload (upload_database state declared) = (\<lambda>_ _ st. (Ok (sample_upload state declared), st))"
  "db_upload_part (upload_database state declared) = (\<lambda>_ _ _ st. (Ok sample_part, st))"
  "db_mark_part_durable (upload_database state declared) = (\<lambda>_ _ _ _ _ _ st. (Ok (), st))"
  "db_claim_upload_finalization (upload_database state declared) = (\<lambda>_ _ _ _ _ st. (Ok (), st))"
  "db_heartbeat_upload_finalization (upload_database state declared) = (\<lambda>_ _ _ _ _ st. (Ok (), st))"
  "db_mark_upload_finalized (upload_database state declared) = (\<lambda>_ _ _ _ _ st. (Ok (), st))"
  by (simp_all add: upload_database_def)

lemma finalization_heartbeats_sample:
  "finalization_heartbeats (upload_database state declared) authorized upload_id token n st = st"
  by (induction n arbitrary: st) (simp_all add: upload_database_fields)

lemma is_ok_run: "is_ok (fst z) \<Longrightarrow> \<exists>x w. z = (Ok x, w)"
  by (cases z; cases "fst z") auto

lemma run_state: "fst (m ((), w)) = Ok x \<Longrightarrow> \<exists>w'. m ((), w) = (Ok x, ((), w'))"
  by (cases "m ((), w)") auto

lemma upload_path: "path_uuid (upload_lib operation) sample_uuid_text code st = (Ok 42, st)"
  by (simp add: path_uuid_def h_result_def upload_uuid)

lemma sample_admitted:
  "admitted_part (upload_lib CapabilityOperation.UploadPart) (Some 1003) read_state (upload_database ''open'' 2)
     sample_uuid_text ''0'' upload_headers st
   = (Ok (42, 0, upload_authorized CapabilityOperation.UploadPart, sample_part, 2), st)"
proof -
  let ?op = CapabilityOperation.UploadPart
  have "parse_i32 ''0'' = Some 0" by code_simp
  moreover have "expected_part_size (sample_upload ''open'' 2) 0 = Ok 2"
    by (simp add: expected_part_size_def sample_upload_def u64_try_from_def)
  moreover have "u64_try_from (0 :: i32) = Some 0" by (simp add: u64_try_from_def)
  moreover have "auth_claims (upload_authorized ?op) = upload_claims ?op" "cap_part_number (upload_claims ?op) = 0"
    "cap_range_start (upload_claims ?op) = 0" "cap_range_end (upload_claims ?op) = 1"
    by (simp_all add: upload_authorized_def upload_claims_def sample_claims_def)
  moreover have "up_drive_id (sample_upload ''open'' 2) = 42" "up_state (sample_upload ''open'' 2) = ''open''"
    "part_locator sample_part = 7"
    by (simp_all add: sample_upload_def sample_part_def)
  moreover have "check_content_length (upload_lib ?op) upload_headers 2 code = Ok ()" for code
    by (simp add: check_content_length_def upload_headers_def)
  ultimately show ?thesis
    using upload_authorize [of ?op] upload_row [of ?op]
    by (simp add: admitted_part_def h_then_def h_result_def h_db_def upload_path parse_required_uuid_def upload_uuid
        upload_ids upload_database_fields)
qed

lemma sample_upload_part:
  "is_ok (fst (upload_part (upload_lib CapabilityOperation.UploadPart) exact_lib (Some 1003) read_state
     (upload_database ''open'' 2) sample_uuid_text ''0'' upload_headers sent_body ((), (sample_fs, []))))"
proof -
  let ?op = CapabilityOperation.UploadPart
  obtain w1 where w1: "staging_temporary_path exact_lib sample_root 7 42 (sample_fs, []) = (Ok sample_temporary, w1)"
    using sample_part_stored(1) by (metis prod.collapse)
  obtain w2 where w2: "write_body exact_lib sent_body sample_temporary 2 ((), w1) = (Ok (2, ''hi''), ((), w2))"
    using run_state [where m = "write_body exact_lib sent_body sample_temporary 2", OF sample_part_stored(2)] w1 by auto
  obtain p w3 where w3: "publish_staging_part exact_lib sample_root sample_temporary 7 2 ''hi'' w2 = (Ok p, w3)"
    using is_ok_run [OF sample_part_stored(3)] w1 w2 by auto
  have "auth_capability_id (upload_authorized ?op) = 42" "storage read_state = sample_root" "part_locator sample_part = 7"
    by (simp_all add: upload_authorized_def read_state_def sample_part_def)
  then show ?thesis
    using upload_row [of ?op] w1 w2 w3
    by (simp add: upload_part_def sample_admitted h_then_def h_blocking_def h_result_def h_db_def i32_try_from_def
        upload_database_fields)
qed



end
