(* ===== verification/Cow_Lock.thy ===== *)
theory Cow_Lock
  imports Belt_Prelude
begin

text \<open>
  The cross-process lock of a write session (\<open>lock_cow\<close>, \<open>CowLockGuard\<close> and
  \<open>remove_cow_lock\<close> of \<open>source/crates/filebelt-storage/src/cow.rs\<close>) as a step relation.

  Any number of processes interleave, one system call at a time. The state has the inode the lock
  name refers to, the holder of the coordinator lock of the shard, and the holder of the
  \<open>flock\<close> of every lock inode; an inode may stay open and locked after its name is gone. A
  process that fails or dies at any point gives up whatever it holds.
\<close>

section \<open>States and steps\<close>

type_synonym pid = nat

datatype lock_pc =
    Outside
  | WaitOpen
  | Opening
  | Opened nat
  | WaitFlock nat
  | WaitCheck nat
  | Checking nat
  | Matched nat
  | Stale nat
  | StaleLocked nat
  | Holding nat
  | WaitRemove nat
  | Removing nat
  | Unlinked nat
  | LockDropped

record lock_state =
  lock_name :: "nat option"
  fresh_inode :: nat
  coordinator :: "pid option"
  flocks :: "nat \<Rightarrow> pid option"
  pcs :: "pid \<Rightarrow> lock_pc"

definition initial_locks :: lock_state where
  "initial_locks =
     \<lparr>lock_name = None, fresh_inode = 0, coordinator = None, flocks = \<lambda>_. None, pcs = \<lambda>_. Outside\<rparr>"

abbreviation move :: "pid \<Rightarrow> lock_pc \<Rightarrow> lock_state \<Rightarrow> lock_state" where
  "move p pc s \<equiv> s\<lparr>pcs := (pcs s)(p := pc)\<rparr>"

text \<open>One pass of the loop of \<open>lock_cow\<close>.\<close>

inductive lock_cow_step :: "pid \<Rightarrow> lock_state \<Rightarrow> lock_state \<Rightarrow> bool" where
  enter: "pcs s p = Outside \<Longrightarrow> lock_cow_step p s (move p WaitOpen s)"
| coordinate_open: "pcs s p = WaitOpen \<Longrightarrow> coordinator s = None \<Longrightarrow>
    lock_cow_step p s (move p Opening (s\<lparr>coordinator := Some p\<rparr>))"
| open_existing: "pcs s p = Opening \<Longrightarrow> lock_name s = Some i \<Longrightarrow>
    lock_cow_step p s (move p (Opened i) s)"
| open_create: "pcs s p = Opening \<Longrightarrow> lock_name s = None \<Longrightarrow>
    lock_cow_step p s (move p (Opened (fresh_inode s))
      (s\<lparr>lock_name := Some (fresh_inode s), fresh_inode := Suc (fresh_inode s)\<rparr>))"
| release_open: "pcs s p = Opened i \<Longrightarrow>
    lock_cow_step p s (move p (WaitFlock i) (s\<lparr>coordinator := None\<rparr>))"
| take_flock: "pcs s p = WaitFlock i \<Longrightarrow> flocks s i = None \<Longrightarrow>
    lock_cow_step p s (move p (WaitCheck i) (s\<lparr>flocks := (flocks s)(i := Some p)\<rparr>))"
| coordinate_check: "pcs s p = WaitCheck i \<Longrightarrow> coordinator s = None \<Longrightarrow>
    lock_cow_step p s (move p (Checking i) (s\<lparr>coordinator := Some p\<rparr>))"
| check_matches: "pcs s p = Checking i \<Longrightarrow> lock_name s = Some i \<Longrightarrow>
    lock_cow_step p s (move p (Matched i) s)"
| check_stale: "pcs s p = Checking i \<Longrightarrow> lock_name s \<noteq> Some i \<Longrightarrow>
    lock_cow_step p s (move p (Stale i) s)"
| acquired: "pcs s p = Matched i \<Longrightarrow>
    lock_cow_step p s (move p (Holding i) (s\<lparr>coordinator := None\<rparr>))"
| release_stale: "pcs s p = Stale i \<Longrightarrow>
    lock_cow_step p s (move p (StaleLocked i) (s\<lparr>coordinator := None\<rparr>))"
| drop_stale: "pcs s p = StaleLocked i \<Longrightarrow>
    lock_cow_step p s (move p WaitOpen (s\<lparr>flocks := (flocks s)(i := None)\<rparr>))"

text \<open>
  \<open>remove_current_inode\<close>: a missing name gives up the lock, a name of another inode is
  \<open>UnsafeObject\<close> and leaves the guard with its lock.
\<close>

inductive remove_lock_step :: "pid \<Rightarrow> lock_state \<Rightarrow> lock_state \<Rightarrow> bool" where
  begin_remove: "pcs s p = Holding i \<Longrightarrow> remove_lock_step p s (move p (WaitRemove i) s)"
| coordinate_remove: "pcs s p = WaitRemove i \<Longrightarrow> coordinator s = None \<Longrightarrow>
    remove_lock_step p s (move p (Removing i) (s\<lparr>coordinator := Some p\<rparr>))"
| remove_missing: "pcs s p = Removing i \<Longrightarrow> lock_name s = None \<Longrightarrow>
    remove_lock_step p s (move p LockDropped (s\<lparr>flocks := (flocks s)(i := None)\<rparr>))"
| remove_unsafe: "pcs s p = Removing i \<Longrightarrow> lock_name s = Some j \<Longrightarrow> j \<noteq> i \<Longrightarrow>
    remove_lock_step p s (move p (Holding i) (s\<lparr>coordinator := None\<rparr>))"
| unlink: "pcs s p = Removing i \<Longrightarrow> lock_name s = Some i \<Longrightarrow>
    remove_lock_step p s (move p (Unlinked i) (s\<lparr>lock_name := None\<rparr>))"
| drop_unlinked: "pcs s p = Unlinked i \<Longrightarrow>
    remove_lock_step p s (move p LockDropped (s\<lparr>flocks := (flocks s)(i := None)\<rparr>))"
| finish_remove: "pcs s p = LockDropped \<Longrightarrow>
    remove_lock_step p s (move p Outside (s\<lparr>coordinator := None\<rparr>))"

text \<open>What a process holds at each point.\<close>

fun flocked :: "lock_pc \<Rightarrow> nat option" where
  "flocked (WaitCheck i) = Some i"
| "flocked (Checking i) = Some i"
| "flocked (Matched i) = Some i"
| "flocked (Stale i) = Some i"
| "flocked (StaleLocked i) = Some i"
| "flocked (Holding i) = Some i"
| "flocked (WaitRemove i) = Some i"
| "flocked (Removing i) = Some i"
| "flocked (Unlinked i) = Some i"
| "flocked _ = None"

fun coordinating :: "lock_pc \<Rightarrow> bool" where
  "coordinating Opening = True"
| "coordinating (Opened i) = True"
| "coordinating (Checking i) = True"
| "coordinating (Matched i) = True"
| "coordinating (Stale i) = True"
| "coordinating (Removing i) = True"
| "coordinating (Unlinked i) = True"
| "coordinating LockDropped = True"
| "coordinating _ = False"

text \<open>Dropping the guard, and a process that fails or dies: everything it holds is given up.\<close>

definition give_up :: "pid \<Rightarrow> lock_state \<Rightarrow> lock_state" where
  "give_up p s =
     move p Outside
       (s\<lparr>coordinator := (if coordinator s = Some p then None else coordinator s),
          flocks := (\<lambda>i. if flocks s i = Some p then None else flocks s i)\<rparr>)"

inductive lock_step :: "pid \<Rightarrow> lock_state \<Rightarrow> lock_state \<Rightarrow> bool" where
  lock: "lock_cow_step p s s' \<Longrightarrow> lock_step p s s'"
| remove: "remove_lock_step p s s' \<Longrightarrow> lock_step p s s'"
| drop_guard: "pcs s p = Holding i \<Longrightarrow> lock_step p s (give_up p s)"
| die: "lock_step p s (give_up p s)"

inductive lock_reachable :: "lock_state \<Rightarrow> bool" where
  start: "lock_reachable initial_locks"
| step: "lock_reachable s \<Longrightarrow> lock_step p s s' \<Longrightarrow> lock_reachable s'"

code_pred (modes: i \<Rightarrow> i \<Rightarrow> o \<Rightarrow> bool) lock_cow_step .
code_pred (modes: i \<Rightarrow> i \<Rightarrow> o \<Rightarrow> bool) remove_lock_step .

inductive_cases lock_cow_stepE: "lock_cow_step p s s'"
inductive_cases remove_lock_stepE: "remove_lock_step p s s'"
inductive_cases lock_stepE: "lock_step p s s'"

section \<open>Invariant\<close>

text \<open>The inode a process has found to be the current one, while it relies on that.\<close>

fun validated :: "lock_pc \<Rightarrow> nat option" where
  "validated (Matched i) = Some i"
| "validated (Holding i) = Some i"
| "validated (WaitRemove i) = Some i"
| "validated (Removing i) = Some i"
| "validated _ = None"

definition lock_inv :: "lock_state \<Rightarrow> bool" where
  "lock_inv s \<longleftrightarrow>
     (\<forall>p i. flocks s i = Some p \<longleftrightarrow> flocked (pcs s p) = Some i)
     \<and> (\<forall>p. coordinator s = Some p \<longleftrightarrow> coordinating (pcs s p))
     \<and> (\<forall>p i. validated (pcs s p) = Some i \<longrightarrow> lock_name s = Some i)"

lemma validated_flocked: "validated pc = Some i \<Longrightarrow> flocked pc = Some i"
  by (cases pc) simp_all

lemma initial_lock_inv: "lock_inv initial_locks"
  by (simp add: lock_inv_def initial_locks_def)

lemma lock_invD:
  assumes "lock_inv s"
  shows "flocks s i = Some p \<longleftrightarrow> flocked (pcs s p) = Some i"
    and "coordinator s = Some p \<longleftrightarrow> coordinating (pcs s p)"
    and "validated (pcs s p) = Some i \<Longrightarrow> lock_name s = Some i"
  using assms by (auto simp: lock_inv_def)

lemma validated_unique:
  assumes "lock_inv s" and "validated (pcs s p) = Some i" and "validated (pcs s q) = Some j"
  shows "p = q \<and> i = j"
proof -
  have "lock_name s = Some i" "lock_name s = Some j"
    using lock_invD(3) [OF assms(1)] assms(2,3) by blast+
  then have "i = j" by simp
  moreover have "flocks s i = Some p" "flocks s j = Some q"
    using lock_invD(1) [OF assms(1)] validated_flocked assms(2,3) by simp_all
  ultimately show ?thesis by simp
qed

text \<open>A step of one process keeps the invariant when it accounts for what that process holds.\<close>

lemma lock_inv_move:
  assumes inv: "lock_inv s" and pcs: "\<And>q. q \<noteq> p \<Longrightarrow> pcs s' q = pcs s q"
    and "\<And>i. flocks s' i = Some p \<longleftrightarrow> flocked (pcs s' p) = Some i"
    and "\<And>i q. q \<noteq> p \<Longrightarrow> flocks s' i = Some q \<longleftrightarrow> flocks s i = Some q"
    and "coordinator s' = Some p \<longleftrightarrow> coordinating (pcs s' p)"
    and "\<And>q. q \<noteq> p \<Longrightarrow> coordinator s' = Some q \<longleftrightarrow> coordinator s = Some q"
    and "\<And>i. validated (pcs s' p) = Some i \<Longrightarrow> lock_name s' = Some i"
    and "lock_name s' = lock_name s \<or> (\<forall>q. q \<noteq> p \<longrightarrow> validated (pcs s q) = None)"
  shows "lock_inv s'"
  unfolding lock_inv_def
proof (intro conjI allI impI)
  fix q i
  show "flocks s' i = Some q \<longleftrightarrow> flocked (pcs s' q) = Some i"
    using assms(3,4) lock_invD(1) [OF inv] by (cases "q = p") (simp_all add: pcs)
  show "coordinator s' = Some q \<longleftrightarrow> coordinating (pcs s' q)"
    using assms(5,6) lock_invD(2) [OF inv] by (cases "q = p") (simp_all add: pcs)
  assume "validated (pcs s' q) = Some i"
  then show "lock_name s' = Some i"
    using assms(7,8) lock_invD(3) [OF inv, of q i] by (cases "q = p") (auto simp: pcs)
qed

lemma held_by:
  assumes "lock_inv s" and "pcs s p = pc"
  shows "\<forall>i. flocked pc \<noteq> Some i \<longrightarrow> flocks s i \<noteq> Some p"
    and "\<forall>i. flocked pc = Some i \<longrightarrow> flocks s i = Some p"
    and "coordinator s = Some p \<longleftrightarrow> coordinating pc"
    and "\<forall>i. validated pc = Some i \<longrightarrow> lock_name s = Some i"
  using lock_invD [OF assms(1)] assms(2) by auto

lemma lock_inv_lock_cow:
  assumes "lock_cow_step p s s'" and inv: "lock_inv s"
  shows "lock_inv s'"
  using assms(1)
proof cases
  case open_create
  then have "validated (pcs s q) = None" for q
    using lock_invD(3) [OF inv, of q] by (cases "validated (pcs s q)") auto
  with open_create held_by [OF inv, of p, OF refl] show ?thesis
    by (intro lock_inv_move [OF inv, where p = p]) auto
qed (use held_by [OF inv, of p, OF refl] in
      \<open>(intro lock_inv_move [OF inv, where p = p]; auto split: if_splits)+\<close>)

lemma lock_inv_remove:
  assumes "remove_lock_step p s s'" and inv: "lock_inv s"
  shows "lock_inv s'"
  using assms(1)
proof cases
  case (unlink i)
  then have "validated (pcs s q) = None" if "q \<noteq> p" for q
    using validated_unique [OF inv, of p i q] that by (cases "validated (pcs s q)") auto
  with unlink held_by [OF inv, of p, OF refl] show ?thesis
    by (intro lock_inv_move [OF inv, where p = p]) auto
qed (use held_by [OF inv, of p, OF refl] in
      \<open>(intro lock_inv_move [OF inv, where p = p]; auto split: if_splits)+\<close>)

lemma lock_inv_give_up: "lock_inv s \<Longrightarrow> lock_inv (give_up p s)"
  by (rule lock_inv_move [where p = p]) (auto simp: give_up_def)

lemma lock_reachable_inv: "lock_reachable s \<Longrightarrow> lock_inv s"
  by (induction rule: lock_reachable.induct)
    (auto elim!: lock_stepE intro: initial_lock_inv lock_inv_lock_cow lock_inv_remove lock_inv_give_up)

section \<open>Guarantees\<close>

text \<open>The process has a \<open>CowLockGuard\<close>.\<close>

fun guards :: "lock_pc \<Rightarrow> nat option" where
  "guards (Holding i) = Some i"
| "guards (WaitRemove i) = Some i"
| "guards (Removing i) = Some i"
| "guards _ = None"

lemma guards_validated: "guards pc = Some i \<Longrightarrow> validated pc = Some i"
  by (cases pc) simp_all

lemma coordinator_can_step:
  assumes "coordinating (pcs s q)"
  shows "\<exists>s'. lock_cow_step q s s' \<or> remove_lock_step q s s'"
proof (cases "pcs s q")
  case Opening
  then show ?thesis
    by (cases "lock_name s") (blast intro: open_existing open_create)+
next
  case (Checking i)
  then show ?thesis
    by (cases "lock_name s = Some i") (blast intro: check_matches check_stale)+
next
  case (Removing i)
  then show ?thesis
    by (cases "lock_name s") (blast intro: remove_missing remove_unsafe unlink)+
qed (use assms in \<open>auto intro: lock_cow_step.intros remove_lock_step.intros\<close>)

lemma uncoordinated_can_step:
  assumes "coordinator s = None" and "\<not> coordinating (pcs s q)"
    and "flocked (pcs s q) \<noteq> None \<or> pcs s q = WaitOpen"
  shows "(\<exists>s'. lock_cow_step q s s' \<or> remove_lock_step q s s')"
  using assms
  by (cases "pcs s q") (auto intro: lock_cow_step.intros remove_lock_step.intros)

lemma reachable_lock:
  "lock_cow_step p s t \<Longrightarrow> lock_reachable s \<Longrightarrow> t = s' \<Longrightarrow> lock_reachable s'"
  by (blast intro: lock_reachable.step lock_step.lock)

text \<open>A run of two processes: 0 acquires the lock while 1 waits for its inode.\<close>

definition two_processes :: "nat option \<Rightarrow> pid option \<Rightarrow> pid option \<Rightarrow> lock_pc \<Rightarrow> lock_pc \<Rightarrow> lock_state"
  where
  "two_processes name c f a b =
     \<lparr>lock_name = name, fresh_inode = (if name = None then 0 else 1), coordinator = c,
      flocks = (\<lambda>i. if i = 0 then f else None),
      pcs = (\<lambda>q. if q = 0 then a else if q = 1 then b else Outside)\<rparr>"

lemma sample_lock_run: "lock_reachable (two_processes (Some 0) None (Some 0) (Holding 0) (WaitFlock 0))"
proof -
  note simps = two_processes_def fun_eq_iff
  have "lock_reachable (two_processes None None None Outside Outside)"
    using start by (simp add: initial_locks_def two_processes_def cong: if_cong)
  then have "lock_reachable (two_processes None None None WaitOpen Outside)"
    by (rule reachable_lock [OF enter, where p = 0, rotated]) (simp_all add: simps)
  then have "lock_reachable (two_processes None (Some 0) None Opening Outside)"
    by (rule reachable_lock [OF coordinate_open, where p = 0, rotated 2]) (simp_all add: simps)
  then have "lock_reachable (two_processes (Some 0) (Some 0) None (Opened 0) Outside)"
    by (rule reachable_lock [OF open_create, where p = 0, rotated 2]) (simp_all add: simps)
  then have "lock_reachable (two_processes (Some 0) None None (WaitFlock 0) Outside)"
    by (rule reachable_lock [OF release_open, where p = 0 and i1 = 0, rotated]) (simp_all add: simps)
  then have "lock_reachable (two_processes (Some 0) None None (WaitFlock 0) WaitOpen)"
    by (rule reachable_lock [OF enter, where p = 1, rotated]) (simp_all add: simps)
  then have "lock_reachable (two_processes (Some 0) (Some 1) None (WaitFlock 0) Opening)"
    by (rule reachable_lock [OF coordinate_open, where p = 1, rotated 2]) (simp_all add: simps)
  then have "lock_reachable (two_processes (Some 0) (Some 1) None (WaitFlock 0) (Opened 0))"
    by (rule reachable_lock [OF open_existing, where p = 1 and i1 = 0, rotated 2]) (simp_all add: simps)
  then have "lock_reachable (two_processes (Some 0) None None (WaitFlock 0) (WaitFlock 0))"
    by (rule reachable_lock [OF release_open, where p = 1 and i1 = 0, rotated]) (simp_all add: simps)
  then have "lock_reachable (two_processes (Some 0) None (Some 0) (WaitCheck 0) (WaitFlock 0))"
    by (rule reachable_lock [OF take_flock, where p = 0 and i1 = 0, rotated 2]) (simp_all add: simps)
  then have "lock_reachable (two_processes (Some 0) (Some 0) (Some 0) (Checking 0) (WaitFlock 0))"
    by (rule reachable_lock [OF coordinate_check, where p = 0 and i1 = 0, rotated 2]) (simp_all add: simps)
  then have "lock_reachable (two_processes (Some 0) (Some 0) (Some 0) (Matched 0) (WaitFlock 0))"
    by (rule reachable_lock [OF check_matches, where p = 0 and i1 = 0, rotated 2]) (simp_all add: simps)
  then show ?thesis
    by (rule reachable_lock [OF acquired, where p = 0 and i1 = 0, rotated]) (simp_all add: simps)
qed

text \<open>C5: At most one process has the guard of a session's copy-on-write files, however the
  processes interleave and die, and while it has it the lock name refers to the inode it locked:
  removing the lock never meets another process's lock file.
\<close>

theorem cow_lock_exclusive:
  assumes "lock_reachable s" and "guards (pcs s p) = Some i" and "guards (pcs s q) = Some j"
  shows "p = q \<and> lock_name s = Some i \<and> flocks s i = Some p"
proof -
  note inv = lock_reachable_inv [OF assms(1)]
  have p: "validated (pcs s p) = Some i" and q: "validated (pcs s q) = Some j"
    using guards_validated assms(2,3) by simp_all
  show ?thesis
    using validated_unique [OF inv p q] lock_invD(3) [OF inv p] lock_invD(1) [OF inv]
      validated_flocked [OF p] by simp
qed

theorem cow_lock_exclusive_witness:
  "\<exists>s. lock_reachable s \<and> guards (pcs s 0) = Some 0 \<and> lock_name s = Some 0 \<and> guards (pcs s 1) = None"
  using sample_lock_run cow_lock_exclusive [OF sample_lock_run, of 0 0 0 0]
  by (intro exI [of _ "two_processes (Some 0) None (Some 0) (Holding 0) (WaitFlock 0)"])
    (simp add: two_processes_def)

text \<open>C19: The lock protocol does not deadlock: while a process is inside it, either some process has
  the guard and is using it, or some process can make its next step.
\<close>

theorem cow_lock_progress:
  assumes "lock_reachable s" and "pcs s p \<noteq> Outside"
  shows "(\<exists>q i. pcs s q = Holding i)
    \<or> (\<exists>q s'. pcs s q \<noteq> Outside \<and> (lock_cow_step q s s' \<or> remove_lock_step q s s'))"
proof (cases "coordinator s")
  case (Some q)
  then have "coordinating (pcs s q)"
    using lock_invD(2) [OF lock_reachable_inv [OF assms(1)]] by simp
  moreover from this have "pcs s q \<noteq> Outside" by auto
  ultimately show ?thesis using coordinator_can_step [of s q] by blast
next
  case None
  then have free: "\<not> coordinating (pcs s q)" for q
    using lock_invD(2) [OF lock_reachable_inv [OF assms(1)], of q] by simp
  have held: ?thesis if "flocked (pcs s q) = Some i" for q i
  proof -
    have "pcs s q \<noteq> Outside" using that by auto
    then show ?thesis using uncoordinated_can_step [OF None free [of q]] that by blast
  qed
  show ?thesis
  proof (cases "pcs s p")
    case (WaitFlock i)
    show ?thesis
    proof (cases "flocks s i")
      case None
      then show ?thesis using take_flock [OF WaitFlock] assms(2) by blast
    next
      case (Some q)
      then show ?thesis
        using held lock_invD(1) [OF lock_reachable_inv [OF assms(1)]] by simp
    qed
  next
    case WaitOpen
    then show ?thesis using uncoordinated_can_step [OF None free [of p]] assms(2) by blast
  qed (use assms(2) free [of p] held [of p] in \<open>simp_all\<close>)
qed

theorem cow_lock_progress_witness:
  "\<exists>s. lock_reachable s \<and> pcs s 1 = WaitFlock 0
     \<and> ((\<exists>q i. pcs s q = Holding i)
        \<or> (\<exists>q s'. pcs s q \<noteq> Outside \<and> (lock_cow_step q s s' \<or> remove_lock_step q s s')))"
  using sample_lock_run cow_lock_progress [OF sample_lock_run, of 1]
  by (intro exI [of _ "two_processes (Some 0) None (Some 0) (Holding 0) (WaitFlock 0)"])
    (simp add: two_processes_def)

end
