(* ===== verification/Directory_Tree.thy ===== *)
theory Directory_Tree
  imports Logical_Path BTree_Map Text_Codec "HOL-Library.Sublist"
begin

text \<open>
  The private directory-repository protocol
  (\<open>source/crates/filebelt-directory-repository-protocol/src/lib.rs\<close>): validation of object
  identifiers and of the canonical flattened tree, and the bounded frames that carry the messages.
  Components are the normalized names of \<open>Logical_Path\<close>; NFC normalization, case folding and the
  Protobuf codec are parameters. Staged changes, commit chains and the checks of the generated
  request and response messages are not part of it.
\<close>

section \<open>Data and limits\<close>

definition MAX_BLOB_BYTES :: u64 where
  "MAX_BLOB_BYTES = 104857600"

definition MAX_TREE_ENTRIES :: nat where
  "MAX_TREE_ENTRIES = 100000"

definition MAX_FRAME_BYTES :: nat where
  "MAX_FRAME_BYTES = 16777216"

datatype ObjectFormat = Sha1 | Sha256

primrec oid_bytes :: "ObjectFormat \<Rightarrow> nat" where
  "oid_bytes Sha1 = 20"
| "oid_bytes Sha256 = 32"

record ObjectId =
  oid_format :: ObjectFormat
  oid_value :: bytes

datatype TreeMode = Directory | File

record TreeEntry =
  path_components :: "string list"
  entry_mode :: TreeMode
  object_id :: ObjectId
  object_size_bytes :: u64

datatype ValidationError =
    FrameTooLarge | FrameLength | FrameCodec | FrameIo | RequestId | MissingOperation | Fence
  | InvalidObjectId | TreeEntries | Path | PathCollision | PathOrder | MissingAncestor
  | InvalidTreeEntry | GitDirectory | FileBeltKeep | ChangedPaths | Change | CommitChain
  | PackSize | Contract | ResponseMismatch

section \<open>Validation\<close>

definition validate_object_id :: "ObjectId \<Rightarrow> ObjectFormat \<Rightarrow> (unit, ValidationError) result" where
  "validate_object_id oid expected_format =
     (if oid_format oid \<noteq> expected_format
         \<or> length (oid_value oid) \<noteq> oid_bytes expected_format
         \<or> list_all (\<lambda>b. b = CHR 0x00) (oid_value oid)
      then Err InvalidObjectId else Ok ())"

definition validate_entry :: "TreeEntry \<Rightarrow> ObjectFormat \<Rightarrow> (unit, ValidationError) result" where
  "validate_entry entry expected_format =
     and_then (validate_object_id (object_id entry) expected_format) (\<lambda>_.
     case entry_mode entry of
       Directory \<Rightarrow> if object_size_bytes entry = 0 then Ok () else Err InvalidTreeEntry
     | File \<Rightarrow> if object_size_bytes entry \<le> MAX_BLOB_BYTES then Ok () else Err InvalidTreeEntry)"

definition validate_component ::
  "(string \<Rightarrow> string) \<Rightarrow> (string \<Rightarrow> string) \<Rightarrow> string \<Rightarrow> (NormalizedName, ValidationError) result" where
  "validate_component nfc cf component =
     and_then (map_err (\<lambda>_. Path) (normalized_name_new nfc cf component)) (\<lambda>normalized.
     if display normalized \<noteq> component then Err Path
     else if comparison_key normalized = ''.git'' then Err GitDirectory
     else Ok normalized)"

definition validate_path ::
  "(string \<Rightarrow> string) \<Rightarrow> (string \<Rightarrow> string) \<Rightarrow> string list \<Rightarrow> (NormalizedName list, ValidationError) result" where
  "validate_path nfc cf path =
     (if path = [] then Err Path
      else
        and_then (collect_ok (validate_component nfc cf) path) (\<lambda>cs.
        and_then (map_err (\<lambda>_. Path) (from_components cs)) (\<lambda>_.
        Ok cs)))"

fun collisions_loop ::
  "(string list, (string, string) btree_map) btree_map \<Rightarrow> NormalizedName list list \<Rightarrow> (unit, ValidationError) result" where
  "collisions_loop children [] = Ok ()"
| "collisions_loop children (path # paths) =
     (if path = [] then Err Path
      else
        let name = last path;
            parent = map comparison_key (butlast path);
            siblings = (case bt_get children parent of None \<Rightarrow> bt_empty | Some m \<Rightarrow> m) in
        if bt_contains_key siblings (comparison_key name) then Err PathCollision
        else collisions_loop
               (bt_insert parent (bt_insert (comparison_key name) (display name) siblings) children) paths)"

definition validate_sibling_casefold_collisions :: "NormalizedName list list \<Rightarrow> (unit, ValidationError) result" where
  "validate_sibling_casefold_collisions paths = collisions_loop bt_empty paths"

definition validate_filebeltkeep :: "TreeEntry list \<Rightarrow> TreeEntry \<Rightarrow> (unit, ValidationError) result" where
  "validate_filebeltkeep entries keep =
     (if entry_mode keep \<noteq> File \<or> object_size_bytes keep \<noteq> 0 then Err FileBeltKeep
      else
        let parent = butlast (path_components keep) in
        if list_ex (\<lambda>entry. length (path_components entry) > length parent
             \<and> prefix parent (path_components entry)
             \<and> path_components entry \<noteq> path_components keep) entries
        then Err FileBeltKeep else Ok ())"

text \<open>The first loop of \<open>validate_tree\<close>: the modes by path and the normalized paths.\<close>

fun tree_loop ::
  "(string \<Rightarrow> string) \<Rightarrow> (string \<Rightarrow> string) \<Rightarrow> ObjectFormat \<Rightarrow> string list option
     \<Rightarrow> (string list, TreeMode) btree_map \<Rightarrow> NormalizedName list list \<Rightarrow> TreeEntry list
     \<Rightarrow> ((string list, TreeMode) btree_map \<times> NormalizedName list list, ValidationError) result" where
  "tree_loop nfc cf fmt prior modes paths [] = Ok (modes, paths)"
| "tree_loop nfc cf fmt prior modes paths (entry # entries) =
     and_then (validate_path nfc cf (path_components entry)) (\<lambda>normalized.
     if (case prior of None \<Rightarrow> False | Some path \<Rightarrow> path \<ge> path_components entry) then Err PathOrder
     else
       and_then (validate_entry entry fmt) (\<lambda>_.
       tree_loop nfc cf fmt (Some (path_components entry))
         (bt_insert (path_components entry) (entry_mode entry) modes) (paths @ [normalized]) entries))"

definition validate_ancestors ::
  "(string list, TreeMode) btree_map \<Rightarrow> string list \<Rightarrow> (unit, ValidationError) result" where
  "validate_ancestors modes path =
     each_ok (\<lambda>n. if bt_get modes (take n path) \<noteq> Some Directory then Err MissingAncestor else Ok ())
       [1..<length path]"

definition validate_tree ::
  "(string \<Rightarrow> string) \<Rightarrow> (string \<Rightarrow> string) \<Rightarrow> TreeEntry list \<Rightarrow> ObjectFormat \<Rightarrow> (unit, ValidationError) result" where
  "validate_tree nfc cf entries expected_format =
     (if length entries > MAX_TREE_ENTRIES then Err TreeEntries
      else
        and_then (tree_loop nfc cf expected_format None bt_empty [] entries) (\<lambda>(modes, paths).
        and_then (validate_sibling_casefold_collisions paths) (\<lambda>_.
        each_ok (\<lambda>entry.
          and_then (validate_ancestors modes (path_components entry)) (\<lambda>_.
          if path_components entry \<noteq> [] \<and> last (path_components entry) = ''.filebeltkeep''
          then validate_filebeltkeep entries entry else Ok ())) entries)))"

section \<open>Frames\<close>

definition to_be_bytes :: "nat \<Rightarrow> bytes" where
  "to_be_bytes n = map (\<lambda>k. char_of (n div 256 ^ k)) [3, 2, 1, 0]"

definition from_be_bytes :: "bytes \<Rightarrow> nat" where
  "from_be_bytes bs = foldl (\<lambda>n b. 256 * n + byte b) 0 bs"

definition encode_frame :: "('m \<Rightarrow> bytes) \<Rightarrow> 'm \<Rightarrow> (bytes, ValidationError) result" where
  "encode_frame encode message =
     (let body = encode message in
      if length body > MAX_FRAME_BYTES then Err FrameTooLarge
      else Ok (to_be_bytes (length body) @ body))"

definition decode_frame :: "(bytes \<Rightarrow> 'm option) \<Rightarrow> bytes \<Rightarrow> ('m, ValidationError) result" where
  "decode_frame decode frame =
     (if length frame < 4 then Err FrameLength
      else
        let len = from_be_bytes (take 4 frame) in
        if len > MAX_FRAME_BYTES then Err FrameTooLarge
        else if length frame \<noteq> len + 4 then Err FrameLength
        else ok_or (decode (drop 4 frame)) FrameCodec)"

text \<open>A reader is the bytes it has still to give; \<open>read_exact\<close> fails when they end too early.\<close>

definition read_exact_bytes :: "nat \<Rightarrow> bytes \<Rightarrow> (bytes \<times> bytes, ValidationError) result" where
  "read_exact_bytes n reader =
     (if length reader < n then Err FrameIo else Ok (take n reader, drop n reader))"

definition read_frame :: "(bytes \<Rightarrow> 'm option) \<Rightarrow> bytes \<Rightarrow> ('m \<times> bytes, ValidationError) result" where
  "read_frame decode reader =
     and_then (read_exact_bytes 4 reader) (\<lambda>(prefix, reader).
     let len = from_be_bytes prefix in
     if len > MAX_FRAME_BYTES then Err FrameTooLarge
     else
       and_then (read_exact_bytes len reader) (\<lambda>(body, reader).
       map_ok (\<lambda>m. (m, reader)) (ok_or (decode body) FrameCodec)))"

definition write_frame ::
  "('m \<Rightarrow> bytes) \<Rightarrow> ('w \<Rightarrow> bytes \<Rightarrow> 'w option) \<Rightarrow> 'w \<Rightarrow> 'm \<Rightarrow> ('w, ValidationError) result" where
  "write_frame encode write_all writer message =
     and_then (encode_frame encode message) (\<lambda>frame. ok_or (write_all writer frame) FrameIo)"

section \<open>What the checks accept\<close>

definition named :: "(string \<Rightarrow> string) \<Rightarrow> string \<Rightarrow> NormalizedName" where
  "named cf c = \<lparr>display = c, comparison_key = cf c\<rparr>"

definition valid_path :: "(string \<Rightarrow> string) \<Rightarrow> (string \<Rightarrow> string) \<Rightarrow> string list \<Rightarrow> bool" where
  "valid_path nfc cf p \<longleftrightarrow>
     p \<noteq> [] \<and> (\<forall>c \<in> set p. nfc c = c \<and> validate_display_name c = Ok () \<and> cf c \<noteq> ''.git'')
     \<and> length p \<le> MAX_PATH_COMPONENTS \<and> 1 + sum_list (map length p) + (length p - 1) \<le> MAX_PATH_BYTES"

lemma validate_component_Ok:
  "validate_component nfc cf c = Ok n \<longleftrightarrow>
     nfc c = c \<and> validate_display_name c = Ok () \<and> cf c \<noteq> ''.git'' \<and> n = named cf c"
  by (auto simp: validate_component_def result_simps normalized_name_new_Ok named_def split: if_splits)

lemma validate_path_Ok: "validate_path nfc cf p = Ok ns \<longleftrightarrow> valid_path nfc cf p \<and> ns = map (named cf) p"
proof -
  have "list_all2 (\<lambda>c n. validate_component nfc cf c = Ok n) p ns \<longleftrightarrow>
      (\<forall>c \<in> set p. nfc c = c \<and> validate_display_name c = Ok () \<and> cf c \<noteq> ''.git'') \<and> ns = map (named cf) p" for ns
    by (induction p arbitrary: ns) (auto simp: list_all2_Cons1 validate_component_Ok)
  then show ?thesis
    by (auto simp: validate_path_def result_simps valid_path_def from_components_Ok validate_path_limits_Ok
        absolute_path_len_def named_def comp_def)
qed

lemma tree_loop_Ok:
  "tree_loop nfc cf fmt prior modes paths es = Ok (modes', paths') \<longleftrightarrow>
     (\<forall>e \<in> set es. valid_path nfc cf (path_components e) \<and> validate_entry e fmt = Ok ())
     \<and> successively (<) (case prior of None \<Rightarrow> map path_components es | Some q \<Rightarrow> q # map path_components es)
     \<and> modes' = fold (\<lambda>(k, v). bt_insert k v) (map (\<lambda>e. (path_components e, entry_mode e)) es) modes
     \<and> paths' = paths @ map (\<lambda>e. map (named cf) (path_components e)) es"
proof (induction es arbitrary: prior modes paths)
  case Nil
  show ?case by (auto split: option.splits)
next
  case (Cons e es)
  show ?case
    by (cases prior) (auto simp: result_simps validate_path_Ok Cons.IH not_le)
qed

definition key_path :: "NormalizedName list \<Rightarrow> string list" where
  "key_path p = map comparison_key p"

lemma collisions_loop_Ok:
  assumes "\<And>parent key. bt_contains_key (case bt_get children parent of None \<Rightarrow> bt_empty | Some m \<Rightarrow> m) key
      \<longleftrightarrow> parent @ [key] \<in> seen"
  shows "collisions_loop children paths = Ok () \<longleftrightarrow>
     [] \<notin> set paths \<and> distinct (map key_path paths) \<and> set (map key_path paths) \<inter> seen = {}"
  using assms
proof (induction paths arbitrary: children seen)
  case (Cons p paths)
  show ?case
  proof (cases "p = []")
    case False
    let ?parent = "map comparison_key (butlast p)" and ?key = "comparison_key (last p)"
    let ?siblings = "case bt_get children ?parent of None \<Rightarrow> bt_empty | Some m \<Rightarrow> m"
    let ?children = "bt_insert ?parent (bt_insert ?key (display (last p)) ?siblings) children"
    have key: "?parent @ [?key] = key_path p"
      using False unfolding key_path_def by (metis append_butlast_last_id list.simps(8,9) map_append)
    have "bt_contains_key (case bt_get ?children parent of None \<Rightarrow> bt_empty | Some m \<Rightarrow> m) k
        \<longleftrightarrow> parent @ [k] \<in> insert (key_path p) seen" for parent k
      using Cons.prems [of parent k] Cons.prems [of ?parent k] by (auto simp flip: key)
    note ih = Cons.IH [OF this]
    have "bt_contains_key ?siblings ?key \<longleftrightarrow> key_path p \<in> seen"
      using Cons.prems [of ?parent ?key] key by simp
    then show ?thesis
      using False ih by (auto simp: Let_def)
  qed simp
qed simp

lemma sibling_collisions_Ok:
  "validate_sibling_casefold_collisions paths = Ok () \<longleftrightarrow> [] \<notin> set paths \<and> distinct (map key_path paths)"
  unfolding validate_sibling_casefold_collisions_def
  by (subst collisions_loop_Ok [where seen = "{}"]) simp_all

lemma strict_prefix_length: "length p < length q \<and> prefix p q \<longleftrightarrow> strict_prefix p q"
  by (auto simp: strict_prefix_def prefix_def)

lemma keep_Ok:
  "validate_filebeltkeep entries keep = Ok () \<longleftrightarrow>
     entry_mode keep = File \<and> object_size_bytes keep = 0
     \<and> (\<forall>e \<in> set entries. strict_prefix (butlast (path_components keep)) (path_components e)
          \<longrightarrow> path_components e = path_components keep)"
  unfolding validate_filebeltkeep_def Let_def list_ex_iff strict_prefix_length [symmetric] by auto

text \<open>A canonical tree, without reference to the loops that check it.\<close>

definition directory_in :: "TreeEntry list \<Rightarrow> string list \<Rightarrow> bool" where
  "directory_in entries p \<longleftrightarrow> (\<exists>d \<in> set entries. path_components d = p \<and> entry_mode d = Directory)"

definition valid_entry :: "ObjectFormat \<Rightarrow> TreeEntry \<Rightarrow> bool" where
  "valid_entry fmt e \<longleftrightarrow>
     oid_format (object_id e) = fmt \<and> length (oid_value (object_id e)) = oid_bytes fmt
     \<and> (\<exists>b \<in> set (oid_value (object_id e)). b \<noteq> CHR 0x00)
     \<and> object_size_bytes e \<le> (if entry_mode e = Directory then 0 else MAX_BLOB_BYTES)"

lemma validate_entry_Ok: "validate_entry e fmt = Ok () \<longleftrightarrow> valid_entry fmt e"
  by (auto simp: validate_entry_def validate_object_id_def valid_entry_def result_simps list_all_iff
      split: if_splits TreeMode.splits)

definition canonical_tree :: "(string \<Rightarrow> string) \<Rightarrow> (string \<Rightarrow> string) \<Rightarrow> ObjectFormat \<Rightarrow> TreeEntry list \<Rightarrow> bool" where
  "canonical_tree nfc cf fmt entries \<longleftrightarrow>
     length entries \<le> MAX_TREE_ENTRIES
     \<and> sorted_wrt (<) (map path_components entries)
     \<and> distinct (map (\<lambda>e. map cf (path_components e)) entries)
     \<and> (\<forall>e \<in> set entries.
          valid_path nfc cf (path_components e) \<and> valid_entry fmt e
          \<and> (\<forall>p. p \<noteq> [] \<and> strict_prefix p (path_components e) \<longrightarrow> directory_in entries p)
          \<and> (last (path_components e) = ''.filebeltkeep'' \<longrightarrow>
               entry_mode e = File \<and> object_size_bytes e = 0
               \<and> (\<forall>d \<in> set entries. strict_prefix (butlast (path_components e)) (path_components d)
                    \<longrightarrow> path_components d = path_components e)))"

lemma strict_prefix_take: "p \<noteq> [] \<and> strict_prefix p q \<longleftrightarrow> (\<exists>n \<in> {1..<length q}. p = take n q)"
proof
  assume "p \<noteq> [] \<and> strict_prefix p q"
  then show "\<exists>n \<in> {1..<length q}. p = take n q"
    by (intro bexI [of _ "length p"]) (auto simp: strict_prefix_def prefix_def Suc_le_eq)
qed (auto simp: strict_prefix_def take_is_prefix)

lemma modes_get:
  assumes "distinct (map path_components entries)"
  shows "bt_get (fold (\<lambda>(k, v). bt_insert k v) (map (\<lambda>e. (path_components e, entry_mode e)) entries) bt_empty) p
      = Some Directory \<longleftrightarrow> directory_in entries p"
proof -
  let ?kvs = "map (\<lambda>e. (path_components e, entry_mode e)) entries"
  have "distinct (map fst (rev ?kvs))" using assms by (simp add: comp_def rev_map [symmetric])
  then have "map_of (rev ?kvs) p = Some Directory \<longleftrightarrow> (p, Directory) \<in> set (rev ?kvs)" by (rule map_of_eq_Some_iff)
  also have "\<dots> \<longleftrightarrow> directory_in entries p" by (auto simp: directory_in_def)
  finally show ?thesis
    unfolding btm.insert_many_get by (cases "map_of (rev ?kvs) p") simp_all
qed

lemma validate_ancestors_Ok:
  assumes "\<And>p. bt_get modes p = Some Directory \<longleftrightarrow> directory_in entries p"
  shows "validate_ancestors modes path = Ok () \<longleftrightarrow> (\<forall>p. p \<noteq> [] \<and> strict_prefix p path \<longrightarrow> directory_in entries p)"
  unfolding validate_ancestors_def strict_prefix_take by (auto simp: result_simps assms split: if_splits)

lemma tree_accepted:
  "validate_tree nfc cf entries fmt = Ok () \<longleftrightarrow> canonical_tree nfc cf fmt entries"
proof (cases "length entries \<le> MAX_TREE_ENTRIES
    \<and> sorted_wrt (<) (map path_components entries)
    \<and> (\<forall>e \<in> set entries. valid_path nfc cf (path_components e) \<and> validate_entry e fmt = Ok ())")
  case True
  let ?modes = "fold (\<lambda>(k, v). bt_insert k v) (map (\<lambda>e. (path_components e, entry_mode e)) entries) bt_empty"
  let ?paths = "map (\<lambda>e. map (named cf) (path_components e)) entries"
  have "distinct (map path_components entries)" using True by (simp add: strict_sorted_iff)
  note dirs = modes_get [OF this]
  have scan: "tree_loop nfc cf fmt None bt_empty [] entries = Ok (?modes, ?paths)"
    using True by (simp add: tree_loop_Ok successively_conv_sorted_wrt)
  have keys: "validate_sibling_casefold_collisions ?paths = Ok ()
      \<longleftrightarrow> distinct (map (\<lambda>e. map cf (path_components e)) entries)"
    using True unfolding sibling_collisions_Ok by (auto simp: key_path_def named_def comp_def valid_path_def)
  have "validate_tree nfc cf entries fmt = Ok () \<longleftrightarrow>
      distinct (map (\<lambda>e. map cf (path_components e)) entries)
      \<and> (\<forall>e \<in> set entries. validate_ancestors ?modes (path_components e) = Ok ()
          \<and> (last (path_components e) = ''.filebeltkeep'' \<longrightarrow> validate_filebeltkeep entries e = Ok ()))"
    using True unfolding validate_tree_def scan
    by (auto simp: result_simps keys not_less valid_path_def split: if_splits)
  also have "\<dots> \<longleftrightarrow> canonical_tree nfc cf fmt entries"
    unfolding canonical_tree_def validate_entry_Ok [symmetric] validate_ancestors_Ok [OF dirs] keep_Ok using True by blast
  finally show ?thesis .
next
  case False
  have "tree_loop nfc cf fmt None bt_empty [] entries \<noteq> Ok (modes, paths)"
    if "length entries \<le> MAX_TREE_ENTRIES" for modes paths
    using False that by (auto simp: tree_loop_Ok successively_conv_sorted_wrt)
  then have "validate_tree nfc cf entries fmt \<noteq> Ok ()"
    unfolding validate_tree_def by (auto simp: result_simps not_less split: if_splits)
  then show ?thesis using False unfolding canonical_tree_def validate_entry_Ok [symmetric] by blast
qed

section \<open>Checking a tree out\<close>

text \<open>
  A file system that does not distinguish case: names are found by their folded path, and a name
  is created once, in a directory that exists.
\<close>

definition create_folded ::
  "(string \<Rightarrow> string) \<Rightarrow> TreeEntry \<Rightarrow> (string list \<rightharpoonup> TreeEntry) \<Rightarrow> (string list \<rightharpoonup> TreeEntry) option" where
  "create_folded cf e m =
     (let p = map cf (path_components e) in
      if m p \<noteq> None
         \<or> butlast p \<noteq> [] \<and> (case m (butlast p) of None \<Rightarrow> True | Some d \<Rightarrow> entry_mode d \<noteq> Directory)
      then None else Some (m(p \<mapsto> e)))"

fun checkout :: "(string \<Rightarrow> string) \<Rightarrow> TreeEntry list \<Rightarrow> (string list \<rightharpoonup> TreeEntry) \<Rightarrow> (string list \<rightharpoonup> TreeEntry) option" where
  "checkout cf [] m = Some m"
| "checkout cf (e # es) m = Option.bind (create_folded cf e m) (checkout cf es)"

lemma butlast_strict_prefix:
  assumes "p \<noteq> []"
  shows "strict_prefix (butlast p) p" and "butlast p < (p :: string list)"
proof -
  show "strict_prefix (butlast p) p"
    using assms by (metis append_butlast_last_id strict_prefixI')
  have "(butlast p, butlast p @ [last p]) \<in> lexord {(u, v). u < v}"
    by (rule lexord_append_rightI) simp
  then show "butlast p < p" using assms by (simp add: list_less_def)
qed

lemma checkout_prefix:
  assumes tree: "canonical_tree nfc cf fmt (made @ todo)"
    and m: "m = map_of (map (\<lambda>e. (map cf (path_components e), e)) made)"
  shows "checkout cf todo m = Some (map_of (map (\<lambda>e. (map cf (path_components e), e)) (made @ todo)))"
  using assms
proof (induction todo arbitrary: made m)
  case (Cons e es)
  let ?f = "\<lambda>e. (map cf (path_components e), e)"
  note tree = Cons.prems(1) [unfolded canonical_tree_def]
  have keys: "distinct (map fst (map ?f (made @ e # es)))" using tree by (simp add: comp_def)
  have fresh: "m (map cf (path_components e)) = None"
    using keys unfolding Cons.prems(2) by (auto simp: map_of_eq_None_iff)
  have parent: "\<exists>d. m (butlast (map cf (path_components e))) = Some d \<and> entry_mode d = Directory"
    if nonroot: "butlast (path_components e) \<noteq> []"
  proof -
    have "path_components e \<noteq> []" using nonroot by auto
    note bl = butlast_strict_prefix [OF this]
    have "directory_in (made @ e # es) (butlast (path_components e))"
      using tree nonroot bl(1) by simp
    then obtain d where d: "d \<in> set (made @ e # es)" "path_components d = butlast (path_components e)"
        "entry_mode d = Directory"
      unfolding directory_in_def by blast
    have "path_components d < path_components e" unfolding d(2) by (rule bl(2))
    moreover have "sorted_wrt (<) (map path_components made @ path_components e # map path_components es)"
      using tree by simp
    ultimately have "d \<in> set made"
      using d(1) by (auto simp: sorted_wrt_append)
    moreover have "distinct (map fst (map ?f made))" using keys by simp
    ultimately have "m (map cf (path_components d)) = Some d"
      unfolding Cons.prems(2) by (subst map_of_eq_Some_iff) auto
    then show ?thesis using d(2,3) by (simp add: map_butlast)
  qed
  have "create_folded cf e m = Some (m(map cf (path_components e) \<mapsto> e))"
    using fresh parent by (auto simp: create_folded_def Let_def map_butlast [symmetric])
  moreover have "m(map cf (path_components e) \<mapsto> e) = map_of (map ?f (made @ [e]))"
    using fresh unfolding Cons.prems(2) by (auto simp: fun_eq_iff map_add_def split: option.splits)
  ultimately show ?case
    using Cons.IH [of "made @ [e]" "map_of (map ?f (made @ [e]))"] Cons.prems(1) by simp
qed (simp add: assms)

section \<open>Frame lemmas\<close>

lemma length_to_be_bytes: "length (to_be_bytes n) = 4"
  by (simp add: to_be_bytes_def)

lemma from_to_be_bytes:
  assumes "n < 2 ^ 32"
  shows "from_be_bytes (to_be_bytes n) = n"
proof -
  define a b c where "a = n div 256" and "b = a div 256" and "c = b div 256"
  have "c = n div 16777216" "b = n div 65536"
    by (simp_all add: a_def b_def c_def div_mult2_eq [symmetric])
  then have "from_be_bytes (to_be_bytes n) = 256 * (256 * (256 * (c mod 256) + b mod 256) + a mod 256) + n mod 256"
    by (simp add: from_be_bytes_def to_be_bytes_def byte_def a_def)
  moreover have "c mod 256 = c" using assms \<open>c = n div 16777216\<close> by (simp add: less_mult_imp_div_less)
  moreover have "256 * c + b mod 256 = b" "256 * b + a mod 256 = a" "256 * a + n mod 256 = n"
    by (simp_all add: a_def b_def c_def)
  ultimately show ?thesis by simp
qed

lemma encode_frame_Ok:
  "encode_frame encode m = Ok frame \<longleftrightarrow>
     length (encode m) \<le> MAX_FRAME_BYTES \<and> frame = to_be_bytes (length (encode m)) @ encode m"
  by (auto simp: encode_frame_def Let_def)

lemma frame_prefix:
  assumes "length body \<le> MAX_FRAME_BYTES"
  shows "from_be_bytes (to_be_bytes (length body)) = length body"
  using assms by (intro from_to_be_bytes) (simp add: MAX_FRAME_BYTES_def)

lemma read_frame_whole:
  assumes "encode_frame encode m = Ok frame"
  shows "read_frame decode (frame @ rest) = map_ok (\<lambda>m. (m, rest)) (ok_or (decode (encode m)) FrameCodec)"
  using assms unfolding encode_frame_Ok
  by (auto simp: read_frame_def read_exact_bytes_def length_to_be_bytes frame_prefix not_less)

lemma read_frame_truncated:
  assumes "encode_frame encode m = Ok frame" and "k < length frame"
  shows "read_frame decode (take k frame) = Err FrameIo"
  using assms unfolding encode_frame_Ok
  by (auto simp: read_frame_def read_exact_bytes_def length_to_be_bytes frame_prefix not_less min_def)

text \<open>A conversation: messages written one after the other, and as many read back.\<close>

fun send_all :: "('m \<Rightarrow> bytes) \<Rightarrow> 'm list \<Rightarrow> bytes \<Rightarrow> (bytes, ValidationError) result" where
  "send_all encode [] w = Ok w"
| "send_all encode (m # ms) w =
     and_then (write_frame encode (\<lambda>w frame. Some (w @ frame)) w m) (send_all encode ms)"

fun receive_all :: "(bytes \<Rightarrow> 'm option) \<Rightarrow> nat \<Rightarrow> bytes \<Rightarrow> ('m list \<times> bytes, ValidationError) result" where
  "receive_all decode 0 reader = Ok ([], reader)"
| "receive_all decode (Suc n) reader =
     and_then (read_frame decode reader) (\<lambda>(m, reader).
     map_ok (\<lambda>(ms, reader). (m # ms, reader)) (receive_all decode n reader))"

lemma receive_sent:
  assumes "\<And>m. decode (encode m) = Some m" and "send_all encode ms w = Ok w'"
  shows "\<exists>sent. w' = w @ sent \<and> receive_all decode (length ms) (sent @ rest) = Ok (ms, rest)
      \<and> (\<forall>k < length sent. receive_all decode (length ms) (take k sent) = Err FrameIo)"
  using assms(2)
proof (induction ms arbitrary: w)
  case (Cons m ms)
  obtain frame where frame: "encode_frame encode m = Ok frame" and "send_all encode ms (w @ frame) = Ok w'"
    using Cons.prems by (auto simp: write_frame_def result_simps)
  from Cons.IH [OF this(2)] obtain sent where sent: "w' = (w @ frame) @ sent"
      "receive_all decode (length ms) (sent @ rest) = Ok (ms, rest)"
      "\<forall>k < length sent. receive_all decode (length ms) (take k sent) = Err FrameIo"
    by blast
  have "receive_all decode (length (m # ms)) (take k (frame @ sent)) = Err FrameIo" if "k < length (frame @ sent)" for k
  proof (cases "k < length frame")
    case False
    then have "receive_all decode (length ms) (take (k - length frame) sent) = Err FrameIo" using sent(3) that by simp
    then show ?thesis using False read_frame_whole [OF frame, of decode] assms(1) by simp
  qed (simp add: read_frame_truncated [OF frame])
  then show ?case
    using sent read_frame_whole [OF frame, of decode "sent @ rest"] assms(1)
    by (intro exI [of _ "frame @ sent"]) simp
qed simp

section \<open>Properties\<close>

text \<open>C9: The tree check is sound and complete: it accepts a flattened tree exactly when the tree is
  canonical: at most 100000 entries in strictly increasing path order, every component in normal
  form, a valid name and not a spelling of \<open>.git\<close>, no two paths equal up to case, every ancestor
  listed as a directory, object identifiers and sizes in range, and a \<open>.filebeltkeep\<close> the empty
  and only entry below its directory.\<close>

theorem tree_accepted_iff:
  "validate_tree nfc cf entries fmt = Ok () \<longleftrightarrow> canonical_tree nfc cf fmt entries"
  by (rule tree_accepted)

text \<open>C20: An accepted tree can be checked out on a file system that does not distinguish case: its
  entries, created in the order of the tree, each find their parent directory made and their own
  name free, and afterwards every entry is found under its folded path and nothing else is.\<close>

theorem accepted_tree_checks_out:
  assumes "validate_tree nfc cf entries fmt = Ok ()"
  shows "\<exists>m. checkout cf entries Map.empty = Some m
      \<and> (\<forall>p e. m p = Some e \<longleftrightarrow> e \<in> set entries \<and> p = map cf (path_components e))"
proof -
  let ?f = "\<lambda>e. (map cf (path_components e), e)"
  have tree: "canonical_tree nfc cf fmt ([] @ entries)" using assms by (simp add: tree_accepted)
  then have "distinct (map fst (map ?f entries))" by (simp add: canonical_tree_def comp_def)
  then have "map_of (map ?f entries) p = Some e \<longleftrightarrow> e \<in> set entries \<and> p = map cf (path_components e)" for p e
    by (subst map_of_eq_Some_iff) auto
  then show ?thesis using checkout_prefix [OF tree, of Map.empty] by auto
qed

definition sample_entry :: "string list \<Rightarrow> TreeMode \<Rightarrow> TreeEntry" where
  "sample_entry path mode =
     \<lparr>path_components = path, entry_mode = mode,
      object_id = \<lparr>oid_format = Sha1, oid_value = replicate 20 (CHR ''k'')\<rparr>, object_size_bytes = 0\<rparr>"

definition sample_tree :: "TreeEntry list" where
  "sample_tree = [sample_entry [''Readme''] File, sample_entry [''docs''] Directory,
     sample_entry [''docs'', ''.filebeltkeep''] File]"

lemma sample_entry_valid:
  "valid_entry Sha1 (sample_entry path mode)" "path_components (sample_entry path mode) = path"
  "entry_mode (sample_entry path mode) = mode" "object_size_bytes (sample_entry path mode) = 0"
  by (simp_all add: sample_entry_def valid_entry_def)

lemma sample_tree_names:
  "\<forall>c \<in> {''Readme'', ''docs'', ''.filebeltkeep''}. validate_display_name c = Ok () \<and> map to_ascii_uppercase c \<noteq> ''.git''"
  by code_simp

theorem accepted_tree_checks_out_witness:
  "\<exists>m. checkout (map to_ascii_uppercase) sample_tree Map.empty = Some m
      \<and> (\<forall>p e. m p = Some e \<longleftrightarrow> e \<in> set sample_tree \<and> p = map (map to_ascii_uppercase) (path_components e))"
proof (rule accepted_tree_checks_out)
  let ?cf = "map to_ascii_uppercase" and ?paths = "[[''Readme''], [''docs''], [''docs'', ''.filebeltkeep'']]"
  have paths: "\<forall>p \<in> set ?paths. valid_path id ?cf p"
    using sample_tree_names by (simp add: valid_path_def MAX_PATH_COMPONENTS_def MAX_PATH_BYTES_def)
  have sorted: "sorted_wrt (<) ?paths" by code_simp
  have folded: "distinct (map (map ?cf) ?paths)" by code_simp
  have "directory_in sample_tree [''docs'']"
    by (simp add: directory_in_def sample_tree_def sample_entry_valid)
  then show "validate_tree id ?cf sample_tree Sha1 = Ok ()"
    using paths sorted folded unfolding tree_accepted canonical_tree_def strict_prefix_take
    by (simp add: sample_tree_def sample_entry_valid MAX_TREE_ENTRIES_def less_Suc_eq numeral_2_eq_2)
qed

text \<open>C40: Frames round trip over a byte stream: whatever messages are written one after the other,
  as many reads give back those messages in order and leave the bytes that follow untouched; and
  when the stream ends before the last frame is complete, the reader reports the error instead of
  delivering the conversation.\<close>

theorem frames_round_trip:
  assumes "\<And>m. decode (encode m) = Some m" and "send_all encode ms w = Ok w'"
  shows "\<exists>sent. w' = w @ sent \<and> receive_all decode (length ms) (sent @ rest) = Ok (ms, rest)
      \<and> (\<forall>k < length sent. receive_all decode (length ms) (take k sent) = Err FrameIo)"
  using assms by (rule receive_sent)

theorem frames_round_trip_witness:
  "\<exists>sent. [CHR 0x00, CHR 0x00, CHR 0x00, CHR 0x02, CHR ''h'', CHR ''i'', CHR 0x00, CHR 0x00, CHR 0x00, CHR 0x00]
        = [] @ sent
      \<and> receive_all Some (length [''hi'', '''']) (sent @ ''x'') = Ok ([''hi'', ''''], ''x'')
      \<and> (\<forall>k < length sent. receive_all Some (length [''hi'', '''']) (take k sent) = Err FrameIo)"
proof (rule frames_round_trip [where encode = id])
  show "send_all id [''hi'', ''''] [] =
      Ok [CHR 0x00, CHR 0x00, CHR 0x00, CHR 0x02, CHR ''h'', CHR ''i'', CHR 0x00, CHR 0x00, CHR 0x00, CHR 0x00]"
    by (simp add: write_frame_def encode_frame_def MAX_FRAME_BYTES_def to_be_bytes_def Let_def) code_simp
qed simp

end
