(* ===== verification/Spec2Isabelle.thy ===== *)
theory Spec2Isabelle
  imports Logical_Path Lifecycle Repository_Rules Access_Policy Mount_Sessions Upload Cow_Lock Directory_Tree
begin

text \<open>
  A verification library for FileBelt, a multi-tenant file service written in Rust. An API service
  and a VFS gateway decide who may do what and hand out short-lived signed capabilities; storage
  workers accept nothing but such capabilities, keep the bytes in a directory layout of their own,
  and report to a PostgreSQL database that fences every state change. The development models the
  decisions and the storage core: names and paths, the access-control evaluators, the two
  authorization gates, the capabilities, the object store with its copy-on-write staging, and the
  handlers of the storage worker that tie them together.

  \<^bold>\<open>Conventions.\<close> A \<open>Result\<close> is the datatype \<open>result\<close> (\<open>and_then\<close> is the \<open>?\<close> operator); strings
  and byte vectors are \<open>string\<close>; a \<open>Uuid\<close> is a \<open>128 word\<close>; signed integers are words read with
  \<open>sint\<close>; sizes and offsets of the storage crate are \<open>nat\<close> with the checked operations of \<open>u64\<close>
  written out. \<open>BTreeMap\<close> is a sorted association list behind a locale with the laws of a map.
  Code that is not part of the repository is a parameter: NFC and case folding, the uuid, base64,
  Ed25519, BLAKE3 and Protobuf crates, the sparse-file system calls, and every database call.

  \<^bold>\<open>Base.\<close> \<open>Belt_Prelude\<close> has the shared types, the automation for results and the text helpers;
  \<open>BTree_Map\<close> the ordered map, with the locale \<open>ordered_map\<close> and its interpretation; \<open>Text_Codec\<close>
  decimal and base64 text.

  \<^bold>\<open>Domain\<close> (\<open>source/crates/filebelt-domain/src/lib.rs\<close>). \<open>Domain\<close>: identifiers, actions,
  resources and generations. \<open>Logical_Path\<close>: validation of names, \<open>NormalizedName\<close>, \<open>LogicalPath\<close>;
  printing and parsing are inverse, accepted paths are well-formed and within the limits, accepted
  names are safe path components. \<open>Lifecycle\<close>: the five state machines of \<open>define_state!\<close>, as
  interpretations of the locales \<open>lifecycle\<close> and \<open>ranked_lifecycle\<close>; what can never happen again
  once a node is purged, a payload retired or an upload ended.

  \<^bold>\<open>Authorization\<close> (\<open>source/crates/filebelt-authz/src\<close>). \<open>Virtual_Acl\<close>: \<open>evaluate\<close> against a
  set-based policy, and \<open>validate_delegation\<close>. \<open>Recursive_Share\<close>, \<open>Share_Fixpoint\<close>, \<open>Share_Limits\<close>:
  the recursive-share evaluator; its saturation computes the least fixed point of the delegation
  rules, it always answers, agrees with \<open>evaluate\<close> where no shares are involved, and grants
  nothing on cycles of shares alone. Its two loops terminate by measures on the limits of the code
  and on the nodes still to be allowed. \<open>Repository_Rules\<close>: rule admission, whose layers combine
  to the most restrictive rule (locale \<open>layered_rules\<close>).

  \<^bold>\<open>Gates.\<close> \<open>Access_Policy\<close> has \<open>policy.rs\<close> of \<open>filebelt-api\<close> and of \<open>filebelt-vfs\<close>, both as
  instances of the locale \<open>snapshot_gate\<close>: a grant means that the actor holds the action by the
  delegation rules on the rows of the snapshot, refusals are uniform, and the two gates agree.

  \<^bold>\<open>Capabilities.\<close> \<open>Keyset\<close> (\<open>filebelt-capability-keyset\<close>) and \<open>Capability\<close>
  (\<open>filebelt-storage-protocol\<close>): text format and verification. Issued capabilities verify for their
  whole lifetime, verified ones are bound to audience, use, time and identities, and no wire text
  serves two uses.

  \<^bold>\<open>Storage\<close> (\<open>source/crates/filebelt-storage/src\<close>). \<open>Posix_Fs\<close> is a file system with names,
  inodes, hard links and sparse files in which every call can fail, following a list of faults;
  \<open>Posix_Spec\<close> its invariants and specifications that hold for all faults. \<open>Storage_Layout\<close> is
  \<open>lib.rs\<close>; \<open>Cow_Staging\<close> is \<open>cow.rs\<close>. \<open>Chunk_Bytes\<close>, \<open>Cow_Refine\<close>, \<open>Cow_Operations\<close>,
  \<open>Cow_Recovery\<close> and \<open>Cow_Correct\<close> prove that a session of range operations refines the same
  operations on one flat file, also when it is interrupted and recovered, and leaves every name
  outside its directory alone. \<open>Cow_Lock\<close> is the lock of a session (\<open>lock_cow\<close>, \<open>remove_cow_lock\<close>
  and the drop of the guard) as a step relation over interleaving processes: at most one of them
  holds the guard, and the protocol does not deadlock.

  \<^bold>\<open>Storage worker\<close> (\<open>source/apps/filebelt-worker-io/src/main.rs\<close>). \<open>Worker_Types\<close> has its data and
  the rows of the database, \<open>Worker_Gate\<close> the decisions without I/O. A handler is a function on the
  state of the environment and the file system; database calls are fields of an environment
  record, may change both, and so stand for other processes as well.
    \<^item> \<open>Mount_Write\<close>, \<open>Mount_Guarantees\<close>: \<open>mutate_mount_range\<close> and its three routes. The storage
      step runs only for authorized calls, and retried after failures it completes.
    \<^item> \<open>Mount_Sessions\<close>: seek, flush, finalize, abort, the deletion of staged bytes and the leased
      cleanup. Bytes are deleted only under a lease for the authorized session.
    \<^item> \<open>Worker_Reads\<close>, \<open>Download_Correct\<close>: downloads, reads and streams. A mount download delivers
      exactly the granted range of the verified object.
    \<^item> \<open>Upload\<close>: \<open>upload_part\<close>, \<open>finalize_upload\<close>, \<open>write_revision_chunk\<close>. A part is recorded as
      durable, and an upload as finalized, only in the size and with the digest of what is stored.

  \<^bold>\<open>Directory repositories\<close> (\<open>source/crates/filebelt-directory-repository-protocol\<close>).
  \<open>Directory_Tree\<close>: the tree check accepts exactly the canonical trees, these can be checked out
  where case is not distinguished, and frames survive a byte stream.

  \<^bold>\<open>Bounds.\<close> \<open>resolve\<close> follows at most forty symbolic links, as Linux does. The loops of
  \<open>Cow_Staging\<close> terminate by a measure, except that \<open>copy_extents\<close> runs on fuel, one more than the
  length of the source, because it follows what the sparse-file calls answer; running out is the
  outcome \<open>Unbounded\<close>, which the specifications exclude under the laws of these calls. The numbers
  of heartbeats during a blocking deletion or finalization
  are chosen by the environment, and the blocking step takes effect after the last of them.

  \<^bold>\<open>Findings.\<close> \<open>parse_cow_chunk_name\<close> accepts a leading plus sign (\<open>Cow_Staging\<close>). The mount gate
  does not test that the drive ACL generation is positive, which the API gate does; the equivalence
  of the gates states the difference.

  \<^bold>\<open>Not modelled.\<close> The SQL of \<open>filebelt-database\<close> and the migrations, whose meaning is PostgreSQL's;
  the routes of the API, the VFS gateway, the collaboration, document, revision and MCP services,
  the maintenance worker, the controllers and relays, which orchestrate the database and external
  programs; handlers of the worker that build SQL themselves (document revisions, writes of
  collaboration objects); the shape checks of generated Protobuf messages; the MCP approval
  policy; durability across power loss, beyond the order of the synchronisation calls; the
  adapters and the user interface.
\<close>

end
